theory Spec2Isabelle
  imports Complex_Main
begin

section \<open>Snapshot history manager (HistoryManager.js)\<close>

text \<open>
  The fields of class \<open>HistoryManager\<close>. A JavaScript array is a list whose index 0 is the
  head: \<open>push\<close> appends at the end, \<open>pop\<close> takes the last element, \<open>shift\<close> drops index 0.
  \<open>debounceTimer\<close> is True while a timer is pending. The field \<open>editor\<close> is a reference to
  the editor; its canvas is not part of this record: the string that \<open>_doSaveState\<close>
  computes from it is an argument of that step, and what \<open>restoreState\<close> does to it
  (\<open>discardActiveObject\<close>, \<open>loadFromJSON\<close>, the loop and the relink of the \<open>.then\<close> callback)
  is \<open>restoreState_canvas\<close> of the tools section.

  Two components are not fields of the class. \<open>pending\<close> is the promise returned by
  \<open>canvas.loadFromJSON\<close> while it has not settled: the snapshot being loaded and how the
  promise will settle. \<open>canvasSource\<close> is the snapshot from which the collection was last
  rebuilt by a load that succeeded.

  \<open>restore_outcome\<close> is what the environment does with a restore: the load succeeds, or
  \<open>JSON.parse\<close> throws, or the promise of \<open>loadFromJSON\<close> is rejected.
\<close>

datatype restore_outcome = Loaded | ParseThrows | LoadRejects

record HistoryManager =
  maxStates :: nat
  undoStack :: "string list"
  redoStack :: "string list"
  isRestoring :: bool
  isSaving :: bool
  debounceTimer :: bool
  pending :: "(string \<times> restore_outcome) option"
  canvasSource :: "string option"

text \<open>\<open>constructor(editor, maxStates = 50)\<close>; the second argument is optional.\<close>

definition HistoryManager_new :: "nat option \<Rightarrow> HistoryManager" where
  "HistoryManager_new maxStates_arg =
     \<lparr> maxStates = (case maxStates_arg of None \<Rightarrow> 50 | Some m \<Rightarrow> m),
       undoStack = [],
       redoStack = [],
       isRestoring = False,
       isSaving = False,
       debounceTimer = False,
       pending = None,
       canvasSource = None \<rparr>"

text \<open>
  \<open>_doSaveState()\<close>. The argument is what \<open>JSON.stringify(canvas.toJSON([...]))\<close> gives at
  this moment: \<open>Some stateStr\<close>, or \<open>None\<close> when the serialisation throws (the \<open>catch\<close> only
  logs). The \<open>finally\<close> block resets \<open>isSaving\<close> on every path; the duplicate check returns
  before the push.
\<close>

definition doSaveState :: "string option \<Rightarrow> HistoryManager \<Rightarrow> HistoryManager" where
  "doSaveState serialised h =
     (if isRestoring h \<or> isSaving h then h
      else
        let h1 = h\<lparr>isSaving := True\<rparr>
        in case serialised of
             None \<Rightarrow> h1\<lparr>isSaving := False\<rparr>
           | Some stateStr \<Rightarrow>
               if length (undoStack h1) > 0 \<and> last (undoStack h1) = stateStr
               then h1\<lparr>isSaving := False\<rparr>
               else
                 let h2 = h1\<lparr>undoStack := undoStack h1 @ [stateStr]\<rparr>;
                     h3 = h2\<lparr>redoStack := []\<rparr>;
                     h4 = (if length (undoStack h3) > maxStates h3
                           then h3\<lparr>undoStack := tl (undoStack h3)\<rparr>
                           else h3)
                 in h4\<lparr>isSaving := False\<rparr>)"

text \<open>\<open>saveState()\<close>: (re)starts the debounce timer; \<open>saveStateImmediate()\<close>: commits at once.\<close>

definition saveState :: "HistoryManager \<Rightarrow> HistoryManager" where
  "saveState h =
     (if isRestoring h \<or> isSaving h then h else h\<lparr>debounceTimer := True\<rparr>)"

definition saveStateImmediate :: "string option \<Rightarrow> HistoryManager \<Rightarrow> HistoryManager" where
  "saveStateImmediate serialised h =
     (if isRestoring h \<or> isSaving h then h
      else doSaveState serialised (h\<lparr>debounceTimer := False\<rparr>))"

text \<open>
  \<open>restoreState(stateJson)\<close>, up to its \<open>return\<close>. What \<open>JSON.parse\<close> and the promise of
  \<open>canvas.loadFromJSON\<close> do is the environment's answer, given as a parameter. When the
  parse throws, the \<open>catch\<close> of the \<open>try\<close> resets \<open>isRestoring\<close> before the function returns.
  Otherwise the function returns while the promise has not settled: \<open>isRestoring\<close> is still
  True. (\<open>discardActiveObject\<close> runs after \<open>isRestoring\<close> is set, so a handler it fires
  cannot commit.)
\<close>

definition restoreState :: "restore_outcome \<Rightarrow> string \<Rightarrow> HistoryManager \<Rightarrow> HistoryManager" where
  "restoreState outcome stateJson h =
     (let h1 = h\<lparr>isRestoring := True\<rparr>
      in case outcome of
           ParseThrows \<Rightarrow> h1\<lparr>isRestoring := False\<rparr>
         | LoadRejects \<Rightarrow> h1\<lparr>pending := Some (stateJson, LoadRejects)\<rparr>
         | Loaded \<Rightarrow> h1\<lparr>pending := Some (stateJson, Loaded)\<rparr>)"

text \<open>
  The pending promise settles: the \<open>.then\<close> callback runs when the load succeeded (the
  collection has been rebuilt from the snapshot), the \<open>.catch\<close> callback when it was
  rejected. Both reset \<open>isRestoring\<close>; neither touches the stacks.
\<close>

definition settle :: "HistoryManager \<Rightarrow> HistoryManager" where
  "settle h =
     (case pending h of
        None \<Rightarrow> h
      | Some (stateJson, outcome) \<Rightarrow>
          (case outcome of
             Loaded \<Rightarrow> h\<lparr>isRestoring := False, pending := None,
                          canvasSource := Some stateJson\<rparr>
           | _ \<Rightarrow> h\<lparr>isRestoring := False, pending := None\<rparr>))"

text \<open>\<open>undo()\<close> and \<open>redo()\<close>, up to their \<open>return\<close>.\<close>

definition undo :: "restore_outcome \<Rightarrow> HistoryManager \<Rightarrow> HistoryManager" where
  "undo outcome h =
     (if length (undoStack h) \<le> 1 \<or> isRestoring h then h
      else
        let h1 = h\<lparr>debounceTimer := False\<rparr>;
            currentState = last (undoStack h1);
            h2 = h1\<lparr>undoStack := butlast (undoStack h1)\<rparr>;
            h3 = h2\<lparr>redoStack := redoStack h2 @ [currentState]\<rparr>;
            previousState = last (undoStack h3)
        in restoreState outcome previousState h3)"

definition redo :: "restore_outcome \<Rightarrow> HistoryManager \<Rightarrow> HistoryManager" where
  "redo outcome h =
     (if length (redoStack h) = 0 \<or> isRestoring h then h
      else
        let h1 = h\<lparr>debounceTimer := False\<rparr>;
            nextState = last (redoStack h1);
            h2 = h1\<lparr>redoStack := butlast (redoStack h1)\<rparr>;
            h3 = h2\<lparr>undoStack := undoStack h2 @ [nextState]\<rparr>
        in restoreState outcome nextState h3)"

text \<open>
  A commit of a changed document: \<open>_doSaveState\<close> runs (from the timer or from
  \<open>saveStateImmediate\<close>) while the collection serialises to \<open>s\<close>.
\<close>

definition commit :: "string \<Rightarrow> HistoryManager \<Rightarrow> HistoryManager" where
  "commit s h = doSaveState (Some s) h"

fun commits :: "string list \<Rightarrow> HistoryManager \<Rightarrow> HistoryManager" where
  "commits [] h = h"
| "commits (s # ss) h = commits ss (commit s h)"

text \<open>
  A run of \<open>undo()\<close> calls, one per listed restore outcome, each call made once the
  restore started by the call before it has settled.
\<close>

fun undos :: "restore_outcome list \<Rightarrow> HistoryManager \<Rightarrow> HistoryManager" where
  "undos [] h = h"
| "undos (r # rs) h = undos rs (settle (undo r h))"

text \<open>
  The editor's start-up: \<open>new HistoryManager(this)\<close> and then \<open>saveStateImmediate()\<close> on the
  initial document, which serialises to \<open>doc\<close>.
\<close>

definition editor_init :: "string \<Rightarrow> HistoryManager" where
  "editor_init doc = saveStateImmediate (Some doc) (HistoryManager_new None)"

text \<open>The snapshot the manager designates as current: the top of \<open>undoStack\<close>.\<close>

definition currentSnapshot :: "HistoryManager \<Rightarrow> string option" where
  "currentSnapshot h = (if undoStack h = [] then None else Some (last (undoStack h)))"

text \<open>Numbered snapshot strings for long runs: \<open>snap n\<close> is the letter s and \<open>n\<close> letters x.\<close>

definition snap :: "nat \<Rightarrow> string" where
  "snap n = CHR ''s'' # replicate n (CHR ''x'')"

section \<open>Canvas objects and the tools manager (ToolsManager)\<close>

text \<open>
  Text shown to the user is a JavaScript string, kept as its list of UTF-16 code units;
  names that the code compares (tool names, shape types, event names, colours) are ASCII
  and kept as \<open>string\<close>.
\<close>

type_synonym jstring = "nat list"

text \<open>
  An event handler registered with \<open>obj.on(name, fn)\<close> is a closure; each constructor names
  the function that registers it and carries what the closure captured (the id of the
  partner object). A handler that reads a field of its own object when it runs
  (\<open>textbox._boundShape\<close>) captures nothing.
\<close>

datatype handler =
    TextBox_entered | TextBox_exited
  | Restored_entered | Restored_exited | Restored_selected | Restored_deselected
  | Shape_sync nat | Shape_removed nat | Shape_dblclick nat
  | ShapeText_exited | ShapeText_removed
  | Bubble_sync nat | Bubble_removed nat | Bubble_selected | Bubble_dblclick nat
  | BubbleText_entered | BubbleText_exited | BubbleText_removed

text \<open>
  The fields of a Fabric object that the tools and the history manager read or write;
  field \<open>x\<close> of the object is \<open>o_x\<close>, and a custom field \<open>_x\<close> is \<open>o_x\<close> too. A field that
  may be undefined is an option. \<open>o_originCenter\<close> stands for
  \<open>originX = originY = 'center'\<close> (otherwise both are \<open>'left'\<close>/\<open>'top'\<close>); \<open>o_handlesOff\<close> for
  \<open>hasControls = hasBorders = false, lockMovementX = lockMovementY = true\<close>, which are only
  ever set together. Object references (\<open>_boundText\<close>, \<open>_boundShape\<close>, \<open>_boundBubble\<close>) are ids
  into the heap, and so are the members \<open>o_objects\<close> of a group or an active selection.
  \<open>o_listeners\<close> are the registered handlers, each with its event name, in registration
  order.
\<close>

record fobj =
  o_type :: string
  o_shapeType :: "string option"
  o_name :: "string option"
  o_left :: real
  o_top :: real
  o_width :: real
  o_height :: real
  o_rx :: real
  o_ry :: real
  o_scaleX :: real
  o_scaleY :: real
  o_angle :: real
  o_originCenter :: bool
  o_text :: jstring
  o_fill :: string
  o_fontStyle :: string
  o_stroke :: "string option"
  o_strokeWidth :: real
  o_isPlaceholder :: bool
  o_bubbleWidth :: "real option"
  o_bubbleHeight :: "real option"
  o_tailSize :: "real option"
  o_boundText :: "nat option"
  o_boundShape :: "nat option"
  o_boundBubble :: "nat option"
  o_handlesOff :: bool
  o_selectable :: bool
  o_evented :: bool
  o_objects :: "nat list"
  o_listeners :: "(string \<times> handler) list"

text \<open>
  A freshly constructed Fabric object: the library's defaults for the fields the
  constructors below do not set (scale 1, angle 0, origin left/top, selectable, no
  listeners, custom fields undefined).
\<close>

definition fabric_default :: fobj where
  "fabric_default =
     \<lparr> o_type = ''object'', o_shapeType = None, o_name = None,
       o_left = 0, o_top = 0, o_width = 0, o_height = 0, o_rx = 0, o_ry = 0,
       o_scaleX = 1, o_scaleY = 1, o_angle = 0, o_originCenter = False,
       o_text = [], o_fill = ''rgb(0,0,0)'', o_fontStyle = ''normal'',
       o_stroke = None, o_strokeWidth = 1, o_isPlaceholder = False,
       o_bubbleWidth = None, o_bubbleHeight = None, o_tailSize = None,
       o_boundText = None, o_boundShape = None, o_boundBubble = None,
       o_handlesOff = False, o_selectable = True, o_evented = True,
       o_objects = [], o_listeners = [] \<rparr>"

text \<open>Callbacks handed to \<open>setTimeout\<close>, kept in the order they were scheduled.\<close>

datatype timer =
    Timer_enterEditing nat
  | Timer_selectAndEdit nat
  | Timer_setActive nat

text \<open>
  The tools manager together with what it drives. \<open>currentTool .. textColor\<close> are fields of
  \<open>ToolsManager\<close> (\<open>brushColor\<close>, \<open>brushWidth\<close> are \<open>brushSettings\<close>; \<open>textColor\<close>, \<open>fillColor\<close>,
  \<open>borderColor\<close>, \<open>borderWidth\<close> are \<open>textShapeDefaults\<close>). The \<open>cv_\<close> fields are the Fabric
  canvas: \<open>cv_objects\<close> is its object array (ids in stacking order), \<open>heap\<close> maps an id to
  the object, \<open>nextId\<close> is the next unused id. \<open>getCenterPoint\<close> and \<open>getBoundingWidth\<close> are
  Fabric's geometry (\<open>obj.getCenterPoint()\<close>, \<open>obj.getBoundingRect().width\<close>), a parameter
  of the model; \<open>hasEraserBrush\<close> tells whether \<open>fabric.EraserBrush\<close> exists. The remaining
  fields record what reaches the page and the other managers: the highlighted toolbar
  button, the two tool panels, toasts \<open>(message, type)\<close>, clicks on the file input, the
  crop manager's \<open>isCropping\<close>, \<open>editor.isPanning\<close>, the number of
  \<open>editor.history.saveState()\<close> calls, and the scheduled timers.
\<close>

record ToolsManager =
  currentTool :: string
  isDrawingShape :: bool
  startPoint :: "(real \<times> real) option"
  currentShape :: "nat option"
  brushColor :: string
  brushWidth :: nat
  textColor :: string
  fillColor :: string
  borderColor :: string
  borderWidth :: real
  cv_isDrawingMode :: bool
  cv_selection :: bool
  cv_defaultCursor :: string
  cv_hoverCursor :: string
  cv_activeObject :: "nat option"
  cv_objects :: "nat list"
  cv_freeDrawingBrush :: "(string \<times> string option \<times> nat) option"
  heap :: "nat \<Rightarrow> fobj"
  nextId :: nat
  getCenterPoint :: "fobj \<Rightarrow> real \<times> real"
  getBoundingWidth :: "fobj \<Rightarrow> real"
  hasEraserBrush :: bool
  toolbarActive :: string
  brushSettingsHidden :: bool
  cropPanelHidden :: bool
  toasts :: "(jstring \<times> string) list"
  imageInputClicks :: nat
  isCropping :: bool
  isPanning :: bool
  saveStateCalls :: nat
  timers :: "timer list"

text \<open>
  \<open>constructor(editor)\<close>, on an empty canvas with Fabric's defaults; the geometry and the
  presence of the eraser brush are given.
\<close>

definition ToolsManager_new ::
  "(fobj \<Rightarrow> real \<times> real) \<Rightarrow> (fobj \<Rightarrow> real) \<Rightarrow> bool \<Rightarrow> ToolsManager" where
  "ToolsManager_new gcp gbw eraser =
     \<lparr> currentTool = ''select'', isDrawingShape = False, startPoint = None,
       currentShape = None, brushColor = ''#000000'', brushWidth = 5,
       textColor = ''#000000'', fillColor = ''#ffffff'', borderColor = ''#333333'',
       borderWidth = 2,
       cv_isDrawingMode = False, cv_selection = True, cv_defaultCursor = ''default'',
       cv_hoverCursor = ''move'', cv_activeObject = None, cv_objects = [],
       cv_freeDrawingBrush = None, heap = (\<lambda>_. fabric_default), nextId = 0,
       getCenterPoint = gcp, getBoundingWidth = gbw, hasEraserBrush = eraser,
       toolbarActive = ''select'', brushSettingsHidden = True, cropPanelHidden = True,
       toasts = [], imageInputClicks = 0, isCropping = False, isPanning = False,
       saveStateCalls = 0, timers = [] \<rparr>"

text \<open>\<open>canvas.forEachObject(f)\<close> for an \<open>f\<close> that updates the object it is given.\<close>

definition forEachObject :: "(fobj \<Rightarrow> fobj) \<Rightarrow> ToolsManager \<Rightarrow> ToolsManager" where
  "forEachObject f st =
     st\<lparr>heap := fold (\<lambda>i h. h(i := f (h i))) (cv_objects st) (heap st)\<rparr>"

subsection \<open>Bound text: position, listeners, editing\<close>

text \<open>\<open>x || d\<close> for a numeric field: undefined and 0 are falsy.\<close>

definition or_default :: "real option \<Rightarrow> real \<Rightarrow> real" where
  "or_default x d = (case x of None \<Rightarrow> d | Some v \<Rightarrow> if v = 0 then d else v)"

text \<open>
  \<open>new fabric.X({...})\<close>: the new object takes the next unused id, which is \<open>nextId\<close> of
  the state before. \<open>canvas.add(obj)\<close> puts an object on top of the collection.
\<close>

definition new_object :: "fobj \<Rightarrow> ToolsManager \<Rightarrow> ToolsManager" where
  "new_object obj st = st\<lparr>heap := (heap st)(nextId st := obj), nextId := nextId st + 1\<rparr>"

definition canvas_add :: "nat \<Rightarrow> ToolsManager \<Rightarrow> ToolsManager" where
  "canvas_add i st = st\<lparr>cv_objects := cv_objects st @ [i]\<rparr>"

text \<open>\<open>obj.set({...})\<close>: an update of the object \<open>i\<close> in place.\<close>

definition obj_set :: "nat \<Rightarrow> (fobj \<Rightarrow> fobj) \<Rightarrow> ToolsManager \<Rightarrow> ToolsManager" where
  "obj_set i f st = st\<lparr>heap := (heap st)(i := f (heap st i))\<rparr>"

text \<open>\<open>obj.on(name, h)\<close>.\<close>

definition on :: "string \<Rightarrow> handler \<Rightarrow> nat \<Rightarrow> ToolsManager \<Rightarrow> ToolsManager" where
  "on name h i st = obj_set i (\<lambda>obj. obj\<lparr>o_listeners := o_listeners obj @ [(name, h)]\<rparr>) st"

text \<open>The handlers of object \<open>i\<close> for one event, in registration order.\<close>

definition listeners_for :: "string \<Rightarrow> fobj \<Rightarrow> handler list" where
  "listeners_for name obj = map snd (filter (\<lambda>(n, h). n = name) (o_listeners obj))"

text \<open>\<open>updateTextPositionForShape(shape, textbox)\<close>.\<close>

definition updateTextPositionForShape :: "nat \<Rightarrow> nat \<Rightarrow> ToolsManager \<Rightarrow> ToolsManager" where
  "updateTextPositionForShape shape textbox st =
     (let shapeCenter = getCenterPoint st (heap st shape);
          s = heap st shape
      in obj_set textbox
           (\<lambda>t. t\<lparr>o_left := fst shapeCenter, o_top := snd shapeCenter,
                  o_scaleX := o_scaleX s, o_scaleY := o_scaleY s, o_angle := o_angle s\<rparr>) st)"

text \<open>
  \<open>updateTextPositionForBubble(bubble, textbox)\<close>. The local \<open>height\<close> it computes is not
  used.
\<close>

definition updateTextPositionForBubble :: "nat \<Rightarrow> nat \<Rightarrow> ToolsManager \<Rightarrow> ToolsManager" where
  "updateTextPositionForBubble bubble textbox st =
     (let bubbleCenter = getCenterPoint st (heap st bubble);
          b = heap st bubble;
          tailSize = or_default (o_tailSize b) 15
      in obj_set textbox
           (\<lambda>t. t\<lparr>o_left := fst bubbleCenter,
                  o_top := snd bubbleCenter - (tailSize / 2) * o_scaleY b,
                  o_scaleX := o_scaleX b, o_scaleY := o_scaleY b, o_angle := o_angle b\<rparr>) st)"

text \<open>\<open>bindShapeTextEvents(shape, textbox)\<close> and \<open>setupShapeTextEvents(textbox)\<close>.\<close>

definition bindShapeTextEvents :: "nat \<Rightarrow> nat \<Rightarrow> ToolsManager \<Rightarrow> ToolsManager" where
  "bindShapeTextEvents shape textbox st =
     on ''mousedblclick'' (Shape_dblclick textbox) shape
       (on ''removed'' (Shape_removed textbox) shape
         (on ''modified'' (Shape_sync textbox) shape
           (on ''rotating'' (Shape_sync textbox) shape
             (on ''scaling'' (Shape_sync textbox) shape
               (on ''moving'' (Shape_sync textbox) shape st)))))"

definition setupShapeTextEvents :: "nat \<Rightarrow> ToolsManager \<Rightarrow> ToolsManager" where
  "setupShapeTextEvents textbox st =
     on ''removed'' ShapeText_removed textbox
       (on ''editing:exited'' ShapeText_exited textbox st)"

text \<open>\<open>bindBubbleTextEvents(bubble, textbox)\<close> and \<open>setupBubbleTextEvents(textbox)\<close>.\<close>

definition bindBubbleTextEvents :: "nat \<Rightarrow> nat \<Rightarrow> ToolsManager \<Rightarrow> ToolsManager" where
  "bindBubbleTextEvents bubble textbox st =
     on ''mousedblclick'' (Bubble_dblclick textbox) bubble
       (on ''selected'' Bubble_selected bubble
         (on ''removed'' (Bubble_removed textbox) bubble
           (on ''modified'' (Bubble_sync textbox) bubble
             (on ''rotating'' (Bubble_sync textbox) bubble
               (on ''scaling'' (Bubble_sync textbox) bubble
                 (on ''moving'' (Bubble_sync textbox) bubble st))))))"

definition setupBubbleTextEvents :: "nat \<Rightarrow> ToolsManager \<Rightarrow> ToolsManager" where
  "setupBubbleTextEvents textbox st =
     on ''removed'' BubbleText_removed textbox
       (on ''editing:exited'' BubbleText_exited textbox
         (on ''editing:entered'' BubbleText_entered textbox st))"

text \<open>\<open>setupTextBoxEvents(textbox)\<close>, for a free text box.\<close>

definition setupTextBoxEvents :: "nat \<Rightarrow> ToolsManager \<Rightarrow> ToolsManager" where
  "setupTextBoxEvents textbox st =
     on ''editing:exited'' TextBox_exited textbox
       (on ''editing:entered'' TextBox_entered textbox st)"

text \<open>
  \<open>HistoryManager.setupRestoredTextBox(textbox)\<close>: the border is hidden unless the text box
  is the active object, then four listeners are registered.
\<close>

definition setupRestoredTextBox :: "nat \<Rightarrow> ToolsManager \<Rightarrow> ToolsManager" where
  "setupRestoredTextBox textbox st =
     (let st1 = (if cv_activeObject st \<noteq> Some textbox
                 then obj_set textbox
                        (\<lambda>t. t\<lparr>o_stroke := Some ''transparent'', o_strokeWidth := 0\<rparr>) st
                 else st)
      in on ''deselected'' Restored_deselected textbox
           (on ''selected'' Restored_selected textbox
             (on ''editing:exited'' Restored_exited textbox
               (on ''editing:entered'' Restored_entered textbox st1))))"

text \<open>
  The placeholder text "click to enter text", and \<open>String.prototype.trim\<close>: it strips the
  code units of ECMAScript's WhiteSpace and LineTerminator from both ends.
\<close>

definition placeholderText :: jstring where
  "placeholderText = [0x70b9, 0x51fb, 0x8f93, 0x5165, 0x6587, 0x672c]"

definition js_whitespace :: "nat \<Rightarrow> bool" where
  "js_whitespace c =
     (c \<in> set [0x9, 0xA, 0xB, 0xC, 0xD, 0x20, 0xA0, 0x1680, 0x2028, 0x2029, 0x202F, 0x205F,
               0x3000, 0xFEFF]
      \<or> (0x2000 \<le> c \<and> c \<le> 0x200A))"

definition trim :: "jstring \<Rightarrow> jstring" where
  "trim s = rev (dropWhile js_whitespace (rev (dropWhile js_whitespace s)))"

text \<open>\<open>!textbox.text || textbox.text.trim() === ''\<close>.\<close>

definition text_is_blank :: "fobj \<Rightarrow> bool" where
  "text_is_blank t = (o_text t = [] \<or> trim (o_text t) = [])"

definition set_placeholder :: "fobj \<Rightarrow> fobj" where
  "set_placeholder t =
     t\<lparr>o_text := placeholderText, o_fill := ''#999999'', o_fontStyle := ''italic'',
       o_isPlaceholder := True\<rparr>"

text \<open>
  The bodies of the handlers that do not remove objects; \<open>self\<close> is the object the handler
  was registered on. The handlers of \<open>removed\<close> are run by \<open>canvas_remove\<close> below, and the
  double-click handlers by \<open>run_handler\<close>.
\<close>

definition run_edit_handler :: "nat \<Rightarrow> handler \<Rightarrow> ToolsManager \<Rightarrow> ToolsManager" where
  "run_edit_handler self h st =
     (case h of
        TextBox_entered \<Rightarrow>
          if o_isPlaceholder (heap st self)
          then obj_set self (\<lambda>t. t\<lparr>o_text := [], o_fill := textColor st,
                                    o_fontStyle := ''normal'', o_isPlaceholder := False\<rparr>) st
          else st
      | TextBox_exited \<Rightarrow>
          (let st1 = (if text_is_blank (heap st self) then obj_set self set_placeholder st
                      else st)
           in st1\<lparr>saveStateCalls := saveStateCalls st1 + 1\<rparr>)
      | ShapeText_exited \<Rightarrow>
          (let st1 = st\<lparr>saveStateCalls := saveStateCalls st + 1\<rparr>
           in case o_boundShape (heap st1 self) of
                Some shape \<Rightarrow> st1\<lparr>timers := timers st1 @ [Timer_setActive shape]\<rparr>
              | None \<Rightarrow> st1)
      | BubbleText_entered \<Rightarrow>
          if o_isPlaceholder (heap st self)
          then obj_set self (\<lambda>t. t\<lparr>o_text := [], o_fill := textColor st,
                                    o_fontStyle := ''normal'', o_isPlaceholder := False\<rparr>) st
          else st
      | BubbleText_exited \<Rightarrow>
          (let st1 = (if text_is_blank (heap st self) then obj_set self set_placeholder st
                      else st);
               st2 = st1\<lparr>saveStateCalls := saveStateCalls st1 + 1\<rparr>
           in case o_boundBubble (heap st2 self) of
                Some bubble \<Rightarrow> st2\<lparr>timers := timers st2 @ [Timer_setActive bubble]\<rparr>
              | None \<Rightarrow> st2)
      | Restored_entered \<Rightarrow>
          (let st1 = (if o_isPlaceholder (heap st self)
                      then obj_set self (\<lambda>t. t\<lparr>o_text := [], o_fill := ''#000000'',
                                               o_fontStyle := ''normal'',
                                               o_isPlaceholder := False\<rparr>) st
                      else st)
           in obj_set self (\<lambda>t. t\<lparr>o_stroke := Some ''#4f46e5'', o_strokeWidth := 1\<rparr>) st1)
      | Restored_exited \<Rightarrow>
          (let st1 = (if text_is_blank (heap st self) then obj_set self set_placeholder st
                      else st)
           in if cv_activeObject st1 \<noteq> Some self
              then obj_set self (\<lambda>t. t\<lparr>o_stroke := Some ''transparent'', o_strokeWidth := 0\<rparr>) st1
              else st1)
      | Restored_selected \<Rightarrow>
          obj_set self (\<lambda>t. t\<lparr>o_stroke := Some ''#4f46e5'', o_strokeWidth := 1\<rparr>) st
      | Restored_deselected \<Rightarrow>
          obj_set self (\<lambda>t. t\<lparr>o_stroke := Some ''transparent'', o_strokeWidth := 0\<rparr>) st
      | Shape_sync textbox \<Rightarrow> updateTextPositionForShape self textbox st
      | Bubble_sync textbox \<Rightarrow> updateTextPositionForBubble self textbox st
      | Bubble_selected \<Rightarrow> st
      | _ \<Rightarrow> st)"

text \<open>
  An event fired by Fabric on object \<open>self\<close> whose handlers remove nothing:
  \<open>textbox.enterEditing()\<close> fires \<open>editing:entered\<close> on the text box and leaving edit mode
  fires \<open>editing:exited\<close>; \<open>canvas.setActiveObject(obj)\<close> fires \<open>deselected\<close> on the object
  that was active and \<open>selected\<close> on the new one (nothing when it is already active);
  \<open>canvas.discardActiveObject()\<close> fires \<open>deselected\<close>.
\<close>

definition fire_edit :: "string \<Rightarrow> nat \<Rightarrow> ToolsManager \<Rightarrow> ToolsManager" where
  "fire_edit name self st =
     fold (run_edit_handler self) (listeners_for name (heap st self)) st"

definition enterEditing :: "nat \<Rightarrow> ToolsManager \<Rightarrow> ToolsManager" where
  "enterEditing textbox st = fire_edit ''editing:entered'' textbox st"

definition exitEditing :: "nat \<Rightarrow> ToolsManager \<Rightarrow> ToolsManager" where
  "exitEditing textbox st = fire_edit ''editing:exited'' textbox st"

definition discardActiveObject :: "ToolsManager \<Rightarrow> ToolsManager" where
  "discardActiveObject st =
     (case cv_activeObject st of
        None \<Rightarrow> st
      | Some a \<Rightarrow> fire_edit ''deselected'' a (st\<lparr>cv_activeObject := None\<rparr>))"

definition setActiveObject :: "nat \<Rightarrow> ToolsManager \<Rightarrow> ToolsManager" where
  "setActiveObject obj st =
     (if cv_activeObject st = Some obj then st
      else fire_edit ''selected'' obj ((discardActiveObject st)\<lparr>cv_activeObject := Some obj\<rparr>))"

text \<open>
  Any event \<open>name\<close> other than \<open>removed\<close> fired on \<open>self\<close> (\<open>moving\<close>, \<open>scaling\<close>, \<open>rotating\<close>,
  \<open>modified\<close>, \<open>mousedblclick\<close>, ...): a double-click handler makes the bound text active
  and puts it in edit mode.
\<close>

definition run_handler :: "nat \<Rightarrow> handler \<Rightarrow> ToolsManager \<Rightarrow> ToolsManager" where
  "run_handler self h st =
     (case h of
        Shape_dblclick textbox \<Rightarrow> enterEditing textbox (setActiveObject textbox st)
      | Bubble_dblclick textbox \<Rightarrow> enterEditing textbox (setActiveObject textbox st)
      | _ \<Rightarrow> run_edit_handler self h st)"

definition fire :: "string \<Rightarrow> nat \<Rightarrow> ToolsManager \<Rightarrow> ToolsManager" where
  "fire name self st = fold (run_handler self) (listeners_for name (heap st self)) st"

subsection \<open>Removing objects\<close>

text \<open>
  \<open>canvas.remove(obj)\<close>: Fabric takes the object out of the collection if it is there
  (\<open>splice\<close> at its index) and then fires \<open>removed\<close> on it; \<open>fire_removed\<close> runs the object's
  \<open>removed\<close> handlers in order. The four handlers registered for \<open>removed\<close> call
  \<open>canvas.remove\<close> on the partner when \<open>canvas.contains\<close> it: the shape's and the bubble's
  handler on the text box they captured, the text's handler on what its \<open>_boundShape\<close>,
  respectively \<open>_boundBubble\<close>, holds when it runs.
\<close>

function canvas_remove :: "nat \<Rightarrow> ToolsManager \<Rightarrow> ToolsManager"
  and fire_removed :: "nat \<Rightarrow> handler list \<Rightarrow> ToolsManager \<Rightarrow> ToolsManager" where
  "canvas_remove x st =
     (if x \<in> set (cv_objects st)
      then fire_removed x (listeners_for ''removed'' (heap st x))
             (st\<lparr>cv_objects := remove1 x (cv_objects st)\<rparr>)
      else st)"
| "fire_removed self [] st = st"
| "fire_removed self (h # hs) st =
     fire_removed self hs
       (case h of
          Shape_removed textbox \<Rightarrow>
            if textbox \<in> set (cv_objects st) then canvas_remove textbox st else st
        | Bubble_removed textbox \<Rightarrow>
            if textbox \<in> set (cv_objects st) then canvas_remove textbox st else st
        | ShapeText_removed \<Rightarrow>
            (case o_boundShape (heap st self) of
               Some shape \<Rightarrow> if shape \<in> set (cv_objects st) then canvas_remove shape st else st
             | None \<Rightarrow> st)
        | BubbleText_removed \<Rightarrow>
            (case o_boundBubble (heap st self) of
               Some bubble \<Rightarrow> if bubble \<in> set (cv_objects st) then canvas_remove bubble st else st
             | None \<Rightarrow> st)
        | _ \<Rightarrow> run_edit_handler self h st)"
  by pat_completeness auto

lemma cv_objects_obj_set [simp]: "cv_objects (obj_set i f st) = cv_objects st"
  by (simp add: obj_set_def)

lemma cv_objects_run_edit_handler [simp]:
  "cv_objects (run_edit_handler self h st) = cv_objects st"
  by (cases h)
     (simp_all add: run_edit_handler_def Let_def updateTextPositionForShape_def
        updateTextPositionForBubble_def split: option.splits)

lemma canvas_remove_length_dom:
  "canvas_remove_fire_removed_dom (Inl (x, st)) \<Longrightarrow>
     length (cv_objects (canvas_remove x st)) \<le> length (cv_objects st)"
  "canvas_remove_fire_removed_dom (Inr (self, hs, st)) \<Longrightarrow>
     length (cv_objects (fire_removed self hs st)) \<le> length (cv_objects st)"
proof (induct rule: canvas_remove_fire_removed.pinduct)
  case (1 x st)
  then show ?case
    by (auto simp add: canvas_remove.psimps length_remove1 intro: le_trans)
next
  case (2 self st)
  then show ?case by (simp add: fire_removed.psimps)
next
  case (3 self h hs st)
  then show ?case
    by (cases h) (auto simp add: fire_removed.psimps split: option.splits if_splits
          intro: le_trans)
qed

text \<open>
  The cascade ends: a call of \<open>canvas_remove\<close> that does anything shortens the collection,
  and between two such calls the list of handlers still to run gets shorter.
\<close>

termination canvas_remove
proof (relation "measures
    [\<lambda>a. case a of Inl (x, st) \<Rightarrow> length (cv_objects st)
                 | Inr (self, hs, st) \<Rightarrow> length (cv_objects st),
     \<lambda>a. case a of Inl (x, st) \<Rightarrow> 0
                 | Inr (self, hs, st) \<Rightarrow> Suc (length hs)]", goal_cases)
  case 1
  then show ?case by simp
next
  case (2 x st)
  then show ?case by (simp add: length_remove1) (cases "cv_objects st"; auto)
next
  case 3 then show ?case by simp
next
  case 4 then show ?case by simp
next
  case 5 then show ?case by simp
next
  case 6 then show ?case by simp
next
  case (7 self h hs st)
  then show ?case
    using canvas_remove_length_dom(1)
    by (cases h) (auto split: option.splits simp: le_less)
qed

declare canvas_remove.simps [simp del]

text \<open>
  \<open>PropertiesManager.deleteSelected()\<close>: the members of an active selection are removed one
  by one, a single active object is removed; then the selection is dropped and a commit
  requested.
\<close>

definition deleteSelected :: "ToolsManager \<Rightarrow> ToolsManager" where
  "deleteSelected st =
     (case cv_activeObject st of
        None \<Rightarrow> st
      | Some activeObject \<Rightarrow>
          (let st1 = (if o_type (heap st activeObject) = ''activeselection''
                      then fold canvas_remove (o_objects (heap st activeObject)) st
                      else canvas_remove activeObject st);
               st2 = discardActiveObject st1
           in st2\<lparr>saveStateCalls := saveStateCalls st2 + 1\<rparr>))"

subsection \<open>Tool selection\<close>

definition hideAllPanels :: "ToolsManager \<Rightarrow> ToolsManager" where
  "hideAllPanels st = st\<lparr>brushSettingsHidden := True, cropPanelHidden := True\<rparr>"

definition showPanel :: "string \<Rightarrow> ToolsManager \<Rightarrow> ToolsManager" where
  "showPanel panelId st =
     (if panelId = ''brush-settings'' then st\<lparr>brushSettingsHidden := False\<rparr>
      else if panelId = ''crop-panel'' then st\<lparr>cropPanelHidden := False\<rparr>
      else st)"

text \<open>\<open>editor.showToast(message, type)\<close>: appends a toast to the container.\<close>

definition showToast :: "jstring \<Rightarrow> string \<Rightarrow> ToolsManager \<Rightarrow> ToolsManager" where
  "showToast message type st = st\<lparr>toasts := toasts st @ [(message, type)]\<rparr>"

text \<open>The message of the crop tool: "select a picture before cropping".\<close>

definition msg_select_image_first :: jstring where
  "msg_select_image_first =
     [0x8bf7, 0x5148, 0x9009, 0x62e9, 0x4e00, 0x5f20, 0x56fe, 0x7247, 0x518d, 0x8fdb,
      0x884c, 0x88c1, 0x526a]"

text \<open>
  \<open>enableDrawingMode(mode)\<close>; the brush is (class, colour, width). \<open>updateBrushCursor\<close>
  only draws the cursor image.
\<close>

definition enableDrawingMode :: "string \<Rightarrow> ToolsManager \<Rightarrow> ToolsManager" where
  "enableDrawingMode mode st =
     (let st1 = st\<lparr>cv_isDrawingMode := True\<rparr>
      in if mode = ''pencil''
         then st1\<lparr>cv_freeDrawingBrush :=
                Some (''PencilBrush'', Some (brushColor st1), brushWidth st1)\<rparr>
         else if mode = ''eraser''
         then (if hasEraserBrush st1
               then st1\<lparr>cv_freeDrawingBrush := Some (''EraserBrush'', None, brushWidth st1)\<rparr>
               else st1\<lparr>cv_freeDrawingBrush :=
                      Some (''PencilBrush'', Some ''#ffffff'', brushWidth st1)\<rparr>)
         else st1)"

text \<open>\<open>cropManager.isImageObject(obj)\<close>: the object is a Fabric image.\<close>

definition isImageObject :: "fobj \<Rightarrow> bool" where
  "isImageObject obj = (o_type obj = ''image'')"

text \<open>
  \<open>cropManager.enableCropMode()\<close>, on the path \<open>setTool\<close> takes (the active object is an
  image): the image is the crop target and stops being interactive. The overlay and the
  crop rectangle it then builds are outside this model.
\<close>

definition enableCropMode :: "nat \<Rightarrow> ToolsManager \<Rightarrow> ToolsManager" where
  "enableCropMode target st =
     st\<lparr>isCropping := True,
        heap := (heap st)(target := (heap st target)\<lparr>o_selectable := False, o_evented := False\<rparr>)\<rparr>"

text \<open>
  \<open>setTool(toolName)\<close>. The name is stored and the canvas reset before the \<open>switch\<close>; a name
  that matches no \<open>case\<close> falls through to the final \<open>discardActiveObject\<close>. The \<open>image\<close> and
  \<open>crop\<close> cases call \<open>setTool('select')\<close>; \<open>crop\<close> returns before the final block.
\<close>

function setTool :: "string \<Rightarrow> ToolsManager \<Rightarrow> ToolsManager" where
  "setTool toolName st =
     (let st1 = st\<lparr>currentTool := toolName\<rparr>;
          st2 = st1\<lparr>toolbarActive := toolName\<rparr>;
          st3 = st2\<lparr>cv_isDrawingMode := False, cv_selection := True,
                    cv_defaultCursor := ''default'', cv_hoverCursor := ''move''\<rparr>;
          st4 = hideAllPanels st3
      in
        if toolName = ''crop'' then
          (case cv_activeObject st4 of
             Some a \<Rightarrow>
               if isImageObject (heap st4 a)
               then enableCropMode a (showPanel ''crop-panel'' st4)
               else setTool ''select'' (showToast msg_select_image_first ''error'' st4)
           | None \<Rightarrow> setTool ''select'' (showToast msg_select_image_first ''error'' st4))
        else
          let st5 =
            (if toolName = ''select'' then
               forEachObject (\<lambda>obj. obj\<lparr>o_selectable := True, o_evented := True\<rparr>) st4
             else if toolName = ''hand'' then
               forEachObject (\<lambda>obj. obj\<lparr>o_selectable := False, o_evented := False\<rparr>)
                 (st4\<lparr>cv_selection := False, cv_defaultCursor := ''grab''\<rparr>)
             else if toolName = ''pencil'' then
               showPanel ''brush-settings'' (enableDrawingMode ''pencil'' st4)
             else if toolName = ''eraser'' then
               showPanel ''brush-settings'' (enableDrawingMode ''eraser'' st4)
             else if toolName \<in> set [''rect'', ''circle'', ''triangle'', ''line'', ''arrow''] then
               st4\<lparr>cv_selection := False, cv_defaultCursor := ''crosshair''\<rparr>
             else if toolName \<in> set [''text'', ''bubble''] then
               st4\<lparr>cv_selection := False, cv_defaultCursor := ''crosshair''\<rparr>
             else if toolName = ''image'' then
               setTool ''select'' (st4\<lparr>imageInputClicks := imageInputClicks st4 + 1\<rparr>)
             else st4)
          in if toolName \<noteq> ''select'' then discardActiveObject st5 else st5)"
  by pat_completeness auto
termination
  by (relation "measure (\<lambda>(toolName, st). if toolName = ''select'' then 0 else 1)") auto

declare setTool.simps [simp del]

text \<open>The names \<open>setTool\<close> has a \<open>case\<close> for.\<close>

definition toolNames :: "string list" where
  "toolNames = [''select'', ''hand'', ''pencil'', ''eraser'', ''rect'', ''circle'', ''triangle'',
                ''line'', ''arrow'', ''text'', ''bubble'', ''image'', ''crop'']"

subsection \<open>Drawing shapes with the pointer\<close>

text \<open>
  \<open>createBoundTextForShape(shape)\<close>: an empty, centred text box (not a placeholder), placed
  by \<open>updateTextPositionForShape\<close>, added to the canvas, linked both ways and given its
  listeners; the shape ends up active.
\<close>

definition createBoundTextForShape :: "nat \<Rightarrow> ToolsManager \<Rightarrow> ToolsManager" where
  "createBoundTextForShape shape st =
     (let width = getBoundingWidth st (heap st shape)
                    / or_default (Some (o_scaleX (heap st shape))) 1;
          textbox = nextId st;
          st1 = new_object
                  (fabric_default\<lparr>o_type := ''textbox'', o_originCenter := True,
                     o_width := max (width * 0.8) 50, o_fill := textColor st,
                     o_stroke := None, o_strokeWidth := 0, o_text := [],
                     o_isPlaceholder := False, o_shapeType := Some ''shapeText'',
                     o_handlesOff := True, o_selectable := True, o_evented := True\<rparr>) st;
          st2 = updateTextPositionForShape shape textbox st1;
          st3 = canvas_add textbox st2;
          st4 = obj_set shape (\<lambda>s. s\<lparr>o_boundText := Some textbox\<rparr>) st3;
          st5 = obj_set textbox (\<lambda>t. t\<lparr>o_boundShape := Some shape\<rparr>) st4;
          st6 = bindShapeTextEvents shape textbox st5;
          st7 = setupShapeTextEvents textbox st6
      in setActiveObject shape st7)"

text \<open>
  \<open>createBoundTextForBubble(bubble)\<close>: a centred placeholder text box; after 100 ms it
  becomes active and enters edit mode.
\<close>

definition createBoundTextForBubble :: "nat \<Rightarrow> ToolsManager \<Rightarrow> ToolsManager" where
  "createBoundTextForBubble bubble st =
     (let width = or_default (o_bubbleWidth (heap st bubble)) 150;
          textbox = nextId st;
          st1 = new_object
                  (fabric_default\<lparr>o_type := ''textbox'', o_originCenter := True,
                     o_width := width - 30, o_fill := ''#999999'', o_fontStyle := ''italic'',
                     o_stroke := None, o_strokeWidth := 0, o_text := placeholderText,
                     o_isPlaceholder := True, o_shapeType := Some ''bubbleText'',
                     o_handlesOff := True, o_selectable := True, o_evented := True\<rparr>) st;
          st2 = updateTextPositionForBubble bubble textbox st1;
          st3 = canvas_add textbox st2;
          st4 = obj_set bubble (\<lambda>b. b\<lparr>o_boundText := Some textbox\<rparr>) st3;
          st5 = obj_set textbox (\<lambda>t. t\<lparr>o_boundBubble := Some bubble\<rparr>) st4;
          st6 = bindBubbleTextEvents bubble textbox st5;
          st7 = setupBubbleTextEvents textbox st6;
          st8 = setActiveObject bubble st7
      in st8\<lparr>timers := timers st8 @ [Timer_selectAndEdit textbox]\<rparr>)"

text \<open>
  \<open>createShape(pointer)\<close>, \<open>createTextBox(pointer)\<close>, \<open>createBubble(pointer)\<close>. A line keeps
  only its box in this model and an arrow (a group of a line and a head) only its name.
  The outline path of a bubble is not modelled: its size lives in \<open>_bubbleWidth\<close> and
  \<open>_bubbleHeight\<close> as in the code, and \<open>o_width\<close>, \<open>o_height\<close> hold the box of the first
  outline (150 wide, 80 and the tail of 15 high).
\<close>

definition commonProps :: "real \<times> real \<Rightarrow> ToolsManager \<Rightarrow> fobj" where
  "commonProps pointer st =
     fabric_default\<lparr>o_left := fst pointer, o_top := snd pointer, o_fill := fillColor st,
                    o_stroke := Some (borderColor st), o_strokeWidth := borderWidth st,
                    o_originCenter := False\<rparr>"

definition createArrow :: fobj where
  "createArrow = fabric_default\<lparr>o_type := ''group'', o_selectable := True,
                                o_name := Some ''arrow''\<rparr>"

definition createShape :: "real \<times> real \<Rightarrow> ToolsManager \<Rightarrow> ToolsManager" where
  "createShape pointer st =
     (let shape =
        (if currentTool st = ''rect'' then
           Some ((commonProps pointer st)\<lparr>o_type := ''rect'', o_width := 0, o_height := 0,
                                          o_shapeType := Some ''rect''\<rparr>)
         else if currentTool st = ''circle'' then
           Some ((commonProps pointer st)\<lparr>o_type := ''ellipse'', o_rx := 0, o_ry := 0,
                                          o_shapeType := Some ''circle''\<rparr>)
         else if currentTool st = ''triangle'' then
           Some ((commonProps pointer st)\<lparr>o_type := ''triangle'', o_width := 0, o_height := 0,
                                          o_shapeType := Some ''triangle''\<rparr>)
         else if currentTool st = ''line'' then
           Some (fabric_default\<lparr>o_type := ''line'', o_left := fst pointer, o_top := snd pointer,
                                o_stroke := Some ''#000000'', o_strokeWidth := 2,
                                o_selectable := True\<rparr>)
         else if currentTool st = ''arrow'' then Some createArrow
         else None)
      in case shape of
           Some obj \<Rightarrow> (canvas_add (nextId st) (new_object obj st))\<lparr>currentShape := Some (nextId st)\<rparr>
         | None \<Rightarrow> st)"

definition createTextBox :: "real \<times> real \<Rightarrow> ToolsManager \<Rightarrow> ToolsManager" where
  "createTextBox pointer st =
     (canvas_add (nextId st)
        (new_object
           (fabric_default\<lparr>o_type := ''textbox'', o_text := [], o_left := fst pointer,
              o_top := snd pointer, o_width := 150, o_fill := textColor st,
              o_stroke := Some (borderColor st), o_strokeWidth := borderWidth st,
              o_isPlaceholder := True, o_shapeType := Some ''textbox''\<rparr>) st))
       \<lparr>currentShape := Some (nextId st)\<rparr>"

definition createBubble :: "real \<times> real \<Rightarrow> ToolsManager \<Rightarrow> ToolsManager" where
  "createBubble pointer st =
     (canvas_add (nextId st)
        (new_object
           (fabric_default\<lparr>o_type := ''path'', o_left := fst pointer, o_top := snd pointer,
              o_fill := fillColor st, o_stroke := Some (borderColor st),
              o_strokeWidth := borderWidth st, o_originCenter := False,
              o_width := 150, o_height := 95,
              o_shapeType := Some ''bubble'', o_bubbleWidth := Some 150,
              o_bubbleHeight := Some 80, o_tailSize := Some 15\<rparr>) st))
       \<lparr>currentShape := Some (nextId st)\<rparr>"

text \<open>\<open>updateBubbleSize(pointer)\<close>, with the drag origin \<open>(startX, startY)\<close>.\<close>

definition updateBubbleSize ::
  "real \<times> real \<Rightarrow> real \<times> real \<Rightarrow> nat \<Rightarrow> ToolsManager \<Rightarrow> ToolsManager" where
  "updateBubbleSize pointer start shape st =
     (let width = max \<bar>fst pointer - fst start\<bar> 80;
          height = max \<bar>snd pointer - snd start\<bar> 50;
          left = min (fst start) (fst pointer);
          top = min (snd start) (snd pointer)
      in obj_set shape
           (\<lambda>b. b\<lparr>o_left := left, o_top := top, o_bubbleWidth := Some width,
                  o_bubbleHeight := Some height\<rparr>) st)"

text \<open>
  \<open>updateShape(pointer)\<close>, called by \<open>onMouseMove\<close> while a shape is being drawn (so the drag
  origin and the shape are set; with either missing nothing is done here).
\<close>

definition updateShape :: "real \<times> real \<Rightarrow> ToolsManager \<Rightarrow> ToolsManager" where
  "updateShape pointer st =
     (case (startPoint st, currentShape st) of
        (Some (startX, startY), Some shape) \<Rightarrow>
          (let width = fst pointer - startX;
               height = snd pointer - startY
           in if currentTool st = ''rect'' \<or> currentTool st = ''triangle'' then
                (let st1 = (if width < 0
                            then obj_set shape
                                   (\<lambda>s. s\<lparr>o_left := fst pointer, o_width := \<bar>width\<bar>\<rparr>) st
                            else obj_set shape (\<lambda>s. s\<lparr>o_width := width\<rparr>) st)
                 in if height < 0
                    then obj_set shape
                           (\<lambda>s. s\<lparr>o_top := snd pointer, o_height := \<bar>height\<bar>\<rparr>) st1
                    else obj_set shape (\<lambda>s. s\<lparr>o_height := height\<rparr>) st1)
              else if currentTool st = ''circle'' then
                obj_set shape
                  (\<lambda>s. s\<lparr>o_left := min startX (fst pointer), o_top := min startY (snd pointer),
                         o_rx := \<bar>width\<bar> / 2, o_ry := \<bar>height\<bar> / 2\<rparr>) st
              else if currentTool st = ''line'' then
                obj_set shape
                  (\<lambda>s. s\<lparr>o_left := min startX (fst pointer), o_top := min startY (snd pointer),
                         o_width := \<bar>width\<bar>, o_height := \<bar>height\<bar>\<rparr>) st
              else if currentTool st = ''arrow'' then
                (let st1 = canvas_remove shape st;
                     st2 = new_object createArrow st1
                 in (canvas_add (nextId st1) st2)\<lparr>currentShape := Some (nextId st1)\<rparr>)
              else if currentTool st = ''text'' then
                obj_set shape
                  (\<lambda>s. s\<lparr>o_left := min startX (fst pointer), o_top := min startY (snd pointer),
                         o_width := max \<bar>width\<bar> 50\<rparr>) st
              else if currentTool st = ''bubble'' then
                updateBubbleSize pointer (startX, startY) shape st
              else st)
      | _ \<Rightarrow> st)"

text \<open>\<open>finalizeTextBox()\<close>: a width under 80 becomes 150; the box shows the placeholder.\<close>

definition finalizeTextBox :: "ToolsManager \<Rightarrow> ToolsManager" where
  "finalizeTextBox st =
     (case currentShape st of
        None \<Rightarrow> st
      | Some textbox \<Rightarrow>
          if o_type (heap st textbox) = ''textbox'' then
            (let st1 = (if o_width (heap st textbox) < 80
                        then obj_set textbox (\<lambda>t. t\<lparr>o_width := 150\<rparr>) st else st);
                 st2 = obj_set textbox set_placeholder st1;
                 st3 = setActiveObject textbox st2;
                 st4 = setupTextBoxEvents textbox st3
             in st4\<lparr>timers := timers st4 @ [Timer_enterEditing textbox]\<rparr>)
          else st)"

text \<open>
  \<open>finalizeBubble()\<close>: a width under 100 becomes 150 and a height under 60 becomes 80, each
  on its own.
\<close>

definition finalizeBubble :: "ToolsManager \<Rightarrow> ToolsManager" where
  "finalizeBubble st =
     (case currentShape st of
        None \<Rightarrow> st
      | Some bubble \<Rightarrow>
          if o_shapeType (heap st bubble) = Some ''bubble'' then
            (let width0 = or_default (o_bubbleWidth (heap st bubble)) 150;
                 height0 = or_default (o_bubbleHeight (heap st bubble)) 80;
                 width = (if width0 < 100 then 150 else width0);
                 height = (if height0 < 60 then 80 else height0);
                 st1 = obj_set bubble
                         (\<lambda>b. b\<lparr>o_bubbleWidth := Some width, o_bubbleHeight := Some height\<rparr>) st
             in createBoundTextForBubble bubble st1)
          else st)"

text \<open>
  \<open>finalizeShapeWithText()\<close>: for an ellipse a diameter under 60 (across) gives \<open>rx = 50\<close> and
  one under 40 (down) gives \<open>ry = 40\<close>; for a rectangle or triangle a width under 60 becomes
  100 and a height under 40 becomes 80; each test stands on its own.
\<close>

definition finalizeShapeWithText :: "ToolsManager \<Rightarrow> ToolsManager" where
  "finalizeShapeWithText st =
     (case currentShape st of
        None \<Rightarrow> st
      | Some shape \<Rightarrow>
          (let st2 =
             (if o_type (heap st shape) = ''ellipse'' then
                (let width = o_rx (heap st shape) * 2;
                     height = o_ry (heap st shape) * 2;
                     st1 = (if width < 60 then obj_set shape (\<lambda>s. s\<lparr>o_rx := 50\<rparr>) st else st)
                 in if height < 40 then obj_set shape (\<lambda>s. s\<lparr>o_ry := 40\<rparr>) st1 else st1)
              else
                (let width = o_width (heap st shape);
                     height = o_height (heap st shape);
                     st1 = (if width < 60 then obj_set shape (\<lambda>s. s\<lparr>o_width := 100\<rparr>) st
                            else st)
                 in if height < 40 then obj_set shape (\<lambda>s. s\<lparr>o_height := 80\<rparr>) st1 else st1))
           in createBoundTextForShape shape st2))"

text \<open>
  \<open>onMouseDown(opt)\<close>, \<open>onMouseMove(opt)\<close>, \<open>onMouseUp(opt)\<close>; \<open>target\<close> is \<open>opt.target\<close>, the
  object Fabric found under the pointer, and \<open>pointer\<close> is \<open>canvas.getPointer(opt.e)\<close>.
\<close>

definition beginDrawing :: "real \<times> real \<Rightarrow> ToolsManager \<Rightarrow> ToolsManager" where
  "beginDrawing pointer st =
     (if currentTool st \<in> set [''rect'', ''circle'', ''triangle'', ''line'', ''arrow''] then
        createShape pointer (st\<lparr>isDrawingShape := True, startPoint := Some pointer\<rparr>)
      else if currentTool st = ''text'' then
        createTextBox pointer (st\<lparr>isDrawingShape := True, startPoint := Some pointer\<rparr>)
      else if currentTool st = ''bubble'' then
        createBubble pointer (st\<lparr>isDrawingShape := True, startPoint := Some pointer\<rparr>)
      else if currentTool st = ''hand'' then
        st\<lparr>isPanning := True, cv_defaultCursor := ''grabbing''\<rparr>
      else st)"

definition onMouseDown :: "nat option \<Rightarrow> real \<times> real \<Rightarrow> ToolsManager \<Rightarrow> ToolsManager" where
  "onMouseDown target pointer st =
     (case target of
        Some obj \<Rightarrow>
          if currentTool st \<in> set [''rect'', ''circle'', ''triangle'', ''line'', ''arrow'',
                                   ''text'', ''bubble'']
          then setActiveObject obj st
          else beginDrawing pointer st
      | None \<Rightarrow> beginDrawing pointer st)"

definition onMouseMove :: "real \<times> real \<Rightarrow> ToolsManager \<Rightarrow> ToolsManager" where
  "onMouseMove pointer st =
     (if \<not> isDrawingShape st \<or> currentShape st = None then st else updateShape pointer st)"

definition onMouseUp :: "ToolsManager \<Rightarrow> ToolsManager" where
  "onMouseUp st =
     (let st3 =
        (if isDrawingShape st \<and> currentShape st \<noteq> None then
           (let st1 = st\<lparr>isDrawingShape := False\<rparr>;
                st2 = (if currentTool st1 = ''text'' then finalizeTextBox st1
                       else if currentTool st1 = ''bubble'' then finalizeBubble st1
                       else if currentTool st1 \<in> set [''rect'', ''circle'', ''triangle'']
                       then finalizeShapeWithText st1
                       else st1)
            in st2\<lparr>saveStateCalls := saveStateCalls st2 + 1, currentShape := None,
                   startPoint := None\<rparr>)
         else st)
      in if currentTool st3 = ''hand''
         then st3\<lparr>isPanning := False, cv_defaultCursor := ''grab''\<rparr>
         else st3)"

subsection \<open>Rebuilding the bindings after a restore\<close>

text \<open>
  The two tests of \<open>restoreBubbleTextBindings\<close> on \<open>obj._shapeType\<close>; the second is the
  \<open>else if\<close> branch.
\<close>

definition is_bindableShape :: "fobj \<Rightarrow> bool" where
  "is_bindableShape obj =
     (case o_shapeType obj of
        Some s \<Rightarrow> s \<in> set [''bubble'', ''rect'', ''circle'', ''triangle'']
      | None \<Rightarrow> False)"

definition is_shapeText :: "fobj \<Rightarrow> bool" where
  "is_shapeText obj =
     (\<not> is_bindableShape obj \<and>
      (case o_shapeType obj of
         Some s \<Rightarrow> s \<in> set [''bubbleText'', ''shapeText'']
       | None \<Rightarrow> False))"

text \<open>
  \<open>Math.sqrt(Math.pow(a.x - b.x, 2) + Math.pow(a.y - b.y, 2))\<close>, over the reals (the
  rounding of floating point is not part of the model).
\<close>

definition distance :: "real \<times> real \<Rightarrow> real \<times> real \<Rightarrow> real" where
  "distance a b = sqrt ((fst a - fst b)\<^sup>2 + (snd a - snd b)\<^sup>2)"

text \<open>
  The inner \<open>shapeTexts.forEach\<close>: the pair is \<open>(closestText, minDistance)\<close>, with \<open>None\<close> for
  \<open>null\<close> and for \<open>Infinity\<close>. A text that already has \<open>_boundBubble\<close> or \<open>_boundShape\<close> is
  skipped.
\<close>

fun find_closest ::
  "ToolsManager \<Rightarrow> real \<times> real \<Rightarrow> nat list \<Rightarrow> nat option \<times> real option
     \<Rightarrow> nat option \<times> real option" where
  "find_closest st shapeCenter [] acc = acc"
| "find_closest st shapeCenter (text # texts) (closestText, minDistance) =
     (if o_boundBubble (heap st text) \<noteq> None \<or> o_boundShape (heap st text) \<noteq> None
      then find_closest st shapeCenter texts (closestText, minDistance)
      else
        let textCenter = getCenterPoint st (heap st text);
            d = distance shapeCenter textCenter
        in if (case minDistance of None \<Rightarrow> True | Some m \<Rightarrow> d < m)
           then find_closest st shapeCenter texts (Some text, Some d)
           else find_closest st shapeCenter texts (closestText, minDistance))"

text \<open>The body of \<open>bindableShapes.forEach\<close> for one shape.\<close>

definition bind_closest :: "nat list \<Rightarrow> nat \<Rightarrow> ToolsManager \<Rightarrow> ToolsManager" where
  "bind_closest shapeTexts shape st =
     (let shapeCenter = getCenterPoint st (heap st shape);
          closestText = fst (find_closest st shapeCenter shapeTexts (None, None))
      in case closestText of
           None \<Rightarrow> st
         | Some text \<Rightarrow>
             (let st1 = obj_set text (\<lambda>t. t\<lparr>o_handlesOff := True\<rparr>) st
              in if o_shapeType (heap st1 shape) = Some ''bubble'' then
                   (let st2 = obj_set shape (\<lambda>s. s\<lparr>o_boundText := Some text\<rparr>) st1;
                        st3 = obj_set text (\<lambda>t. t\<lparr>o_boundBubble := Some shape\<rparr>) st2;
                        st4 = bindBubbleTextEvents shape text st3
                    in setupBubbleTextEvents text st4)
                 else
                   (let st2 = obj_set shape (\<lambda>s. s\<lparr>o_boundText := Some text\<rparr>) st1;
                        st3 = obj_set text (\<lambda>t. t\<lparr>o_boundShape := Some shape\<rparr>) st2;
                        st4 = bindShapeTextEvents shape text st3
                    in setupShapeTextEvents text st4)))"

definition bindableShapes :: "ToolsManager \<Rightarrow> nat list" where
  "bindableShapes st = filter (\<lambda>i. is_bindableShape (heap st i)) (cv_objects st)"

definition shapeTexts :: "ToolsManager \<Rightarrow> nat list" where
  "shapeTexts st = filter (\<lambda>i. is_shapeText (heap st i)) (cv_objects st)"

definition restoreBubbleTextBindings :: "ToolsManager \<Rightarrow> ToolsManager" where
  "restoreBubbleTextBindings st =
     fold (bind_closest (shapeTexts st)) (bindableShapes st) st"

text \<open>
  The \<open>.then\<close> callback of \<open>restoreState\<close>, on the canvas that \<open>loadFromJSON\<close> has filled with
  new objects: every object but the crop rectangle becomes selectable, every text box
  whose \<open>_shapeType\<close> is not \<open>bubbleText\<close> gets the listeners of \<open>setupRestoredTextBox\<close>, then
  the bindings are rebuilt.
\<close>

definition restore_object :: "nat \<Rightarrow> ToolsManager \<Rightarrow> ToolsManager" where
  "restore_object i st =
     (let st1 = (if o_name (heap st i) \<noteq> Some ''cropRect''
                 then obj_set i (\<lambda>obj. obj\<lparr>o_selectable := True, o_evented := True\<rparr>) st
                 else st)
      in if o_type (heap st1 i) = ''textbox'' \<and> o_shapeType (heap st1 i) \<noteq> Some ''bubbleText''
         then setupRestoredTextBox i st1
         else st1)"

definition restoreState_then :: "ToolsManager \<Rightarrow> ToolsManager" where
  "restoreState_then st = restoreBubbleTextBindings (fold restore_object (cv_objects st) st)"

subsection \<open>Bound pairs\<close>

text \<open>
  What \<open>createBoundTextForShape\<close> and the shape branch of \<open>restoreBubbleTextBindings\<close> leave
  behind for a shape and its text: the two references and, as the only \<open>removed\<close> handlers
  of the two objects, the ones registered by \<open>bindShapeTextEvents\<close> and
  \<open>setupShapeTextEvents\<close>. Likewise for a bubble and its text.
\<close>

definition shape_pair :: "ToolsManager \<Rightarrow> nat \<Rightarrow> nat \<Rightarrow> bool" where
  "shape_pair st shape textbox =
     (shape \<noteq> textbox
      \<and> o_boundText (heap st shape) = Some textbox
      \<and> o_boundShape (heap st textbox) = Some shape
      \<and> listeners_for ''removed'' (heap st shape) = [Shape_removed textbox]
      \<and> listeners_for ''removed'' (heap st textbox) = [ShapeText_removed])"

definition bubble_pair :: "ToolsManager \<Rightarrow> nat \<Rightarrow> nat \<Rightarrow> bool" where
  "bubble_pair st bubble textbox =
     (bubble \<noteq> textbox
      \<and> o_boundText (heap st bubble) = Some textbox
      \<and> o_boundBubble (heap st textbox) = Some bubble
      \<and> listeners_for ''removed'' (heap st bubble) = [Bubble_removed textbox]
      \<and> listeners_for ''removed'' (heap st textbox) = [BubbleText_removed])"

definition bound_pair :: "ToolsManager \<Rightarrow> nat \<Rightarrow> nat \<Rightarrow> bool" where
  "bound_pair st container textbox =
     (shape_pair st container textbox \<or> bubble_pair st container textbox)"

text \<open>
  A state built by the tools: the collection holds each object once and only objects
  that exist, and an object with a \<open>removed\<close> handler is a member of a bound pair.
  \<open>no_half_pair\<close>: no bound pair has exactly one member in the collection.
\<close>

definition pairs_consistent :: "ToolsManager \<Rightarrow> bool" where
  "pairs_consistent st =
     (distinct (cv_objects st)
      \<and> (\<forall>x \<in> set (cv_objects st). x < nextId st)
      \<and> (\<forall>x \<in> set [0..<nextId st].
            listeners_for ''removed'' (heap st x) = []
            \<or> (\<exists>y \<in> set [0..<nextId st]. bound_pair st x y \<or> bound_pair st y x)))"

definition no_half_pair :: "ToolsManager \<Rightarrow> bool" where
  "no_half_pair st =
     (\<forall>c \<in> set [0..<nextId st]. \<forall>t \<in> set [0..<nextId st].
        bound_pair st c t \<longrightarrow> (c \<in> set (cv_objects st) \<longleftrightarrow> t \<in> set (cv_objects st)))"

subsection \<open>The relink rule in the words of the specification\<close>

text \<open>
  The specification's \<open>relink\<close>: "for each container, select the unclaimed text with
  minimum Euclidean distance between centers; if found, bind them; unmatched containers
  or texts remain unbound", ties going to the text met first. \<open>nearest d ts\<close> is the first
  text of \<open>ts\<close> whose distance \<open>d\<close> is least; \<open>relink_spec d cs ts\<close> lists the pairs made for
  the containers \<open>cs\<close>, in order, from the unclaimed texts \<open>ts\<close>.
\<close>

fun nearest :: "(nat \<Rightarrow> real) \<Rightarrow> nat list \<Rightarrow> nat option" where
  "nearest d [] = None"
| "nearest d (t # ts) =
     (case nearest d ts of
        None \<Rightarrow> Some t
      | Some m \<Rightarrow> if d t \<le> d m then Some t else Some m)"

fun relink_spec :: "(nat \<Rightarrow> nat \<Rightarrow> real) \<Rightarrow> nat list \<Rightarrow> nat list \<Rightarrow> (nat \<times> nat) list" where
  "relink_spec d [] ts = []"
| "relink_spec d (c # cs) ts =
     (case nearest (d c) ts of
        None \<Rightarrow> relink_spec d cs ts
      | Some t \<Rightarrow> (c, t) # relink_spec d cs (remove1 t ts))"

text \<open>
  The distance between the centre points of two objects of a state, and the container
  a text refers to (\<open>_boundBubble\<close>, else \<open>_boundShape\<close>).
\<close>

definition center_distance :: "ToolsManager \<Rightarrow> nat \<Rightarrow> nat \<Rightarrow> real" where
  "center_distance st c t =
     distance (getCenterPoint st (heap st c)) (getCenterPoint st (heap st t))"

definition bound_container :: "fobj \<Rightarrow> nat option" where
  "bound_container obj =
     (case o_boundBubble obj of Some b \<Rightarrow> Some b | None \<Rightarrow> o_boundShape obj)"

text \<open>
  The collection right after \<open>loadFromJSON\<close>: the objects are new, so none carries a
  reference to a partner (the serialisation has none) and none has a \<open>removed\<close> handler.
\<close>

definition freshly_loaded :: "ToolsManager \<Rightarrow> bool" where
  "freshly_loaded st =
     (distinct (cv_objects st)
      \<and> (\<forall>x \<in> set (cv_objects st).
            o_boundText (heap st x) = None \<and> o_boundShape (heap st x) = None
            \<and> o_boundBubble (heap st x) = None
            \<and> listeners_for ''removed'' (heap st x) = []))"

text \<open>
  How \<open>restoreBubbleTextBindings\<close> binds container \<open>c\<close> and text \<open>t\<close>: as a bubble pair when
  \<open>c\<close> is a bubble (by its \<open>_shapeType\<close> in the loaded state \<open>st0\<close>), as a shape pair otherwise.
\<close>

definition relinked :: "ToolsManager \<Rightarrow> ToolsManager \<Rightarrow> nat \<Rightarrow> nat \<Rightarrow> bool" where
  "relinked st0 st c t =
     (if o_shapeType (heap st0 c) = Some ''bubble'' then bubble_pair st c t
      else shape_pair st c t)"

text \<open>The texts of a list that the inner loop does not skip in a state.\<close>

definition unclaimed :: "ToolsManager \<Rightarrow> nat list \<Rightarrow> nat list" where
  "unclaimed st ts =
     filter (\<lambda>t. o_boundBubble (heap st t) = None \<and> o_boundShape (heap st t) = None) ts"

subsection \<open>A geometry to evaluate with\<close>

text \<open>
  One instance of the geometry parameter, used where a state has to be evaluated:
  objects that are not rotated, with no stroke, whose centre is \<open>(left, top)\<close> when the
  origin is the centre and the middle of the box hanging from \<open>(left, top)\<close> otherwise.
\<close>

definition box_width :: "fobj \<Rightarrow> real" where
  "box_width obj =
     (if o_type obj = ''ellipse'' then 2 * o_rx obj else o_width obj) * o_scaleX obj"

definition box_height :: "fobj \<Rightarrow> real" where
  "box_height obj =
     (if o_type obj = ''ellipse'' then 2 * o_ry obj else o_height obj) * o_scaleY obj"

definition box_center :: "fobj \<Rightarrow> real \<times> real" where
  "box_center obj =
     (if o_originCenter obj then (o_left obj, o_top obj)
      else (o_left obj + box_width obj / 2, o_top obj + box_height obj / 2))"

definition editor0 :: ToolsManager where
  "editor0 = ToolsManager_new box_center box_width True"

text \<open>
  A drag on the empty canvas with a tool: the tool is chosen, the pointer goes down at \<open>p\<close>,
  moves to \<open>q\<close> (\<open>dragging\<close>) and is released (\<open>drag\<close>).
\<close>

definition dragging ::
  "string \<Rightarrow> real \<times> real \<Rightarrow> real \<times> real \<Rightarrow> ToolsManager \<Rightarrow> ToolsManager" where
  "dragging tool p q st = onMouseMove q (onMouseDown None p (setTool tool st))"

definition drag ::
  "string \<Rightarrow> real \<times> real \<Rightarrow> real \<times> real \<Rightarrow> ToolsManager \<Rightarrow> ToolsManager" where
  "drag tool p q st = onMouseUp (dragging tool p q st)"

text \<open>
  \<open>canvas.loadFromJSON(state)\<close>, as far as the history manager relies on it: Fabric clears
  the collection (removing every object) and fills it with new objects built from the
  records of the snapshot, in their order. The records are given as objects.
\<close>

definition loadFromJSON :: "fobj list \<Rightarrow> ToolsManager \<Rightarrow> ToolsManager" where
  "loadFromJSON records st =
     fold (\<lambda>obj s. canvas_add (nextId s) (new_object obj s)) records
       (fold canvas_remove (cv_objects st) st)"

text \<open>
  What \<open>HistoryManager.restoreState\<close> does on the canvas when the load succeeds: the
  selection is dropped, the collection is rebuilt from the records of the snapshot, and
  the \<open>.then\<close> callback runs. Nothing here touches the fields of the tools manager: a shape
  that was being drawn stays \<open>currentShape\<close>, with \<open>isDrawingShape\<close> set.
\<close>

definition restoreState_canvas :: "fobj list \<Rightarrow> ToolsManager \<Rightarrow> ToolsManager" where
  "restoreState_canvas records st =
     restoreState_then (loadFromJSON records (discardActiveObject st))"

text \<open>
  A snapshot to evaluate on, as four records: a rectangle at (0, 0), 100 by 80; a text
  centred at (275, 40) tagged \<open>bubbleText\<close>; a text centred at (50, 40) tagged \<open>shapeText\<close>;
  a bubble at (200, 0) whose box is 150 by 95. \<open>loaded_scene\<close> is the editor after loading
  it: ids 0 to 3 in that order.
\<close>

definition snapshot_records :: "fobj list" where
  "snapshot_records =
     [fabric_default\<lparr>o_type := ''rect'', o_shapeType := Some ''rect'', o_width := 100,
                     o_height := 80\<rparr>,
      fabric_default\<lparr>o_type := ''textbox'', o_shapeType := Some ''bubbleText'',
                     o_originCenter := True, o_left := 275, o_top := 40\<rparr>,
      fabric_default\<lparr>o_type := ''textbox'', o_shapeType := Some ''shapeText'',
                     o_originCenter := True, o_left := 50, o_top := 40\<rparr>,
      fabric_default\<lparr>o_type := ''path'', o_shapeType := Some ''bubble'', o_left := 200,
                     o_width := 150, o_height := 95, o_bubbleWidth := Some 150,
                     o_bubbleHeight := Some 80, o_tailSize := Some 15\<rparr>]"

definition loaded_scene :: ToolsManager where
  "loaded_scene = loadFromJSON snapshot_records editor0"

text \<open>
  Two scenes to evaluate on: a rectangle drawn from (10, 10) to (110, 90), which gets the
  ids 0 (shape) and 1 (text); and that scene with a bubble drawn from (200, 10) to
  (400, 150) added, ids 2 (bubble) and 3 (text).
\<close>

definition scene_rect :: ToolsManager where
  "scene_rect = drag ''rect'' (10, 10) (110, 90) editor0"

definition scene_rect_bubble :: ToolsManager where
  "scene_rect_bubble = drag ''bubble'' (200, 10) (400, 150) scene_rect"

text \<open>
  An undo during a drag. The rectangle of \<open>scene_rect\<close> is on the canvas (the history holds
  the empty initial document and this one). A second rectangle is being drawn from
  (200, 10), id 2, when Ctrl+Z restores the empty initial snapshot; then the pointer is
  released at (300, 90).
\<close>

definition scene_undo_during_drag :: ToolsManager where
  "scene_undo_during_drag =
     onMouseUp (restoreState_canvas [] (dragging ''rect'' (200, 10) (300, 90) scene_rect))"

section \<open>Properties of the history manager\<close>

lemma commit_flags:
  "isRestoring (commit s h) = isRestoring h \<and> isSaving (commit s h) = isSaving h
   \<and> maxStates (commit s h) = maxStates h"
  by (simp add: commit_def doSaveState_def Let_def)

lemma commit_push:
  assumes "\<not> isRestoring h" "\<not> isSaving h"
    and "undoStack h = [] \<or> last (undoStack h) \<noteq> s"
    and "length (undoStack h) < maxStates h"
  shows "undoStack (commit s h) = undoStack h @ [s]"
  using assms by (auto simp add: commit_def doSaveState_def Let_def)

lemma commit_length_le:
  "length (undoStack h) \<le> maxStates h \<Longrightarrow> length (undoStack (commit s h)) \<le> maxStates h"
  by (auto simp add: commit_def doSaveState_def Let_def)

lemma commits_flags:
  "isRestoring (commits ss h) = isRestoring h \<and> isSaving (commits ss h) = isSaving h
   \<and> maxStates (commits ss h) = maxStates h"
  by (induction ss arbitrary: h) (simp_all add: commit_flags)

lemma commits_length_le:
  "length (undoStack h) \<le> maxStates h \<Longrightarrow> length (undoStack (commits ss h)) \<le> maxStates h"
proof (induction ss arbitrary: h)
  case Nil
  then show ?case by simp
next
  case (Cons s ss)
  have "length (undoStack (commit s h)) \<le> maxStates (commit s h)"
    using Cons.prems by (simp add: commit_length_le commit_flags)
  from Cons.IH [OF this] show ?case by (simp add: commit_flags)
qed

text \<open>
  One commit on a stack within its bound: the snapshot is pushed and, when the stack was
  full, index 0 is dropped.
\<close>

lemma commit_stack:
  assumes "\<not> isRestoring h" "\<not> isSaving h"
    and "undoStack h \<noteq> []" and "last (undoStack h) \<noteq> s"
    and "length (undoStack h) \<le> maxStates h"
  shows "undoStack (commit s h)
         = drop (length (undoStack h) + 1 - maxStates h) (undoStack h @ [s])"
    and "redoStack (commit s h) = []"
proof -
  show "redoStack (commit s h) = []"
    using assms by (simp add: commit_def doSaveState_def Let_def)
  show "undoStack (commit s h)
         = drop (length (undoStack h) + 1 - maxStates h) (undoStack h @ [s])"
  proof (cases "length (undoStack h) < maxStates h")
    case True
    then have "length (undoStack h) + 1 - maxStates h = 0"
      by simp
    then show ?thesis
      using assms True by (simp add: commit_def doSaveState_def Let_def)
  next
    case False
    then have full: "length (undoStack h) = maxStates h"
      using assms(5) by simp
    have k: "length (undoStack h) + 1 - maxStates h = Suc 0"
      using full by simp
    have "undoStack (commit s h) = tl (undoStack h @ [s])"
      using assms full by (simp add: commit_def doSaveState_def Let_def)
    also have "\<dots> = drop (Suc 0) (undoStack h @ [s])"
      by (simp only: drop_Suc drop_0)
    finally show ?thesis
      by (simp only: k)
  qed
qed

text \<open>
  A run of commits on a stack within its bound: the stack is the old one followed by the
  new snapshots, less what overflowed at index 0.
\<close>

lemma commits_stack:
  assumes "\<not> isRestoring h" "\<not> isSaving h"
    and "undoStack h \<noteq> []"
    and "length (undoStack h) \<le> maxStates h"
    and "distinct_adj (last (undoStack h) # ss)"
  shows "undoStack (commits ss h)
         = drop (length (undoStack h) + length ss - maxStates h) (undoStack h @ ss)"
  using assms
proof (induction ss arbitrary: h)
  case Nil
  then show ?case by simp
next
  case (Cons s ss)
  define h' where "h' = commit s h"
  define X where "X = undoStack h @ [s]"
  define k where "k = length (undoStack h) + 1 - maxStates h"
  define m where "m = length (undoStack h') + length ss - maxStates h"
  have ne: "last (undoStack h) \<noteq> s" and adj: "distinct_adj (s # ss)"
    using Cons.prems(5) by simp_all
  have st: "undoStack h' = drop k X"
    unfolding h'_def X_def k_def
    using Cons.prems(1-4) ne by (intro commit_stack(1)) simp_all
  have pos: "0 < length (undoStack h)"
    using Cons.prems(3) by simp
  have lenX: "length X = length (undoStack h) + 1"
    by (simp add: X_def)
  have d: "k < length X"
    unfolding k_def lenX using pos Cons.prems(4) by linarith
  have nonempty: "undoStack h' \<noteq> []"
    using st d by simp
  have "last (drop k X) = last X"
    using d by (rule last_drop)
  then have top: "last (undoStack h') = s"
    by (simp add: st X_def)
  have len: "length (undoStack h') = length X - k"
    by (simp add: st)
  have le: "length (undoStack h') \<le> maxStates h'"
    using Cons.prems(4) by (simp add: h'_def commit_flags commit_length_le)
  have flags: "\<not> isRestoring h'" "\<not> isSaving h'" "maxStates h' = maxStates h"
    using Cons.prems(1,2) by (simp_all add: h'_def commit_flags)
  have adj': "distinct_adj (last (undoStack h') # ss)"
    using adj top by simp
  have IH: "undoStack (commits ss h')
            = drop (length (undoStack h') + length ss - maxStates h') (undoStack h' @ ss)"
    using flags(1,2) nonempty le adj' by (rule Cons.IH)
  have app: "undoStack h' @ ss = drop k (X @ ss)"
    using d by (simp add: st)
  have "undoStack (commits ss h') = drop m (drop k (X @ ss))"
    using IH by (simp only: app flags(3) m_def)
  also have "\<dots> = drop (m + k) (X @ ss)"
    by (simp only: drop_drop)
  finally have res: "undoStack (commits ss h') = drop (m + k) (X @ ss)" .
  have sum: "m + k = length (undoStack h) + length (s # ss) - maxStates h"
    unfolding m_def len lenX k_def using pos Cons.prems(4) by simp
  have "X @ ss = undoStack h @ s # ss"
    by (simp add: X_def)
  then show ?case
    using res by (simp only: sum commits.simps h'_def)
qed

lemma commits_push:
  assumes "\<not> isRestoring h" "\<not> isSaving h"
    and "undoStack h \<noteq> []"
    and "distinct_adj (last (undoStack h) # ss)"
    and "length (undoStack h) + length ss \<le> maxStates h"
  shows "undoStack (commits ss h) = undoStack h @ ss"
  using commits_stack [OF assms(1-3) _ assms(4)] assms(5) by simp

lemma restoreState_fields:
  "undoStack (restoreState r s h) = undoStack h"
  "redoStack (restoreState r s h) = redoStack h"
  "maxStates (restoreState r s h) = maxStates h"
  "isSaving (restoreState r s h) = isSaving h"
  "isRestoring (restoreState r s h) = (r \<noteq> ParseThrows)"
  "pending (restoreState r s h) = (if r = ParseThrows then pending h else Some (s, r))"
  by (cases r; simp add: restoreState_def)+

lemma settle_fields:
  "undoStack (settle h) = undoStack h"
  "redoStack (settle h) = redoStack h"
  "maxStates (settle h) = maxStates h"
  "isSaving (settle h) = isSaving h"
  "isRestoring (settle h) = (isRestoring h \<and> pending h = None)"
  "pending (settle h) = None"
  by (cases "pending h"; simp add: settle_def split: restore_outcome.splits prod.splits)+

lemma settle_canvasSource:
  "pending h = Some (s, Loaded) \<Longrightarrow> canvasSource (settle h) = Some s"
  by (simp add: settle_def)

text \<open>An effective \<open>undo()\<close>, at its return and once the restore has settled.\<close>

lemma undo_call:
  assumes "\<not> isRestoring h" "2 \<le> length (undoStack h)"
  shows "undoStack (undo r h) = butlast (undoStack h)"
    and "redoStack (undo r h) = redoStack h @ [last (undoStack h)]"
    and "isRestoring (undo r h) = (r \<noteq> ParseThrows)"
    and "maxStates (undo r h) = maxStates h"
    and "r \<noteq> ParseThrows \<Longrightarrow> pending (undo r h) = Some (last (butlast (undoStack h)), r)"
  using assms by (simp_all add: undo_def Let_def restoreState_fields)

lemma undo_stack:
  assumes "\<not> isRestoring h" "2 \<le> length (undoStack h)"
  shows "undoStack (settle (undo r h)) = butlast (undoStack h)"
    and "redoStack (settle (undo r h)) = redoStack h @ [last (undoStack h)]"
    and "\<not> isRestoring (settle (undo r h))"
    and "maxStates (settle (undo r h)) = maxStates h"
proof -
  note u = undo_call [OF assms, of r]
  show "undoStack (settle (undo r h)) = butlast (undoStack h)"
    by (simp add: settle_fields u(1))
  show "redoStack (settle (undo r h)) = redoStack h @ [last (undoStack h)]"
    by (simp add: settle_fields u(2))
  show "maxStates (settle (undo r h)) = maxStates h"
    by (simp add: settle_fields u(4))
  show "\<not> isRestoring (settle (undo r h))"
  proof (cases "r = ParseThrows")
    case True
    then have "\<not> isRestoring (undo r h)"
      using u(3) by simp
    then show ?thesis by (simp add: settle_fields)
  next
    case False
    then show ?thesis by (simp add: settle_fields u(5))
  qed
qed

lemma undo_canvasSource:
  assumes "\<not> isRestoring h" "2 \<le> length (undoStack h)"
  shows "canvasSource (settle (undo Loaded h)) = Some (last (butlast (undoStack h)))"
  using undo_call(5) [OF assms, of Loaded] by (simp add: settle_canvasSource)

lemma undo_short:
  assumes "length (undoStack h) \<le> 1"
  shows "undo r h = h"
  using assms by (simp add: undo_def)

lemma undo_while_restoring: "isRestoring h \<Longrightarrow> undo r h = h"
  by (simp add: undo_def)

lemma undos_stack:
  assumes "\<not> isRestoring h" "base \<noteq> []" "undoStack h = base @ ss" "length rs = length ss"
  shows "undoStack (undos rs h) = base \<and> \<not> isRestoring (undos rs h)
         \<and> redoStack (undos rs h) = redoStack h @ rev ss"
  using assms
proof (induction rs arbitrary: h ss)
  case Nil
  then show ?case by simp
next
  case (Cons r rs)
  then obtain ss' x where ss: "ss = ss' @ [x]"
    by (cases ss rule: rev_cases) auto
  have len: "2 \<le> length (undoStack h)"
    using Cons.prems ss by (cases base) auto
  have "undoStack (settle (undo r h)) = base @ ss'"
    using undo_stack(1) [OF Cons.prems(1) len] Cons.prems(3) ss
    by (simp add: butlast_append)
  moreover have "\<not> isRestoring (settle (undo r h))"
    using undo_stack(3) [OF Cons.prems(1) len] .
  moreover have "redoStack (settle (undo r h)) = redoStack h @ [x]"
    using undo_stack(2) [OF Cons.prems(1) len] Cons.prems(3) ss by simp
  ultimately show ?case
    using Cons.IH [of "settle (undo r h)" ss'] Cons.prems ss by simp
qed

lemma undos_snoc: "undos (rs @ [r]) h = settle (undo r (undos rs h))"
  by (induction rs arbitrary: h) simp_all

text \<open>At least as many settled undos as the stack has entries above its first one.\<close>

lemma undos_bottom:
  assumes "\<not> isRestoring h" "undoStack h \<noteq> []" "length (undoStack h) \<le> length rs + 1"
  shows "undoStack (undos rs h) = [hd (undoStack h)]"
  using assms
proof (induction rs arbitrary: h)
  case Nil
  then show ?case by (cases "undoStack h") simp_all
next
  case (Cons r rs)
  show ?case
  proof (cases "2 \<le> length (undoStack h)")
    case True
    have st: "undoStack (settle (undo r h)) = butlast (undoStack h)"
      and nr: "\<not> isRestoring (settle (undo r h))"
      using undo_stack(1,3) [OF Cons.prems(1) True] by simp_all
    have ne: "butlast (undoStack h) \<noteq> []"
      using True by (cases "undoStack h" rule: rev_cases) auto
    have hd: "hd (butlast (undoStack h)) = hd (undoStack h)"
      using ne by (cases "undoStack h") auto
    have "undoStack (undos rs (settle (undo r h))) = [hd (undoStack (settle (undo r h)))]"
      using nr ne Cons.prems(3) by (intro Cons.IH) (simp_all add: st)
    then show ?thesis by (simp add: st hd)
  next
    case False
    then have noop: "undo r h = h"
      by (intro undo_short) simp
    have same: "undoStack (settle (undo r h)) = undoStack h"
      and nr: "\<not> isRestoring (settle (undo r h))"
      using Cons.prems(1) by (simp_all add: noop settle_fields)
    have "undoStack (undos rs (settle (undo r h))) = [hd (undoStack (settle (undo r h)))]"
      using nr Cons.prems(2) False by (intro Cons.IH) (simp_all add: same)
    then show ?thesis by (simp add: same)
  qed
qed

text \<open>
  Claim C2, as amended. Take a manager that is neither restoring nor saving, whose
  \<open>undoStack\<close> is not empty and within \<open>maxStates\<close>, and let N commits each push a snapshot
  (each differs from the one pushed before it, the first from the current top). Then let
  \<open>undo()\<close> be called N times, each call once the restore of the call before it has
  settled, whatever the outcomes of the restores.

  If N is below \<open>maxStates\<close>, the snapshot designated as current is again the one that was
  current before the commits; \<open>undoStack\<close> is the old stack less the entries that overflowed
  at index 0; and when the last restore loaded, the collection was rebuilt from that
  snapshot. If N is \<open>maxStates\<close> or more, the old stack has been shifted out and the undos
  end on the snapshot of commit number N - \<open>maxStates\<close> + 1 (index N - \<open>maxStates\<close> of the
  list). A second \<open>undo()\<close> made before the restore of the first has settled changes
  nothing.
\<close>

theorem C2_round_trip_below_bound:
  assumes "\<not> isRestoring h" and "\<not> isSaving h" and "undoStack h \<noteq> []"
    and "length (undoStack h) \<le> maxStates h"
    and "distinct_adj (last (undoStack h) # ss)"
    and "length rs = length ss"
  shows "(length ss < maxStates h \<longrightarrow>
            currentSnapshot (undos rs (commits ss h)) = currentSnapshot h
          \<and> undoStack (undos rs (commits ss h))
              = drop (length (undoStack h) + length ss - maxStates h) (undoStack h)
          \<and> \<not> isRestoring (undos rs (commits ss h))
          \<and> (rs \<noteq> [] \<and> last rs = Loaded \<longrightarrow>
                canvasSource (undos rs (commits ss h)) = currentSnapshot h))
       \<and> (maxStates h \<le> length ss \<longrightarrow>
            currentSnapshot (undos rs (commits ss h)) = Some (ss ! (length ss - maxStates h))
          \<and> undoStack (undos rs (commits ss h)) = [ss ! (length ss - maxStates h)])
       \<and> (2 \<le> length (undoStack h) \<and> r \<noteq> ParseThrows \<longrightarrow>
            undo r' (undo r h) = undo r h)"
proof -
  let ?h' = "commits ss h"
  let ?L = "length (undoStack h)" and ?N = "length ss" and ?M = "maxStates h"
  define d where "d = ?L + ?N - ?M"
  have pos: "0 < ?L"
    using assms(3) by simp
  have stack: "undoStack ?h' = drop d (undoStack h @ ss)"
    unfolding d_def using assms(1-5) by (rule commits_stack)
  have nr: "\<not> isRestoring ?h'"
    using assms(1) by (simp add: commits_flags)
  have part1: "currentSnapshot (undos rs ?h') = currentSnapshot h
          \<and> undoStack (undos rs ?h') = drop d (undoStack h)
          \<and> \<not> isRestoring (undos rs ?h')
          \<and> (rs \<noteq> [] \<and> last rs = Loaded \<longrightarrow>
                canvasSource (undos rs ?h') = currentSnapshot h)"
    if below: "?N < ?M"
  proof -
    have dL: "d < ?L"
      unfolding d_def using below pos by linarith
    define base where "base = drop d (undoStack h)"
    have base_ne: "base \<noteq> []"
      using dL by (simp add: base_def)
    have base_last: "last base = last (undoStack h)"
      unfolding base_def using dL by (rule last_drop)
    have split: "undoStack ?h' = base @ ss"
      using stack dL by (simp add: base_def)
    have restored: "undoStack (undos rs ?h') = base \<and> \<not> isRestoring (undos rs ?h')"
      using undos_stack [OF nr base_ne split assms(6)] by simp
    have cur: "currentSnapshot (undos rs ?h') = currentSnapshot h"
      using restored base_ne base_last assms(3) by (simp add: currentSnapshot_def)
    have "canvasSource (undos rs ?h') = currentSnapshot h" if "rs \<noteq> []" "last rs = Loaded"
    proof -
      have rs: "rs = butlast rs @ [Loaded]"
        using that append_butlast_last_id [of rs] by simp
      have "ss \<noteq> []"
        using assms(6) that(1) by auto
      then have st: "undoStack ?h' = (base @ [hd ss]) @ tl ss"
        using split by simp
      have len: "length (butlast rs) = length (tl ss)"
        using assms(6) by simp
      have ne: "base @ [hd ss] \<noteq> []"
        by simp
      have mid: "undoStack (undos (butlast rs) ?h') = base @ [hd ss]
                 \<and> \<not> isRestoring (undos (butlast rs) ?h')"
        using undos_stack [OF nr ne st len] by simp
      have two: "2 \<le> length (undoStack (undos (butlast rs) ?h'))"
        using mid base_ne by (cases base) simp_all
      have "canvasSource (settle (undo Loaded (undos (butlast rs) ?h')))
            = Some (last (butlast (undoStack (undos (butlast rs) ?h'))))"
        using mid two by (intro undo_canvasSource) simp_all
      then have "canvasSource (undos (butlast rs @ [Loaded]) ?h') = Some (last base)"
        using mid by (simp add: undos_snoc)
      then have "canvasSource (undos rs ?h') = Some (last base)"
        using rs by simp
      then show ?thesis
        using base_last assms(3) by (simp add: currentSnapshot_def)
    qed
    then show ?thesis
      using restored cur by (simp add: base_def)
  qed
  have part2: "currentSnapshot (undos rs ?h') = Some (ss ! (?N - ?M))
          \<and> undoStack (undos rs ?h') = [ss ! (?N - ?M)]"
    if above: "?M \<le> ?N"
  proof -
    have Mpos: "0 < ?M"
      using pos assms(4) by linarith
    have dd: "d = ?L + (?N - ?M)"
      unfolding d_def using above by simp
    have S: "undoStack ?h' = drop (?N - ?M) ss"
      using stack by (simp add: dd)
    have idx: "?N - ?M < ?N"
      using Mpos above by linarith
    have S_ne: "undoStack ?h' \<noteq> []"
      using S idx by simp
    have S_len: "length (undoStack ?h') \<le> length rs + 1"
      using S assms(6) by simp
    have "undoStack (undos rs ?h') = [hd (undoStack ?h')]"
      using nr S_ne S_len by (rule undos_bottom)
    moreover have "hd (undoStack ?h') = ss ! (?N - ?M)"
      using idx by (simp add: S hd_drop_conv_nth)
    ultimately show ?thesis
      by (simp add: currentSnapshot_def)
  qed
  have part3: "undo r' (undo r h) = undo r h" if "2 \<le> length (undoStack h)" "r \<noteq> ParseThrows"
  proof -
    have "isRestoring (undo r h)"
      using undo_call(3) [OF assms(1) that(1), of r] that(2) by simp
    then show ?thesis
      by (rule undo_while_restoring)
  qed
  show ?thesis
    using part1 part2 part3 unfolding d_def by blast
qed

text \<open>
  Claim C3, as amended. \<open>undo()\<close> and \<open>redo()\<close> move the top entry between the stacks before
  they call \<open>restoreState\<close>, and neither \<open>catch\<close> moves it back: after a restore that failed
  (the parse threw, or the load was rejected and the promise has settled) the entry has
  moved exactly as in a successful call, and \<open>isRestoring\<close> is False.
\<close>

theorem C3_failed_restore_moves_stacks:
  assumes "r = ParseThrows \<or> r = LoadRejects" and "\<not> isRestoring h"
  shows "(2 \<le> length (undoStack h) \<longrightarrow>
            undoStack (settle (undo r h)) = butlast (undoStack h)
          \<and> redoStack (settle (undo r h)) = redoStack h @ [last (undoStack h)]
          \<and> isRestoring (settle (undo r h)) = False)
       \<and> (redoStack h \<noteq> [] \<longrightarrow>
            redoStack (settle (redo r h)) = butlast (redoStack h)
          \<and> undoStack (settle (redo r h)) = undoStack h @ [last (redoStack h)]
          \<and> isRestoring (settle (redo r h)) = False)"
proof -
  have u: "undoStack (settle (undo r h)) = butlast (undoStack h)
          \<and> redoStack (settle (undo r h)) = redoStack h @ [last (undoStack h)]
          \<and> isRestoring (settle (undo r h)) = False"
    if "2 \<le> length (undoStack h)"
    using undo_stack [OF assms(2) that, of r] by simp
  have v: "redoStack (settle (redo r h)) = butlast (redoStack h)
          \<and> undoStack (settle (redo r h)) = undoStack h @ [last (redoStack h)]
          \<and> isRestoring (settle (redo r h)) = False"
    if "redoStack h \<noteq> []"
    using assms that
    by (auto simp add: redo_def Let_def settle_fields restoreState_fields)
  show ?thesis
    using u v by blast
qed

text \<open>
  Claim C5, as amended. Over any sequence of commits the length of \<open>undoStack\<close> stays within
  \<open>maxStates\<close>; and a commit that pushes onto a full stack drops the entry at index 0, the
  oldest one, keeping the others in order. Index 0 has no protection of its own.
\<close>

theorem C5_bound_and_oldest_evicted:
  shows "(length (undoStack h) \<le> maxStates h \<longrightarrow>
            length (undoStack (commits ss h)) \<le> maxStates (commits ss h))
       \<and> (\<not> isRestoring h \<and> \<not> isSaving h \<and> length (undoStack h) = maxStates h
            \<and> (undoStack h = [] \<or> last (undoStack h) \<noteq> s) \<longrightarrow>
            undoStack (commit s h) = tl (undoStack h @ [s]))"
  by (auto simp add: commits_length_le commits_flags commit_def doSaveState_def Let_def)

text \<open>
  Claim C2, witness. First the editor started on document a with one commit of b (bound
  50, stack a, b), then commits of c and d and two undos, the first restore rejected, the
  second loaded: the current snapshot is b again. Second a manager with bound 2 started on
  a, commits of b and c and two undos: N is the bound, a was shifted out, and the undos
  end on b, the snapshot of commit 1.
\<close>

theorem C2_round_trip_below_bound_witness:
  "\<not> isRestoring (commit ''b'' (editor_init ''a''))
   \<and> \<not> isSaving (commit ''b'' (editor_init ''a''))
   \<and> undoStack (commit ''b'' (editor_init ''a'')) = [''a'', ''b'']
   \<and> maxStates (commit ''b'' (editor_init ''a'')) = 50
   \<and> distinct_adj (last (undoStack (commit ''b'' (editor_init ''a''))) # [''c'', ''d''])
   \<and> currentSnapshot (undos [LoadRejects, Loaded]
         (commits [''c'', ''d''] (commit ''b'' (editor_init ''a''))))
       = currentSnapshot (commit ''b'' (editor_init ''a''))
   \<and> currentSnapshot (commit ''b'' (editor_init ''a'')) = Some ''b''
   \<and> canvasSource (undos [LoadRejects, Loaded]
         (commits [''c'', ''d''] (commit ''b'' (editor_init ''a''))))
       = currentSnapshot (commit ''b'' (editor_init ''a''))
   \<and> undo LoadRejects (undo Loaded (commit ''b'' (editor_init ''a'')))
       = undo Loaded (commit ''b'' (editor_init ''a''))
   \<and> undoStack (saveStateImmediate (Some ''a'') (HistoryManager_new (Some 2))) = [''a'']
   \<and> maxStates (saveStateImmediate (Some ''a'') (HistoryManager_new (Some 2))) = 2
   \<and> currentSnapshot (undos [Loaded, Loaded]
         (commits [''b'', ''c''] (saveStateImmediate (Some ''a'') (HistoryManager_new (Some 2)))))
       = Some ([''b'', ''c''] ! (length [''b'', ''c'']
           - maxStates (saveStateImmediate (Some ''a'') (HistoryManager_new (Some 2)))))
   \<and> [''b'', ''c''] ! (length [''b'', ''c'']
           - maxStates (saveStateImmediate (Some ''a'') (HistoryManager_new (Some 2)))) = ''b''"
proof -
  let ?h = "commit ''b'' (editor_init ''a'')"
  let ?g = "saveStateImmediate (Some ''a'') (HistoryManager_new (Some 2))"
  have h1: "\<not> isRestoring ?h" and h2: "\<not> isSaving ?h" and h3: "undoStack ?h \<noteq> []"
    and h4: "length (undoStack ?h) \<le> maxStates ?h"
    and h5: "distinct_adj (last (undoStack ?h) # [''c'', ''d''])"
    and h6: "length [LoadRejects, Loaded] = length [''c'', ''d'']"
    and h7: "length [''c'', ''d''] < maxStates ?h"
    and h8: "[LoadRejects, Loaded] \<noteq> [] \<and> last [LoadRejects, Loaded] = Loaded"
    and h9: "2 \<le> length (undoStack ?h) \<and> Loaded \<noteq> ParseThrows"
    and v1: "undoStack ?h = [''a'', ''b'']" and v2: "maxStates ?h = 50"
    and v3: "currentSnapshot ?h = Some ''b''"
    by code_simp+
  have g1: "\<not> isRestoring ?g" and g2: "\<not> isSaving ?g" and g3: "undoStack ?g \<noteq> []"
    and g4: "length (undoStack ?g) \<le> maxStates ?g"
    and g5: "distinct_adj (last (undoStack ?g) # [''b'', ''c''])"
    and g6: "length [Loaded, Loaded] = length [''b'', ''c'']"
    and g7: "maxStates ?g \<le> length [''b'', ''c'']"
    and w1: "undoStack ?g = [''a'']" and w2: "maxStates ?g = 2"
    and w3: "[''b'', ''c''] ! (length [''b'', ''c''] - maxStates ?g) = ''b''"
    by code_simp+
  note T = C2_round_trip_below_bound [OF h1 h2 h3 h4 h5 h6, of Loaded LoadRejects]
  note U = C2_round_trip_below_bound [OF g1 g2 g3 g4 g5 g6]
  have c1: "currentSnapshot (undos [LoadRejects, Loaded] (commits [''c'', ''d''] ?h))
            = currentSnapshot ?h"
    using T h7 by blast
  have c2: "canvasSource (undos [LoadRejects, Loaded] (commits [''c'', ''d''] ?h))
            = currentSnapshot ?h"
    using T h7 h8 by blast
  have c3: "undo LoadRejects (undo Loaded ?h) = undo Loaded ?h"
    using T h9 by blast
  have c4: "currentSnapshot (undos [Loaded, Loaded] (commits [''b'', ''c''] ?g))
            = Some ([''b'', ''c''] ! (length [''b'', ''c''] - maxStates ?g))"
    using U g7 by blast
  show ?thesis
    using h1 h2 h5 v1 v2 v3 c1 c2 c3 c4 w1 w2 w3 by blast
qed

text \<open>
  Claim C2, counterexample to the claim as stated (every N, any N calls of \<open>undo()\<close>).
  The editor started with the default bound 50 on document \<open>snap 0\<close>, 50 commits of the
  distinct snapshots \<open>snap 1 .. snap 50\<close>, then 50 undos, each after the restore before it
  has loaded: the 50th commit shifted \<open>snap 0\<close> out of the stack, so the undos stop at
  \<open>snap 1\<close>. And with N = 2: the editor started on a, commits of b and c, then two calls of
  \<open>undo()\<close> in a row: the second call finds \<open>isRestoring\<close> set and returns, so once the
  restore has loaded the current snapshot is b, not a.
\<close>

theorem C2_counterexample:
  "currentSnapshot (editor_init (snap 0)) = Some (snap 0)
   \<and> currentSnapshot (undos (replicate 50 Loaded)
         (commits (map snap [1..<51]) (editor_init (snap 0)))) = Some (snap 1)
   \<and> snap 1 \<noteq> snap 0
   \<and> currentSnapshot (editor_init ''a'') = Some ''a''
   \<and> currentSnapshot (settle (undo Loaded (undo Loaded
         (commits [''b'', ''c''] (editor_init ''a''))))) = Some ''b''"
  by code_simp

text \<open>
  Claim C3, counterexample to "the stacks are the same after the failed operation": the
  stacks a, b and (empty) become a and b after an undo whose parse throws, and also after
  an undo whose load is rejected.
\<close>

theorem C3_counterexample:
  "undoStack (commits [''b''] (editor_init ''a'')) = [''a'', ''b'']
   \<and> redoStack (commits [''b''] (editor_init ''a'')) = []
   \<and> undoStack (undo ParseThrows (commits [''b''] (editor_init ''a''))) = [''a'']
   \<and> redoStack (undo ParseThrows (commits [''b''] (editor_init ''a''))) = [''b'']
   \<and> undoStack (settle (undo LoadRejects (commits [''b''] (editor_init ''a'')))) = [''a'']
   \<and> redoStack (settle (undo LoadRejects (commits [''b''] (editor_init ''a'')))) = [''b'']"
  by code_simp

text \<open>
  Claim C3, witness: commits of b and c on document a, one successful undo (so both stacks
  hold something), then an undo and a redo whose parse throws.
\<close>

theorem C3_failed_restore_moves_stacks_witness:
  "(ParseThrows = ParseThrows \<or> ParseThrows = LoadRejects)
   \<and> \<not> isRestoring (settle (undo Loaded (commits [''b'', ''c''] (editor_init ''a''))))
   \<and> 2 \<le> length (undoStack (settle (undo Loaded (commits [''b'', ''c''] (editor_init ''a'')))))
   \<and> redoStack (settle (undo Loaded (commits [''b'', ''c''] (editor_init ''a'')))) \<noteq> []
   \<and> undoStack (settle (undo ParseThrows
         (settle (undo Loaded (commits [''b'', ''c''] (editor_init ''a''))))))
       = butlast (undoStack (settle (undo Loaded (commits [''b'', ''c''] (editor_init ''a'')))))
   \<and> undoStack (settle (redo ParseThrows
         (settle (undo Loaded (commits [''b'', ''c''] (editor_init ''a''))))))
       = undoStack (settle (undo Loaded (commits [''b'', ''c''] (editor_init ''a''))))
         @ [last (redoStack (settle (undo Loaded (commits [''b'', ''c''] (editor_init ''a'')))))]
   \<and> undoStack (settle (undo Loaded (commits [''b'', ''c''] (editor_init ''a'')))) = [''a'', ''b'']
   \<and> redoStack (settle (undo Loaded (commits [''b'', ''c''] (editor_init ''a'')))) = [''c'']"
proof -
  let ?h = "settle (undo Loaded (commits [''b'', ''c''] (editor_init ''a'')))"
  have h1: "ParseThrows = ParseThrows \<or> ParseThrows = LoadRejects"
    by simp
  have h2: "\<not> isRestoring ?h"
    and h3: "2 \<le> length (undoStack ?h)"
    and h4: "redoStack ?h \<noteq> []"
    and v: "undoStack ?h = [''a'', ''b'']" "redoStack ?h = [''c'']"
    by code_simp+
  note T = C3_failed_restore_moves_stacks [OF h1 h2]
  have c1: "undoStack (settle (undo ParseThrows ?h)) = butlast (undoStack ?h)"
    using T h3 by blast
  have c2: "undoStack (settle (redo ParseThrows ?h))
            = undoStack ?h @ [last (redoStack ?h)]"
    using T h4 by blast
  show ?thesis
    using h1 h2 h3 h4 c1 c2 v by blast
qed

text \<open>
  Claim C5, counterexample to "the floor entry at index 0 is never evicted": with the
  default bound 50 and the initial document \<open>snap 0\<close>, after 50 commits the stack holds 50
  entries, starts at \<open>snap 1\<close> and no longer contains \<open>snap 0\<close>.
\<close>

theorem C5_counterexample:
  "undoStack (editor_init (snap 0)) = [snap 0]
   \<and> length (undoStack (commits (map snap [1..<51]) (editor_init (snap 0)))) = 50
   \<and> hd (undoStack (commits (map snap [1..<51]) (editor_init (snap 0)))) = snap 1
   \<and> snap 0 \<notin> set (undoStack (commits (map snap [1..<51]) (editor_init (snap 0))))"
  by code_simp

text \<open>
  Claim C5, witness: a manager with bound 2 holding a, b; commits of c and d.
\<close>

theorem C5_bound_and_oldest_evicted_witness:
  "length (undoStack (commit ''b'' (saveStateImmediate (Some ''a'') (HistoryManager_new (Some 2)))))
     \<le> maxStates (commit ''b'' (saveStateImmediate (Some ''a'') (HistoryManager_new (Some 2))))
   \<and> (\<not> isRestoring (commit ''b'' (saveStateImmediate (Some ''a'') (HistoryManager_new (Some 2))))
      \<and> \<not> isSaving (commit ''b'' (saveStateImmediate (Some ''a'') (HistoryManager_new (Some 2))))
      \<and> length (undoStack (commit ''b'' (saveStateImmediate (Some ''a'') (HistoryManager_new (Some 2)))))
          = maxStates (commit ''b'' (saveStateImmediate (Some ''a'') (HistoryManager_new (Some 2))))
      \<and> (undoStack (commit ''b'' (saveStateImmediate (Some ''a'') (HistoryManager_new (Some 2)))) = []
          \<or> last (undoStack (commit ''b'' (saveStateImmediate (Some ''a'') (HistoryManager_new (Some 2)))))
             \<noteq> ''c''))
   \<and> length (undoStack (commits [''c'', ''d'']
         (commit ''b'' (saveStateImmediate (Some ''a'') (HistoryManager_new (Some 2))))))
       \<le> maxStates (commits [''c'', ''d'']
         (commit ''b'' (saveStateImmediate (Some ''a'') (HistoryManager_new (Some 2)))))
   \<and> undoStack (commit ''c''
         (commit ''b'' (saveStateImmediate (Some ''a'') (HistoryManager_new (Some 2)))))
       = tl (undoStack (commit ''b'' (saveStateImmediate (Some ''a'') (HistoryManager_new (Some 2))))
             @ [''c''])
   \<and> undoStack (commit ''b'' (saveStateImmediate (Some ''a'') (HistoryManager_new (Some 2))))
       = [''a'', ''b'']"
proof -
  let ?h = "commit ''b'' (saveStateImmediate (Some ''a'') (HistoryManager_new (Some 2)))"
  have a1: "length (undoStack ?h) \<le> maxStates ?h"
    by code_simp
  have a2: "\<not> isRestoring ?h \<and> \<not> isSaving ?h \<and> length (undoStack ?h) = maxStates ?h
      \<and> (undoStack ?h = [] \<or> last (undoStack ?h) \<noteq> ''c'')"
    by code_simp
  have v: "undoStack ?h = [''a'', ''b'']"
    by code_simp
  note T = C5_bound_and_oldest_evicted [of ?h "[''c'', ''d'']" "''c''"]
  have c1: "length (undoStack (commits [''c'', ''d''] ?h)) \<le> maxStates (commits [''c'', ''d''] ?h)"
    using T a1 by blast
  have c2: "undoStack (commit ''c'' ?h) = tl (undoStack ?h @ [''c''])"
    using T a2 by blast
  show ?thesis
    using a1 a2 c1 c2 v by blast
qed

section \<open>Properties of the tools manager\<close>

lemma heap_obj_set: "heap (obj_set i f st) = (heap st)(i := f (heap st i))"
  by (simp add: obj_set_def)

lemma run_edit_handler_frame:
  "currentTool (run_edit_handler self h st) = currentTool st"
  "toolbarActive (run_edit_handler self h st) = toolbarActive st"
  "toasts (run_edit_handler self h st) = toasts st"
  "cv_isDrawingMode (run_edit_handler self h st) = cv_isDrawingMode st"
  "cv_selection (run_edit_handler self h st) = cv_selection st"
  "cv_defaultCursor (run_edit_handler self h st) = cv_defaultCursor st"
  "cv_hoverCursor (run_edit_handler self h st) = cv_hoverCursor st"
  "cv_activeObject (run_edit_handler self h st) = cv_activeObject st"
  "nextId (run_edit_handler self h st) = nextId st"
  "getCenterPoint (run_edit_handler self h st) = getCenterPoint st"
  "getBoundingWidth (run_edit_handler self h st) = getBoundingWidth st"
  "textColor (run_edit_handler self h st) = textColor st"
  "brushSettingsHidden (run_edit_handler self h st) = brushSettingsHidden st"
  "cropPanelHidden (run_edit_handler self h st) = cropPanelHidden st"
  by (cases h;
      simp add: run_edit_handler_def Let_def obj_set_def updateTextPositionForShape_def
        updateTextPositionForBubble_def split: option.splits)+

lemma fold_run_edit_handler_frame:
  "currentTool (fold (run_edit_handler self) hs st) = currentTool st"
  "toolbarActive (fold (run_edit_handler self) hs st) = toolbarActive st"
  "toasts (fold (run_edit_handler self) hs st) = toasts st"
  "cv_isDrawingMode (fold (run_edit_handler self) hs st) = cv_isDrawingMode st"
  "cv_selection (fold (run_edit_handler self) hs st) = cv_selection st"
  "cv_defaultCursor (fold (run_edit_handler self) hs st) = cv_defaultCursor st"
  "cv_hoverCursor (fold (run_edit_handler self) hs st) = cv_hoverCursor st"
  "cv_activeObject (fold (run_edit_handler self) hs st) = cv_activeObject st"
  "cv_objects (fold (run_edit_handler self) hs st) = cv_objects st"
  "nextId (fold (run_edit_handler self) hs st) = nextId st"
  "getCenterPoint (fold (run_edit_handler self) hs st) = getCenterPoint st"
  "getBoundingWidth (fold (run_edit_handler self) hs st) = getBoundingWidth st"
  "textColor (fold (run_edit_handler self) hs st) = textColor st"
  "brushSettingsHidden (fold (run_edit_handler self) hs st) = brushSettingsHidden st"
  "cropPanelHidden (fold (run_edit_handler self) hs st) = cropPanelHidden st"
  by (induction hs arbitrary: st; simp add: run_edit_handler_frame)+

lemma fire_edit_frame:
  "currentTool (fire_edit name self st) = currentTool st"
  "toolbarActive (fire_edit name self st) = toolbarActive st"
  "toasts (fire_edit name self st) = toasts st"
  "cv_isDrawingMode (fire_edit name self st) = cv_isDrawingMode st"
  "cv_selection (fire_edit name self st) = cv_selection st"
  "cv_defaultCursor (fire_edit name self st) = cv_defaultCursor st"
  "cv_hoverCursor (fire_edit name self st) = cv_hoverCursor st"
  "cv_activeObject (fire_edit name self st) = cv_activeObject st"
  "cv_objects (fire_edit name self st) = cv_objects st"
  "nextId (fire_edit name self st) = nextId st"
  "getCenterPoint (fire_edit name self st) = getCenterPoint st"
  "getBoundingWidth (fire_edit name self st) = getBoundingWidth st"
  "textColor (fire_edit name self st) = textColor st"
  "brushSettingsHidden (fire_edit name self st) = brushSettingsHidden st"
  "cropPanelHidden (fire_edit name self st) = cropPanelHidden st"
  by (simp_all add: fire_edit_def fold_run_edit_handler_frame)

lemma discardActiveObject_frame:
  "currentTool (discardActiveObject st) = currentTool st"
  "toolbarActive (discardActiveObject st) = toolbarActive st"
  "toasts (discardActiveObject st) = toasts st"
  "cv_isDrawingMode (discardActiveObject st) = cv_isDrawingMode st"
  "cv_selection (discardActiveObject st) = cv_selection st"
  "cv_defaultCursor (discardActiveObject st) = cv_defaultCursor st"
  "cv_hoverCursor (discardActiveObject st) = cv_hoverCursor st"
  "cv_activeObject (discardActiveObject st) = None"
  "cv_objects (discardActiveObject st) = cv_objects st"
  "nextId (discardActiveObject st) = nextId st"
  "brushSettingsHidden (discardActiveObject st) = brushSettingsHidden st"
  "cropPanelHidden (discardActiveObject st) = cropPanelHidden st"
  by (simp_all add: discardActiveObject_def fire_edit_frame split: option.splits)

lemma setTool_unknown:
  assumes "toolName \<notin> set toolNames"
  shows "setTool toolName st =
     discardActiveObject (hideAllPanels
       (st\<lparr>currentTool := toolName, toolbarActive := toolName,
           cv_isDrawingMode := False, cv_selection := True,
           cv_defaultCursor := ''default'', cv_hoverCursor := ''move''\<rparr>))"
  using assms by (simp add: setTool.simps [of toolName] toolNames_def Let_def)

text \<open>
  Claim C9, as amended. \<open>setTool\<close> validates nothing: a name it has no \<open>case\<close> for becomes the
  current tool (and the highlighted button), the canvas goes back to its default
  interaction mode (drawing mode off, selection on, default cursors), both tool panels are
  hidden, the active object is discarded, and no toast is shown. The last conjunct gives
  the whole state: these assignments, \<open>hideAllPanels\<close> and \<open>discardActiveObject\<close>, and nothing
  else.
\<close>

theorem C9_unknown_tool_is_stored:
  assumes "toolName \<notin> set toolNames"
  shows "currentTool (setTool toolName st) = toolName
       \<and> toolbarActive (setTool toolName st) = toolName
       \<and> cv_isDrawingMode (setTool toolName st) = False
       \<and> cv_selection (setTool toolName st) = True
       \<and> cv_defaultCursor (setTool toolName st) = ''default''
       \<and> cv_hoverCursor (setTool toolName st) = ''move''
       \<and> brushSettingsHidden (setTool toolName st) = True
       \<and> cropPanelHidden (setTool toolName st) = True
       \<and> cv_activeObject (setTool toolName st) = None
       \<and> toasts (setTool toolName st) = toasts st
       \<and> setTool toolName st =
           discardActiveObject (hideAllPanels
             (st\<lparr>currentTool := toolName, toolbarActive := toolName,
                 cv_isDrawingMode := False, cv_selection := True,
                 cv_defaultCursor := ''default'', cv_hoverCursor := ''move''\<rparr>))"
  by (simp add: setTool_unknown [OF assms] discardActiveObject_frame hideAllPanels_def)

text \<open>
  Claim C9, counterexample to "no change to the tool state and an error is surfaced": with
  the pencil active (drawing mode on, brush panel open), \<open>setTool('lasso')\<close> makes lasso the
  current tool, turns drawing mode off, hides the panel and shows no toast.
\<close>

theorem C9_counterexample:
  "currentTool (setTool ''pencil'' editor0) = ''pencil''
   \<and> cv_isDrawingMode (setTool ''pencil'' editor0) = True
   \<and> brushSettingsHidden (setTool ''pencil'' editor0) = False
   \<and> ''lasso'' \<notin> set toolNames
   \<and> currentTool (setTool ''lasso'' (setTool ''pencil'' editor0)) = ''lasso''
   \<and> cv_isDrawingMode (setTool ''lasso'' (setTool ''pencil'' editor0)) = False
   \<and> brushSettingsHidden (setTool ''lasso'' (setTool ''pencil'' editor0)) = True
   \<and> toasts (setTool ''lasso'' (setTool ''pencil'' editor0)) = []"
  by code_simp

text \<open>
  Claim C9, witness: the name lasso while the pencil is the tool and the brush panel is
  open.
\<close>

theorem C9_unknown_tool_is_stored_witness:
  "''lasso'' \<notin> set toolNames
   \<and> currentTool (setTool ''lasso'' (setTool ''pencil'' editor0)) = ''lasso''
   \<and> brushSettingsHidden (setTool ''pencil'' editor0) = False
   \<and> brushSettingsHidden (setTool ''lasso'' (setTool ''pencil'' editor0)) = True
   \<and> cropPanelHidden (setTool ''lasso'' (setTool ''pencil'' editor0)) = True
   \<and> toasts (setTool ''lasso'' (setTool ''pencil'' editor0)) = toasts (setTool ''pencil'' editor0)"
proof -
  have h: "''lasso'' \<notin> set toolNames"
    by (simp add: toolNames_def)
  have v: "brushSettingsHidden (setTool ''pencil'' editor0) = False"
    by code_simp
  show ?thesis
    using C9_unknown_tool_is_stored [OF h, of "setTool ''pencil'' editor0"] h v by blast
qed

lemma updateTextPositionForShape_twice:
  assumes "container \<noteq> textbox"
  shows "updateTextPositionForShape container textbox
           (updateTextPositionForShape container textbox st)
         = updateTextPositionForShape container textbox st"
  using assms by (simp add: updateTextPositionForShape_def obj_set_def Let_def)

lemma updateTextPositionForBubble_twice:
  assumes "container \<noteq> textbox"
  shows "updateTextPositionForBubble container textbox
           (updateTextPositionForBubble container textbox st)
         = updateTextPositionForBubble container textbox st"
  using assms by (simp add: updateTextPositionForBubble_def obj_set_def Let_def)

text \<open>
  Claim C6. For a container and a different text object, \<open>updateTextPositionForShape\<close> puts
  the text's position at the container's centre point, and \<open>updateTextPositionForBubble\<close>
  puts it half the tail size, times the bubble's \<open>scaleY\<close>, above that (smaller \<open>top\<close>);
  both copy \<open>scaleX\<close>, \<open>scaleY\<close> and \<open>angle\<close>, leave the container as it is, and give the same
  state when run a second time. Bound text boxes have their origin at the centre, where
  Fabric's centre point is the position itself; with that the text's centre point is the
  one computed.
\<close>

theorem C6_sync_sets_centre_scale_rotation:
  assumes "container \<noteq> textbox"
  shows "o_left (heap (updateTextPositionForShape container textbox st) textbox)
           = fst (getCenterPoint st (heap st container))
       \<and> o_top (heap (updateTextPositionForShape container textbox st) textbox)
           = snd (getCenterPoint st (heap st container))
       \<and> o_scaleX (heap (updateTextPositionForShape container textbox st) textbox)
           = o_scaleX (heap st container)
       \<and> o_scaleY (heap (updateTextPositionForShape container textbox st) textbox)
           = o_scaleY (heap st container)
       \<and> o_angle (heap (updateTextPositionForShape container textbox st) textbox)
           = o_angle (heap st container)
       \<and> heap (updateTextPositionForShape container textbox st) container = heap st container
       \<and> updateTextPositionForShape container textbox
            (updateTextPositionForShape container textbox st)
           = updateTextPositionForShape container textbox st
       \<and> o_left (heap (updateTextPositionForBubble container textbox st) textbox)
           = fst (getCenterPoint st (heap st container))
       \<and> o_top (heap (updateTextPositionForBubble container textbox st) textbox)
           = snd (getCenterPoint st (heap st container))
             - (or_default (o_tailSize (heap st container)) 15 / 2) * o_scaleY (heap st container)
       \<and> o_scaleX (heap (updateTextPositionForBubble container textbox st) textbox)
           = o_scaleX (heap st container)
       \<and> o_scaleY (heap (updateTextPositionForBubble container textbox st) textbox)
           = o_scaleY (heap st container)
       \<and> o_angle (heap (updateTextPositionForBubble container textbox st) textbox)
           = o_angle (heap st container)
       \<and> heap (updateTextPositionForBubble container textbox st) container = heap st container
       \<and> updateTextPositionForBubble container textbox
            (updateTextPositionForBubble container textbox st)
           = updateTextPositionForBubble container textbox st
       \<and> ((\<forall>obj. o_originCenter obj \<longrightarrow> getCenterPoint st obj = (o_left obj, o_top obj))
            \<and> o_originCenter (heap st textbox) \<longrightarrow>
            getCenterPoint st (heap (updateTextPositionForShape container textbox st) textbox)
              = getCenterPoint st (heap st container)
          \<and> getCenterPoint st (heap (updateTextPositionForBubble container textbox st) textbox)
              = (fst (getCenterPoint st (heap st container)),
                 snd (getCenterPoint st (heap st container))
                 - (or_default (o_tailSize (heap st container)) 15 / 2)
                   * o_scaleY (heap st container)))"
proof -
  have shape: "heap (updateTextPositionForShape container textbox st) =
      (heap st)(textbox := (heap st textbox)
        \<lparr>o_left := fst (getCenterPoint st (heap st container)),
         o_top := snd (getCenterPoint st (heap st container)),
         o_scaleX := o_scaleX (heap st container),
         o_scaleY := o_scaleY (heap st container),
         o_angle := o_angle (heap st container)\<rparr>)"
    by (simp add: updateTextPositionForShape_def obj_set_def Let_def)
  have bubble: "heap (updateTextPositionForBubble container textbox st) =
      (heap st)(textbox := (heap st textbox)
        \<lparr>o_left := fst (getCenterPoint st (heap st container)),
         o_top := snd (getCenterPoint st (heap st container))
                  - (or_default (o_tailSize (heap st container)) 15 / 2)
                    * o_scaleY (heap st container),
         o_scaleX := o_scaleX (heap st container),
         o_scaleY := o_scaleY (heap st container),
         o_angle := o_angle (heap st container)\<rparr>)"
    by (simp add: updateTextPositionForBubble_def obj_set_def Let_def)
  show ?thesis
    unfolding shape bubble
    using assms
    by (simp add: updateTextPositionForShape_twice updateTextPositionForBubble_twice)
qed

lemma run_edit_handler_static:
  "o_type (heap (run_edit_handler self h st) i) = o_type (heap st i)"
  "o_shapeType (heap (run_edit_handler self h st) i) = o_shapeType (heap st i)"
  "o_width (heap (run_edit_handler self h st) i) = o_width (heap st i)"
  "o_height (heap (run_edit_handler self h st) i) = o_height (heap st i)"
  "o_rx (heap (run_edit_handler self h st) i) = o_rx (heap st i)"
  "o_ry (heap (run_edit_handler self h st) i) = o_ry (heap st i)"
  "o_bubbleWidth (heap (run_edit_handler self h st) i) = o_bubbleWidth (heap st i)"
  "o_bubbleHeight (heap (run_edit_handler self h st) i) = o_bubbleHeight (heap st i)"
  "o_tailSize (heap (run_edit_handler self h st) i) = o_tailSize (heap st i)"
  "o_boundText (heap (run_edit_handler self h st) i) = o_boundText (heap st i)"
  "o_boundShape (heap (run_edit_handler self h st) i) = o_boundShape (heap st i)"
  "o_boundBubble (heap (run_edit_handler self h st) i) = o_boundBubble (heap st i)"
  "o_listeners (heap (run_edit_handler self h st) i) = o_listeners (heap st i)"
  "o_objects (heap (run_edit_handler self h st) i) = o_objects (heap st i)"
  by (cases h;
      simp add: run_edit_handler_def Let_def obj_set_def updateTextPositionForShape_def
        updateTextPositionForBubble_def set_placeholder_def split: option.splits)+

lemma fold_run_edit_handler_static:
  "o_type (heap (fold (run_edit_handler self) hs st) i) = o_type (heap st i)"
  "o_shapeType (heap (fold (run_edit_handler self) hs st) i) = o_shapeType (heap st i)"
  "o_width (heap (fold (run_edit_handler self) hs st) i) = o_width (heap st i)"
  "o_height (heap (fold (run_edit_handler self) hs st) i) = o_height (heap st i)"
  "o_rx (heap (fold (run_edit_handler self) hs st) i) = o_rx (heap st i)"
  "o_ry (heap (fold (run_edit_handler self) hs st) i) = o_ry (heap st i)"
  "o_bubbleWidth (heap (fold (run_edit_handler self) hs st) i) = o_bubbleWidth (heap st i)"
  "o_bubbleHeight (heap (fold (run_edit_handler self) hs st) i) = o_bubbleHeight (heap st i)"
  "o_tailSize (heap (fold (run_edit_handler self) hs st) i) = o_tailSize (heap st i)"
  "o_boundText (heap (fold (run_edit_handler self) hs st) i) = o_boundText (heap st i)"
  "o_boundShape (heap (fold (run_edit_handler self) hs st) i) = o_boundShape (heap st i)"
  "o_boundBubble (heap (fold (run_edit_handler self) hs st) i) = o_boundBubble (heap st i)"
  "o_listeners (heap (fold (run_edit_handler self) hs st) i) = o_listeners (heap st i)"
  "o_objects (heap (fold (run_edit_handler self) hs st) i) = o_objects (heap st i)"
  by (induction hs arbitrary: st; simp add: run_edit_handler_static)+

lemma fire_edit_static:
  "o_type (heap (fire_edit name self st) i) = o_type (heap st i)"
  "o_shapeType (heap (fire_edit name self st) i) = o_shapeType (heap st i)"
  "o_width (heap (fire_edit name self st) i) = o_width (heap st i)"
  "o_height (heap (fire_edit name self st) i) = o_height (heap st i)"
  "o_rx (heap (fire_edit name self st) i) = o_rx (heap st i)"
  "o_ry (heap (fire_edit name self st) i) = o_ry (heap st i)"
  "o_bubbleWidth (heap (fire_edit name self st) i) = o_bubbleWidth (heap st i)"
  "o_bubbleHeight (heap (fire_edit name self st) i) = o_bubbleHeight (heap st i)"
  "o_tailSize (heap (fire_edit name self st) i) = o_tailSize (heap st i)"
  "o_boundText (heap (fire_edit name self st) i) = o_boundText (heap st i)"
  "o_boundShape (heap (fire_edit name self st) i) = o_boundShape (heap st i)"
  "o_boundBubble (heap (fire_edit name self st) i) = o_boundBubble (heap st i)"
  "o_listeners (heap (fire_edit name self st) i) = o_listeners (heap st i)"
  "o_objects (heap (fire_edit name self st) i) = o_objects (heap st i)"
  by (simp_all add: fire_edit_def fold_run_edit_handler_static)

lemma discardActiveObject_static:
  "o_type (heap (discardActiveObject st) i) = o_type (heap st i)"
  "o_shapeType (heap (discardActiveObject st) i) = o_shapeType (heap st i)"
  "o_width (heap (discardActiveObject st) i) = o_width (heap st i)"
  "o_height (heap (discardActiveObject st) i) = o_height (heap st i)"
  "o_rx (heap (discardActiveObject st) i) = o_rx (heap st i)"
  "o_ry (heap (discardActiveObject st) i) = o_ry (heap st i)"
  "o_bubbleWidth (heap (discardActiveObject st) i) = o_bubbleWidth (heap st i)"
  "o_bubbleHeight (heap (discardActiveObject st) i) = o_bubbleHeight (heap st i)"
  "o_tailSize (heap (discardActiveObject st) i) = o_tailSize (heap st i)"
  "o_boundText (heap (discardActiveObject st) i) = o_boundText (heap st i)"
  "o_boundShape (heap (discardActiveObject st) i) = o_boundShape (heap st i)"
  "o_boundBubble (heap (discardActiveObject st) i) = o_boundBubble (heap st i)"
  "o_listeners (heap (discardActiveObject st) i) = o_listeners (heap st i)"
  "o_objects (heap (discardActiveObject st) i) = o_objects (heap st i)"
  by (simp_all add: discardActiveObject_def fire_edit_static split: option.splits)

lemma setActiveObject_static:
  "o_type (heap (setActiveObject a st) i) = o_type (heap st i)"
  "o_shapeType (heap (setActiveObject a st) i) = o_shapeType (heap st i)"
  "o_width (heap (setActiveObject a st) i) = o_width (heap st i)"
  "o_height (heap (setActiveObject a st) i) = o_height (heap st i)"
  "o_rx (heap (setActiveObject a st) i) = o_rx (heap st i)"
  "o_ry (heap (setActiveObject a st) i) = o_ry (heap st i)"
  "o_bubbleWidth (heap (setActiveObject a st) i) = o_bubbleWidth (heap st i)"
  "o_bubbleHeight (heap (setActiveObject a st) i) = o_bubbleHeight (heap st i)"
  "o_tailSize (heap (setActiveObject a st) i) = o_tailSize (heap st i)"
  "o_boundText (heap (setActiveObject a st) i) = o_boundText (heap st i)"
  "o_boundShape (heap (setActiveObject a st) i) = o_boundShape (heap st i)"
  "o_boundBubble (heap (setActiveObject a st) i) = o_boundBubble (heap st i)"
  "o_listeners (heap (setActiveObject a st) i) = o_listeners (heap st i)"
  "o_objects (heap (setActiveObject a st) i) = o_objects (heap st i)"
  by (simp_all add: setActiveObject_def fire_edit_static discardActiveObject_static)

lemma fold_run_edit_handler_objects:
  "cv_objects (fold (run_edit_handler self) hs st) = cv_objects st"
  "nextId (fold (run_edit_handler self) hs st) = nextId st"
  by (induction hs arbitrary: st;
      simp add: run_edit_handler_def Let_def obj_set_def updateTextPositionForShape_def
        updateTextPositionForBubble_def split: option.splits handler.splits)+

lemma setActiveObject_objects:
  "cv_objects (setActiveObject a st) = cv_objects st"
  "nextId (setActiveObject a st) = nextId st"
  "cv_objects (discardActiveObject st) = cv_objects st"
  "nextId (discardActiveObject st) = nextId st"
  by (simp_all add: setActiveObject_def discardActiveObject_def fire_edit_def
      fold_run_edit_handler_objects split: option.splits)

lemma heap_on: "heap (on name h i st) = (heap st)(i := (heap st i)\<lparr>o_listeners := o_listeners (heap st i) @ [(name, h)]\<rparr>)"
  by (simp add: on_def obj_set_def)

lemma on_objects:
  "cv_objects (on name h i st) = cv_objects st" "nextId (on name h i st) = nextId st"
  by (simp_all add: on_def obj_set_def)

lemma createBoundTextForShape_dims:
  assumes "i \<noteq> nextId st" and "shape \<noteq> nextId st"
  shows "o_width (heap (createBoundTextForShape shape st) i) = o_width (heap st i)"
    and "o_height (heap (createBoundTextForShape shape st) i) = o_height (heap st i)"
    and "o_rx (heap (createBoundTextForShape shape st) i) = o_rx (heap st i)"
    and "o_ry (heap (createBoundTextForShape shape st) i) = o_ry (heap st i)"
  using assms
  by (cases "i = shape";
      simp add: createBoundTextForShape_def Let_def setActiveObject_static
        setActiveObject_objects setupShapeTextEvents_def bindShapeTextEvents_def on_def
        obj_set_def canvas_add_def updateTextPositionForShape_def new_object_def
      cong: let_weak_cong)+

lemma createBoundTextForBubble_dims:
  assumes "i \<noteq> nextId st" and "bubble \<noteq> nextId st"
  shows "o_bubbleWidth (heap (createBoundTextForBubble bubble st) i) = o_bubbleWidth (heap st i)"
    and "o_bubbleHeight (heap (createBoundTextForBubble bubble st) i) = o_bubbleHeight (heap st i)"
  using assms
  by (cases "i = bubble";
      simp add: createBoundTextForBubble_def Let_def setActiveObject_static
        setActiveObject_objects setupBubbleTextEvents_def bindBubbleTextEvents_def on_def
        obj_set_def canvas_add_def updateTextPositionForBubble_def new_object_def
      cong: let_weak_cong)+

lemma createBoundText_objects:
  "cv_objects (createBoundTextForShape shape st) = cv_objects st @ [nextId st]"
  "cv_objects (createBoundTextForBubble bubble st) = cv_objects st @ [nextId st]"
  by (simp_all add: createBoundTextForShape_def createBoundTextForBubble_def Let_def
      setActiveObject_objects setupShapeTextEvents_def bindShapeTextEvents_def
      setupBubbleTextEvents_def bindBubbleTextEvents_def on_objects
      updateTextPositionForShape_def updateTextPositionForBubble_def canvas_add_def
      new_object_def)

lemma obj_set_simps:
  "heap (obj_set i f st) j = (if j = i then f (heap st i) else heap st j)"
  "nextId (obj_set i f st) = nextId st"
  "currentTool (obj_set i f st) = currentTool st"
  "currentShape (obj_set i f st) = currentShape st"
  by (simp_all add: obj_set_def)

lemma finalizeShapeWithText_snap:
  assumes "currentShape st = Some shape" and "shape < nextId st"
  shows "o_type (heap st shape) \<noteq> ''ellipse'' \<Longrightarrow>
           o_width (heap (finalizeShapeWithText st) shape)
             = (if o_width (heap st shape) < 60 then 100 else o_width (heap st shape))
         \<and> o_height (heap (finalizeShapeWithText st) shape)
             = (if o_height (heap st shape) < 40 then 80 else o_height (heap st shape))"
    and "o_type (heap st shape) = ''ellipse'' \<Longrightarrow>
           o_rx (heap (finalizeShapeWithText st) shape)
             = (if o_rx (heap st shape) * 2 < 60 then 50 else o_rx (heap st shape))
         \<and> o_ry (heap (finalizeShapeWithText st) shape)
             = (if o_ry (heap st shape) * 2 < 40 then 40 else o_ry (heap st shape))"
    and "cv_objects (finalizeShapeWithText st) = cv_objects st @ [nextId st]"
  using assms
  by (simp_all add: finalizeShapeWithText_def Let_def createBoundTextForShape_dims
      createBoundText_objects obj_set_simps)

lemma finalizeTextBox_snap:
  assumes "currentShape st = Some shape"
  shows "o_type (heap st shape) = ''textbox'' \<Longrightarrow>
           o_width (heap (finalizeTextBox st) shape)
             = (if o_width (heap st shape) < 80 then 150 else o_width (heap st shape))"
    and "cv_objects (finalizeTextBox st) = cv_objects st"
  using assms
  by (simp_all add: finalizeTextBox_def Let_def setupTextBoxEvents_def on_def
      obj_set_simps setActiveObject_static setActiveObject_objects set_placeholder_def)

lemma finalizeBubble_snap:
  assumes "currentShape st = Some shape" and "shape < nextId st"
  shows "o_shapeType (heap st shape) = Some ''bubble'' \<Longrightarrow>
           o_bubbleWidth (heap (finalizeBubble st) shape)
             = Some (if or_default (o_bubbleWidth (heap st shape)) 150 < 100 then 150
                     else or_default (o_bubbleWidth (heap st shape)) 150)
         \<and> o_bubbleHeight (heap (finalizeBubble st) shape)
             = Some (if or_default (o_bubbleHeight (heap st shape)) 80 < 60 then 80
                     else or_default (o_bubbleHeight (heap st shape)) 80)"
    and "set (cv_objects st) \<subseteq> set (cv_objects (finalizeBubble st))"
  using assms
  by (auto simp add: finalizeBubble_def Let_def createBoundTextForBubble_dims
      createBoundText_objects obj_set_simps)

text \<open>
  Claim C7, as amended. On pointer-up over a shape being drawn, each dimension is tested
  on its own: a rectangle's or triangle's width under 60 becomes 100 and its height under
  40 becomes 80; an ellipse's horizontal diameter under 60 gives \<open>rx = 50\<close> and its vertical
  diameter under 40 gives \<open>ry = 40\<close>; a text box's width under 80 becomes 150; a bubble's
  width under 100 becomes 150 and its height under 60 becomes 80. A dimension at or above
  its minimum is kept, and the shape stays in the collection.
\<close>

theorem C7_pointer_up_snaps_each_dimension:
  assumes "isDrawingShape st" and "currentShape st = Some shape" and "shape < nextId st"
  shows "(currentTool st \<in> set [''rect'', ''circle'', ''triangle'']
            \<and> o_type (heap st shape) \<noteq> ''ellipse'' \<longrightarrow>
            o_width (heap (onMouseUp st) shape)
              = (if o_width (heap st shape) < 60 then 100 else o_width (heap st shape))
          \<and> o_height (heap (onMouseUp st) shape)
              = (if o_height (heap st shape) < 40 then 80 else o_height (heap st shape)))
       \<and> (currentTool st \<in> set [''rect'', ''circle'', ''triangle'']
            \<and> o_type (heap st shape) = ''ellipse'' \<longrightarrow>
            o_rx (heap (onMouseUp st) shape)
              = (if o_rx (heap st shape) * 2 < 60 then 50 else o_rx (heap st shape))
          \<and> o_ry (heap (onMouseUp st) shape)
              = (if o_ry (heap st shape) * 2 < 40 then 40 else o_ry (heap st shape)))
       \<and> (currentTool st = ''text'' \<and> o_type (heap st shape) = ''textbox'' \<longrightarrow>
            o_width (heap (onMouseUp st) shape)
              = (if o_width (heap st shape) < 80 then 150 else o_width (heap st shape)))
       \<and> (currentTool st = ''bubble'' \<and> o_shapeType (heap st shape) = Some ''bubble'' \<longrightarrow>
            o_bubbleWidth (heap (onMouseUp st) shape)
              = Some (if or_default (o_bubbleWidth (heap st shape)) 150 < 100 then 150
                      else or_default (o_bubbleWidth (heap st shape)) 150)
          \<and> o_bubbleHeight (heap (onMouseUp st) shape)
              = Some (if or_default (o_bubbleHeight (heap st shape)) 80 < 60 then 80
                      else or_default (o_bubbleHeight (heap st shape)) 80))
       \<and> (currentTool st \<in> set [''rect'', ''circle'', ''triangle'', ''text'', ''bubble'']
            \<and> shape \<in> set (cv_objects st) \<longrightarrow> shape \<in> set (cv_objects (onMouseUp st)))"
proof -
  let ?st1 = "st\<lparr>isDrawingShape := False\<rparr>"
  have pre: "currentShape ?st1 = Some shape" "shape < nextId ?st1"
    using assms by simp_all
  note ss = finalizeShapeWithText_snap [OF pre]
  note ts = finalizeTextBox_snap [OF pre(1)]
  note bs = finalizeBubble_snap [OF pre]
  have up: "heap (onMouseUp st) =
      heap (if currentTool st = ''text'' then finalizeTextBox ?st1
            else if currentTool st = ''bubble'' then finalizeBubble ?st1
            else if currentTool st \<in> set [''rect'', ''circle'', ''triangle'']
            then finalizeShapeWithText ?st1 else ?st1)"
    and objs: "cv_objects (onMouseUp st) =
      cv_objects (if currentTool st = ''text'' then finalizeTextBox ?st1
            else if currentTool st = ''bubble'' then finalizeBubble ?st1
            else if currentTool st \<in> set [''rect'', ''circle'', ''triangle'']
            then finalizeShapeWithText ?st1 else ?st1)"
    using assms by (simp_all add: onMouseUp_def Let_def)
  have c1: "currentTool st \<in> set [''rect'', ''circle'', ''triangle'']
            \<and> o_type (heap st shape) \<noteq> ''ellipse'' \<longrightarrow>
            o_width (heap (onMouseUp st) shape)
              = (if o_width (heap st shape) < 60 then 100 else o_width (heap st shape))
          \<and> o_height (heap (onMouseUp st) shape)
              = (if o_height (heap st shape) < 40 then 80 else o_height (heap st shape))"
    using ss(1) by (auto simp add: up)
  have c2: "currentTool st \<in> set [''rect'', ''circle'', ''triangle'']
            \<and> o_type (heap st shape) = ''ellipse'' \<longrightarrow>
            o_rx (heap (onMouseUp st) shape)
              = (if o_rx (heap st shape) * 2 < 60 then 50 else o_rx (heap st shape))
          \<and> o_ry (heap (onMouseUp st) shape)
              = (if o_ry (heap st shape) * 2 < 40 then 40 else o_ry (heap st shape))"
    using ss(2) by (auto simp add: up)
  have c3: "currentTool st = ''text'' \<and> o_type (heap st shape) = ''textbox'' \<longrightarrow>
            o_width (heap (onMouseUp st) shape)
              = (if o_width (heap st shape) < 80 then 150 else o_width (heap st shape))"
    using ts(1) by (auto simp add: up)
  have c4: "currentTool st = ''bubble'' \<and> o_shapeType (heap st shape) = Some ''bubble'' \<longrightarrow>
            o_bubbleWidth (heap (onMouseUp st) shape)
              = Some (if or_default (o_bubbleWidth (heap st shape)) 150 < 100 then 150
                      else or_default (o_bubbleWidth (heap st shape)) 150)
          \<and> o_bubbleHeight (heap (onMouseUp st) shape)
              = Some (if or_default (o_bubbleHeight (heap st shape)) 80 < 60 then 80
                      else or_default (o_bubbleHeight (heap st shape)) 80)"
    using bs(1) by (auto simp add: up)
  have c5: "currentTool st \<in> set [''rect'', ''circle'', ''triangle'', ''text'', ''bubble'']
            \<and> shape \<in> set (cv_objects st) \<longrightarrow> shape \<in> set (cv_objects (onMouseUp st))"
    using ss(3) ts(2) bs(2) by (auto simp add: objs)
  show ?thesis
    using c1 c2 c3 c4 c5 by blast
qed

lemmas eval_defs = drag_def dragging_def editor0_def ToolsManager_new_def fabric_default_def
  setTool.simps hideAllPanels_def showPanel_def showToast_def enableDrawingMode_def
  forEachObject_def discardActiveObject_def setActiveObject_def fire_edit_def
  listeners_for_def run_edit_handler_def obj_set_def on_def new_object_def canvas_add_def
  onMouseDown_def beginDrawing_def onMouseMove_def onMouseUp_def createShape_def
  createTextBox_def createBubble_def updateShape_def updateBubbleSize_def commonProps_def
  finalizeTextBox_def finalizeBubble_def finalizeShapeWithText_def
  createBoundTextForShape_def createBoundTextForBubble_def
  updateTextPositionForShape_def updateTextPositionForBubble_def
  bindShapeTextEvents_def setupShapeTextEvents_def bindBubbleTextEvents_def
  setupBubbleTextEvents_def setupTextBoxEvents_def or_default_def
  box_center_def box_width_def box_height_def set_placeholder_def
  enterEditing_def exitEditing_def text_is_blank_def trim_def placeholderText_def
  canvas_remove.simps deleteSelected_def Let_def

lemma listeners_for_on:
  "listeners_for name (heap (on name' h i st) j) =
     (if j = i \<and> name = name' then listeners_for name (heap st j) @ [h]
      else listeners_for name (heap st j))"
  by (simp add: listeners_for_def on_def obj_set_def)

lemma on_fields:
  "o_text (heap (on name h i st) j) = o_text (heap st j)"
  "o_fill (heap (on name h i st) j) = o_fill (heap st j)"
  "o_fontStyle (heap (on name h i st) j) = o_fontStyle (heap st j)"
  "o_isPlaceholder (heap (on name h i st) j) = o_isPlaceholder (heap st j)"
  "textColor (on name h i st) = textColor st"
  "text_is_blank (heap (on name h i st) j) = text_is_blank (heap st j)"
  by (simp_all add: on_def obj_set_def text_is_blank_def)

lemma listeners_for_fresh:
  "o_listeners obj = [] \<Longrightarrow> listeners_for name obj = []"
  by (simp add: listeners_for_def)

text \<open>
  The handlers that run on \<open>selected\<close>, \<open>deselected\<close> and the editing events write the
  text, the style and the placeholder flag of the object they are registered on only.
\<close>

lemma run_edit_handler_other:
  assumes "i \<noteq> self"
  shows "o_text (heap (run_edit_handler self h st) i) = o_text (heap st i)"
    and "o_fill (heap (run_edit_handler self h st) i) = o_fill (heap st i)"
    and "o_fontStyle (heap (run_edit_handler self h st) i) = o_fontStyle (heap st i)"
    and "o_isPlaceholder (heap (run_edit_handler self h st) i) = o_isPlaceholder (heap st i)"
  using assms
  by (cases h;
      simp add: run_edit_handler_def Let_def obj_set_def updateTextPositionForShape_def
        updateTextPositionForBubble_def set_placeholder_def split: option.splits)+

lemma fold_run_edit_handler_other:
  assumes "i \<noteq> self"
  shows "o_text (heap (fold (run_edit_handler self) hs st) i) = o_text (heap st i)"
    and "o_fill (heap (fold (run_edit_handler self) hs st) i) = o_fill (heap st i)"
    and "o_fontStyle (heap (fold (run_edit_handler self) hs st) i) = o_fontStyle (heap st i)"
    and "o_isPlaceholder (heap (fold (run_edit_handler self) hs st) i)
         = o_isPlaceholder (heap st i)"
  using assms
  by (induction hs arbitrary: st; simp add: run_edit_handler_other)+

lemma fire_edit_other:
  assumes "i \<noteq> self"
  shows "o_text (heap (fire_edit name self st) i) = o_text (heap st i)"
    and "o_fill (heap (fire_edit name self st) i) = o_fill (heap st i)"
    and "o_fontStyle (heap (fire_edit name self st) i) = o_fontStyle (heap st i)"
    and "o_isPlaceholder (heap (fire_edit name self st) i) = o_isPlaceholder (heap st i)"
  using assms by (simp_all add: fire_edit_def fold_run_edit_handler_other)

lemma discardActiveObject_other:
  assumes "cv_activeObject st \<noteq> Some i"
  shows "o_text (heap (discardActiveObject st) i) = o_text (heap st i)"
    and "o_fill (heap (discardActiveObject st) i) = o_fill (heap st i)"
    and "o_fontStyle (heap (discardActiveObject st) i) = o_fontStyle (heap st i)"
    and "o_isPlaceholder (heap (discardActiveObject st) i) = o_isPlaceholder (heap st i)"
  using assms
  by (cases "cv_activeObject st"; simp add: discardActiveObject_def fire_edit_other)+

lemma setActiveObject_other:
  assumes "i \<noteq> a" and "cv_activeObject st \<noteq> Some i"
  shows "o_text (heap (setActiveObject a st) i) = o_text (heap st i)"
    and "o_fill (heap (setActiveObject a st) i) = o_fill (heap st i)"
    and "o_fontStyle (heap (setActiveObject a st) i) = o_fontStyle (heap st i)"
    and "o_isPlaceholder (heap (setActiveObject a st) i) = o_isPlaceholder (heap st i)"
  using assms
  by (simp_all add: setActiveObject_def fire_edit_other discardActiveObject_other)

text \<open>The text box that \<open>createBoundTextForShape\<close> makes, as it leaves the function.\<close>

lemma createBoundTextForShape_text:
  assumes "shape \<noteq> nextId st" and "cv_activeObject st \<noteq> Some (nextId st)"
  shows "o_text (heap (createBoundTextForShape shape st) (nextId st)) = []"
    and "o_isPlaceholder (heap (createBoundTextForShape shape st) (nextId st)) = False"
    and "o_fill (heap (createBoundTextForShape shape st) (nextId st)) = textColor st"
    and "o_fontStyle (heap (createBoundTextForShape shape st) (nextId st)) = ''normal''"
    and "o_listeners (heap (createBoundTextForShape shape st) (nextId st))
         = [(''editing:exited'', ShapeText_exited), (''removed'', ShapeText_removed)]"
proof -
  define st7 where "st7 =
     setupShapeTextEvents (nextId st)
       (bindShapeTextEvents shape (nextId st)
         (obj_set (nextId st) (\<lambda>t. t\<lparr>o_boundShape := Some shape\<rparr>)
           (obj_set shape (\<lambda>s. s\<lparr>o_boundText := Some (nextId st)\<rparr>)
             (canvas_add (nextId st)
               (updateTextPositionForShape shape (nextId st)
                 (new_object
                    (fabric_default\<lparr>o_type := ''textbox'', o_originCenter := True,
                       o_width := max (getBoundingWidth st (heap st shape)
                                       / or_default (Some (o_scaleX (heap st shape))) 1 * 0.8) 50,
                       o_fill := textColor st,
                       o_stroke := None, o_strokeWidth := 0, o_text := [],
                       o_isPlaceholder := False, o_shapeType := Some ''shapeText'',
                       o_handlesOff := True, o_selectable := True, o_evented := True\<rparr>) st))))))"
  have eq: "createBoundTextForShape shape st = setActiveObject shape st7"
    by (simp add: createBoundTextForShape_def st7_def Let_def)
  have act: "cv_activeObject st7 \<noteq> Some (nextId st)"
    using assms(2)
    by (simp add: st7_def setupShapeTextEvents_def bindShapeTextEvents_def on_def obj_set_def
        canvas_add_def updateTextPositionForShape_def new_object_def Let_def)
  have ne: "nextId st \<noteq> shape"
    using assms(1) by simp
  have f: "o_text (heap st7 (nextId st)) = []"
    "o_isPlaceholder (heap st7 (nextId st)) = False"
    "o_fill (heap st7 (nextId st)) = textColor st"
    "o_fontStyle (heap st7 (nextId st)) = ''normal''"
    "o_listeners (heap st7 (nextId st))
         = [(''editing:exited'', ShapeText_exited), (''removed'', ShapeText_removed)]"
    using assms(1)
    by (simp_all add: st7_def setupShapeTextEvents_def bindShapeTextEvents_def on_def obj_set_def
        canvas_add_def updateTextPositionForShape_def new_object_def Let_def fabric_default_def)
  show "o_text (heap (createBoundTextForShape shape st) (nextId st)) = []"
    and "o_isPlaceholder (heap (createBoundTextForShape shape st) (nextId st)) = False"
    and "o_fill (heap (createBoundTextForShape shape st) (nextId st)) = textColor st"
    and "o_fontStyle (heap (createBoundTextForShape shape st) (nextId st)) = ''normal''"
    and "o_listeners (heap (createBoundTextForShape shape st) (nextId st))
         = [(''editing:exited'', ShapeText_exited), (''removed'', ShapeText_removed)]"
    by (simp_all add: eq setActiveObject_other [OF ne act] setActiveObject_static f)
qed

text \<open>
  A text box whose only editing listener is the \<open>editing:exited\<close> handler of
  \<open>setupShapeTextEvents\<close>: entering and leaving edit mode write no object.
\<close>

lemma shape_text_editing:
  assumes "listeners_for ''editing:entered'' (heap st tb) = []"
    and "listeners_for ''editing:exited'' (heap st tb) = [ShapeText_exited]"
  shows "heap (enterEditing tb st) = heap st" and "heap (exitEditing tb st) = heap st"
  using assms
  by (simp_all add: enterEditing_def exitEditing_def fire_edit_def run_edit_handler_def Let_def
      split: option.splits)

lemma setupRestoredTextBox_fields:
  "o_text (heap (setupRestoredTextBox tb st) j) = o_text (heap st j)"
  "o_fill (heap (setupRestoredTextBox tb st) j) = o_fill (heap st j)"
  "o_fontStyle (heap (setupRestoredTextBox tb st) j) = o_fontStyle (heap st j)"
  "o_isPlaceholder (heap (setupRestoredTextBox tb st) j) = o_isPlaceholder (heap st j)"
  "text_is_blank (heap (setupRestoredTextBox tb st) j) = text_is_blank (heap st j)"
  "cv_activeObject (setupRestoredTextBox tb st) = cv_activeObject st"
  by (simp_all add: setupRestoredTextBox_def on_def obj_set_def Let_def text_is_blank_def)

lemma setupRestoredTextBox_listeners:
  assumes "o_listeners (heap st tb) = []"
  shows "listeners_for ''editing:entered'' (heap (setupRestoredTextBox tb st) tb)
         = [Restored_entered]"
    and "listeners_for ''editing:exited'' (heap (setupRestoredTextBox tb st) tb)
         = [Restored_exited]"
  using assms
  by (simp_all add: setupRestoredTextBox_def Let_def on_def obj_set_def listeners_for_def)

text \<open>The four handlers of the placeholder lifecycle, run on their own object.\<close>

lemma entered_clears:
  assumes "o_isPlaceholder (heap st tb)"
  shows "o_text (heap (run_edit_handler tb TextBox_entered st) tb) = []"
    and "o_fill (heap (run_edit_handler tb TextBox_entered st) tb) = textColor st"
    and "o_fontStyle (heap (run_edit_handler tb TextBox_entered st) tb) = ''normal''"
    and "\<not> o_isPlaceholder (heap (run_edit_handler tb TextBox_entered st) tb)"
    and "o_text (heap (run_edit_handler tb BubbleText_entered st) tb) = []"
    and "o_fill (heap (run_edit_handler tb BubbleText_entered st) tb) = textColor st"
    and "o_fontStyle (heap (run_edit_handler tb BubbleText_entered st) tb) = ''normal''"
    and "\<not> o_isPlaceholder (heap (run_edit_handler tb BubbleText_entered st) tb)"
    and "o_text (heap (run_edit_handler tb Restored_entered st) tb) = []"
    and "o_fill (heap (run_edit_handler tb Restored_entered st) tb) = ''#000000''"
    and "o_fontStyle (heap (run_edit_handler tb Restored_entered st) tb) = ''normal''"
    and "\<not> o_isPlaceholder (heap (run_edit_handler tb Restored_entered st) tb)"
  using assms by (simp_all add: run_edit_handler_def obj_set_def Let_def)

lemma exited_restores:
  assumes "text_is_blank (heap st tb)" and "h \<in> {TextBox_exited, BubbleText_exited, Restored_exited}"
  shows "o_text (heap (run_edit_handler tb h st) tb) = placeholderText"
    and "o_fill (heap (run_edit_handler tb h st) tb) = ''#999999''"
    and "o_fontStyle (heap (run_edit_handler tb h st) tb) = ''italic''"
    and "o_isPlaceholder (heap (run_edit_handler tb h st) tb)"
  using assms
  by (auto simp add: run_edit_handler_def obj_set_def Let_def set_placeholder_def
      split: option.splits)

lemma ShapeText_exited_heap: "heap (run_edit_handler tb ShapeText_exited st) = heap st"
  by (simp add: run_edit_handler_def Let_def split: option.splits)

text \<open>
  Claim C8, as amended. On a text box with the listeners of \<open>setupTextBoxEvents\<close> (free
  text), of \<open>setupBubbleTextEvents\<close> (bubble text) or of \<open>setupRestoredTextBox\<close> (every text
  box but bubble text after a restore, so also restored shape-bound text, which then gets
  the listeners of \<open>setupShapeTextEvents\<close> on top), entering edit mode with the placeholder
  flag set empties the text, gives it the normal colour and style and clears the flag;
  leaving edit mode with blank text (empty, or white space only) restores the placeholder
  text, the grey italic style and the flag. The normal colour is \<open>textColor\<close> for free and
  bubble text and black for restored text. On a text box that has the listeners of
  \<open>setupShapeTextEvents\<close> only, entering and leaving edit mode change no object; the text
  box that \<open>createBoundTextForShape\<close> makes for a drawn shape is such a one, and it is
  created empty with the flag not set, so it stays empty.
\<close>

theorem C8_placeholder_lifecycle:
  assumes "o_listeners (heap st tb) = []"
    and "shape \<noteq> nextId dr" and "cv_activeObject dr \<noteq> Some (nextId dr)"
  shows "(o_isPlaceholder (heap st tb) \<longrightarrow>
            o_text (heap (enterEditing tb (setupTextBoxEvents tb st)) tb) = []
          \<and> o_fill (heap (enterEditing tb (setupTextBoxEvents tb st)) tb) = textColor st
          \<and> o_fontStyle (heap (enterEditing tb (setupTextBoxEvents tb st)) tb) = ''normal''
          \<and> \<not> o_isPlaceholder (heap (enterEditing tb (setupTextBoxEvents tb st)) tb))
       \<and> (text_is_blank (heap st tb) \<longrightarrow>
            o_text (heap (exitEditing tb (setupTextBoxEvents tb st)) tb) = placeholderText
          \<and> o_fill (heap (exitEditing tb (setupTextBoxEvents tb st)) tb) = ''#999999''
          \<and> o_fontStyle (heap (exitEditing tb (setupTextBoxEvents tb st)) tb) = ''italic''
          \<and> o_isPlaceholder (heap (exitEditing tb (setupTextBoxEvents tb st)) tb))
       \<and> (o_isPlaceholder (heap st tb) \<longrightarrow>
            o_text (heap (enterEditing tb (setupBubbleTextEvents tb st)) tb) = []
          \<and> o_fill (heap (enterEditing tb (setupBubbleTextEvents tb st)) tb) = textColor st
          \<and> o_fontStyle (heap (enterEditing tb (setupBubbleTextEvents tb st)) tb) = ''normal''
          \<and> \<not> o_isPlaceholder (heap (enterEditing tb (setupBubbleTextEvents tb st)) tb))
       \<and> (text_is_blank (heap st tb) \<longrightarrow>
            o_text (heap (exitEditing tb (setupBubbleTextEvents tb st)) tb) = placeholderText
          \<and> o_fill (heap (exitEditing tb (setupBubbleTextEvents tb st)) tb) = ''#999999''
          \<and> o_fontStyle (heap (exitEditing tb (setupBubbleTextEvents tb st)) tb) = ''italic''
          \<and> o_isPlaceholder (heap (exitEditing tb (setupBubbleTextEvents tb st)) tb))
       \<and> (o_isPlaceholder (heap st tb) \<longrightarrow>
            o_text (heap (enterEditing tb (setupRestoredTextBox tb st)) tb) = []
          \<and> o_fill (heap (enterEditing tb (setupRestoredTextBox tb st)) tb) = ''#000000''
          \<and> o_fontStyle (heap (enterEditing tb (setupRestoredTextBox tb st)) tb) = ''normal''
          \<and> \<not> o_isPlaceholder (heap (enterEditing tb (setupRestoredTextBox tb st)) tb))
       \<and> (text_is_blank (heap st tb) \<longrightarrow>
            o_text (heap (exitEditing tb (setupRestoredTextBox tb st)) tb) = placeholderText
          \<and> o_fill (heap (exitEditing tb (setupRestoredTextBox tb st)) tb) = ''#999999''
          \<and> o_fontStyle (heap (exitEditing tb (setupRestoredTextBox tb st)) tb) = ''italic''
          \<and> o_isPlaceholder (heap (exitEditing tb (setupRestoredTextBox tb st)) tb))
       \<and> (o_isPlaceholder (heap st tb) \<longrightarrow>
            o_text (heap (enterEditing tb
              (setupShapeTextEvents tb (setupRestoredTextBox tb st))) tb) = []
          \<and> o_fill (heap (enterEditing tb
              (setupShapeTextEvents tb (setupRestoredTextBox tb st))) tb) = ''#000000''
          \<and> o_fontStyle (heap (enterEditing tb
              (setupShapeTextEvents tb (setupRestoredTextBox tb st))) tb) = ''normal''
          \<and> \<not> o_isPlaceholder (heap (enterEditing tb
              (setupShapeTextEvents tb (setupRestoredTextBox tb st))) tb))
       \<and> (text_is_blank (heap st tb) \<longrightarrow>
            o_text (heap (exitEditing tb
              (setupShapeTextEvents tb (setupRestoredTextBox tb st))) tb) = placeholderText
          \<and> o_fill (heap (exitEditing tb
              (setupShapeTextEvents tb (setupRestoredTextBox tb st))) tb) = ''#999999''
          \<and> o_fontStyle (heap (exitEditing tb
              (setupShapeTextEvents tb (setupRestoredTextBox tb st))) tb) = ''italic''
          \<and> o_isPlaceholder (heap (exitEditing tb
              (setupShapeTextEvents tb (setupRestoredTextBox tb st))) tb))
       \<and> heap (enterEditing tb (setupShapeTextEvents tb st)) = heap (setupShapeTextEvents tb st)
       \<and> heap (exitEditing tb (setupShapeTextEvents tb st)) = heap (setupShapeTextEvents tb st)
       \<and> o_text (heap (createBoundTextForShape shape dr) (nextId dr)) = []
       \<and> o_isPlaceholder (heap (createBoundTextForShape shape dr) (nextId dr)) = False
       \<and> heap (enterEditing (nextId dr) (createBoundTextForShape shape dr))
           = heap (createBoundTextForShape shape dr)
       \<and> heap (exitEditing (nextId dr) (createBoundTextForShape shape dr))
           = heap (createBoundTextForShape shape dr)"
proof -
  note fresh = listeners_for_fresh [OF assms(1)]
  let ?F = "setupTextBoxEvents tb st" and ?B = "setupBubbleTextEvents tb st"
  let ?R = "setupRestoredTextBox tb st"
  let ?RS = "setupShapeTextEvents tb (setupRestoredTextBox tb st)"
  let ?S = "setupShapeTextEvents tb st"
  let ?D = "createBoundTextForShape shape dr"
  have free_in: "listeners_for ''editing:entered'' (heap ?F tb) = [TextBox_entered]"
    and free_out: "listeners_for ''editing:exited'' (heap ?F tb) = [TextBox_exited]"
    and bubble_in: "listeners_for ''editing:entered'' (heap ?B tb) = [BubbleText_entered]"
    and bubble_out: "listeners_for ''editing:exited'' (heap ?B tb) = [BubbleText_exited]"
    and shape_in: "listeners_for ''editing:entered'' (heap ?S tb) = []"
    and shape_out: "listeners_for ''editing:exited'' (heap ?S tb) = [ShapeText_exited]"
    by (simp_all add: setupTextBoxEvents_def setupBubbleTextEvents_def
        setupShapeTextEvents_def listeners_for_on fresh)
  have rest_in: "listeners_for ''editing:entered'' (heap ?R tb) = [Restored_entered]"
    and rest_out: "listeners_for ''editing:exited'' (heap ?R tb) = [Restored_exited]"
    using setupRestoredTextBox_listeners [OF assms(1)] by simp_all
  have rs_in: "listeners_for ''editing:entered'' (heap ?RS tb) = [Restored_entered]"
    and rs_out: "listeners_for ''editing:exited'' (heap ?RS tb)
                 = [Restored_exited, ShapeText_exited]"
    by (simp_all add: setupShapeTextEvents_def listeners_for_on rest_in rest_out)
  have fF: "o_isPlaceholder (heap ?F tb) = o_isPlaceholder (heap st tb)"
    "text_is_blank (heap ?F tb) = text_is_blank (heap st tb)" "textColor ?F = textColor st"
    and fB: "o_isPlaceholder (heap ?B tb) = o_isPlaceholder (heap st tb)"
    "text_is_blank (heap ?B tb) = text_is_blank (heap st tb)" "textColor ?B = textColor st"
    and fRS: "o_isPlaceholder (heap ?RS tb) = o_isPlaceholder (heap st tb)"
    "text_is_blank (heap ?RS tb) = text_is_blank (heap st tb)"
    by (simp_all add: setupTextBoxEvents_def setupBubbleTextEvents_def setupShapeTextEvents_def
        on_fields setupRestoredTextBox_fields)
  note fR = setupRestoredTextBox_fields(4,5) [of tb st tb]
  have c1: "o_isPlaceholder (heap st tb) \<longrightarrow>
            o_text (heap (enterEditing tb ?F) tb) = []
          \<and> o_fill (heap (enterEditing tb ?F) tb) = textColor st
          \<and> o_fontStyle (heap (enterEditing tb ?F) tb) = ''normal''
          \<and> \<not> o_isPlaceholder (heap (enterEditing tb ?F) tb)"
    using entered_clears(1-4) [of ?F tb]
    by (simp add: enterEditing_def fire_edit_def free_in fF)
  have c2: "text_is_blank (heap st tb) \<longrightarrow>
            o_text (heap (exitEditing tb ?F) tb) = placeholderText
          \<and> o_fill (heap (exitEditing tb ?F) tb) = ''#999999''
          \<and> o_fontStyle (heap (exitEditing tb ?F) tb) = ''italic''
          \<and> o_isPlaceholder (heap (exitEditing tb ?F) tb)"
    using exited_restores [of ?F tb TextBox_exited]
    by (simp add: exitEditing_def fire_edit_def free_out fF)
  have c3: "o_isPlaceholder (heap st tb) \<longrightarrow>
            o_text (heap (enterEditing tb ?B) tb) = []
          \<and> o_fill (heap (enterEditing tb ?B) tb) = textColor st
          \<and> o_fontStyle (heap (enterEditing tb ?B) tb) = ''normal''
          \<and> \<not> o_isPlaceholder (heap (enterEditing tb ?B) tb)"
    using entered_clears(5-8) [of ?B tb]
    by (simp add: enterEditing_def fire_edit_def bubble_in fB)
  have c4: "text_is_blank (heap st tb) \<longrightarrow>
            o_text (heap (exitEditing tb ?B) tb) = placeholderText
          \<and> o_fill (heap (exitEditing tb ?B) tb) = ''#999999''
          \<and> o_fontStyle (heap (exitEditing tb ?B) tb) = ''italic''
          \<and> o_isPlaceholder (heap (exitEditing tb ?B) tb)"
    using exited_restores [of ?B tb BubbleText_exited]
    by (simp add: exitEditing_def fire_edit_def bubble_out fB)
  have c5: "o_isPlaceholder (heap st tb) \<longrightarrow>
            o_text (heap (enterEditing tb ?R) tb) = []
          \<and> o_fill (heap (enterEditing tb ?R) tb) = ''#000000''
          \<and> o_fontStyle (heap (enterEditing tb ?R) tb) = ''normal''
          \<and> \<not> o_isPlaceholder (heap (enterEditing tb ?R) tb)"
    using entered_clears(9-12) [of ?R tb]
    by (simp add: enterEditing_def fire_edit_def rest_in fR)
  have c6: "text_is_blank (heap st tb) \<longrightarrow>
            o_text (heap (exitEditing tb ?R) tb) = placeholderText
          \<and> o_fill (heap (exitEditing tb ?R) tb) = ''#999999''
          \<and> o_fontStyle (heap (exitEditing tb ?R) tb) = ''italic''
          \<and> o_isPlaceholder (heap (exitEditing tb ?R) tb)"
    using exited_restores [of ?R tb Restored_exited]
    by (simp add: exitEditing_def fire_edit_def rest_out fR)
  have c7: "o_isPlaceholder (heap st tb) \<longrightarrow>
            o_text (heap (enterEditing tb ?RS) tb) = []
          \<and> o_fill (heap (enterEditing tb ?RS) tb) = ''#000000''
          \<and> o_fontStyle (heap (enterEditing tb ?RS) tb) = ''normal''
          \<and> \<not> o_isPlaceholder (heap (enterEditing tb ?RS) tb)"
    using entered_clears(9-12) [of ?RS tb]
    by (simp add: enterEditing_def fire_edit_def rs_in fRS)
  have c8: "text_is_blank (heap st tb) \<longrightarrow>
            o_text (heap (exitEditing tb ?RS) tb) = placeholderText
          \<and> o_fill (heap (exitEditing tb ?RS) tb) = ''#999999''
          \<and> o_fontStyle (heap (exitEditing tb ?RS) tb) = ''italic''
          \<and> o_isPlaceholder (heap (exitEditing tb ?RS) tb)"
    using exited_restores [of ?RS tb Restored_exited]
    by (simp add: exitEditing_def fire_edit_def rs_out fRS ShapeText_exited_heap)
  have c9: "heap (enterEditing tb ?S) = heap ?S" and c10: "heap (exitEditing tb ?S) = heap ?S"
    using shape_in shape_out by (rule shape_text_editing)+
  note D = createBoundTextForShape_text [OF assms(2,3)]
  have d_in: "listeners_for ''editing:entered'' (heap ?D (nextId dr)) = []"
    and d_out: "listeners_for ''editing:exited'' (heap ?D (nextId dr)) = [ShapeText_exited]"
    by (simp_all add: listeners_for_def D(5))
  have c11: "heap (enterEditing (nextId dr) ?D) = heap ?D"
    and c12: "heap (exitEditing (nextId dr) ?D) = heap ?D"
    using d_in d_out by (rule shape_text_editing)+
  show ?thesis
    using c1 c2 c3 c4 c5 c6 c7 c8 c9 c10 c11 c12 D(1,2) by blast
qed

text \<open>
  Claim C7, counterexample to "width<60 or height<40 is snapped to the default size": the
  rectangle dragged from (10, 10) to (60, 210) is 50 by 200 before pointer-up and 100 by
  200 after it, not the default 100 by 80.
\<close>

theorem C7_counterexample:
  "o_width (heap (dragging ''rect'' (10, 10) (60, 210) editor0) 0) = 50
   \<and> o_height (heap (dragging ''rect'' (10, 10) (60, 210) editor0) 0) = 200
   \<and> o_width (heap (drag ''rect'' (10, 10) (60, 210) editor0) 0) = 100
   \<and> o_height (heap (drag ''rect'' (10, 10) (60, 210) editor0) 0) = 200"
  by (simp add: eval_defs cong: let_weak_cong)

text \<open>
  Claim C7, witness: the rectangle dragged from (10, 10) to (60, 210), at the moment
  before the pointer is released.
\<close>

theorem C7_pointer_up_snaps_each_dimension_witness:
  "isDrawingShape (dragging ''rect'' (10, 10) (60, 210) editor0)
   \<and> currentShape (dragging ''rect'' (10, 10) (60, 210) editor0) = Some 0
   \<and> 0 < nextId (dragging ''rect'' (10, 10) (60, 210) editor0)
   \<and> currentTool (dragging ''rect'' (10, 10) (60, 210) editor0)
        \<in> set [''rect'', ''circle'', ''triangle'']
   \<and> o_type (heap (dragging ''rect'' (10, 10) (60, 210) editor0) 0) \<noteq> ''ellipse''
   \<and> o_width (heap (onMouseUp (dragging ''rect'' (10, 10) (60, 210) editor0)) 0)
       = (if o_width (heap (dragging ''rect'' (10, 10) (60, 210) editor0) 0) < 60 then 100
          else o_width (heap (dragging ''rect'' (10, 10) (60, 210) editor0) 0))
   \<and> o_height (heap (onMouseUp (dragging ''rect'' (10, 10) (60, 210) editor0)) 0)
       = (if o_height (heap (dragging ''rect'' (10, 10) (60, 210) editor0) 0) < 40 then 80
          else o_height (heap (dragging ''rect'' (10, 10) (60, 210) editor0) 0))"
proof -
  have h1: "isDrawingShape (dragging ''rect'' (10, 10) (60, 210) editor0)"
    and h2: "currentShape (dragging ''rect'' (10, 10) (60, 210) editor0) = Some 0"
    and h3: "0 < nextId (dragging ''rect'' (10, 10) (60, 210) editor0)"
    and h4: "currentTool (dragging ''rect'' (10, 10) (60, 210) editor0)
               \<in> set [''rect'', ''circle'', ''triangle'']"
    and h5: "o_type (heap (dragging ''rect'' (10, 10) (60, 210) editor0) 0) \<noteq> ''ellipse''"
    by (simp_all add: eval_defs cong: let_weak_cong)
  show ?thesis
    using C7_pointer_up_snaps_each_dimension [OF h1 h2 h3] h1 h2 h3 h4 h5 by blast
qed

text \<open>
  Claim C8, counterexample for shape-bound text: the text bound to a rectangle drawn from
  (10, 10) to (110, 90) is empty; after leaving edit mode it is still empty and its
  placeholder flag is still false.
\<close>

theorem C8_counterexample:
  "o_shapeType (heap (drag ''rect'' (10, 10) (110, 90) editor0) 1) = Some ''shapeText''
   \<and> o_boundShape (heap (drag ''rect'' (10, 10) (110, 90) editor0) 1) = Some 0
   \<and> o_text (heap (drag ''rect'' (10, 10) (110, 90) editor0) 1) = []
   \<and> o_text (heap (exitEditing 1 (drag ''rect'' (10, 10) (110, 90) editor0)) 1) = []
   \<and> o_isPlaceholder (heap (exitEditing 1 (drag ''rect'' (10, 10) (110, 90) editor0)) 1) = False
   \<and> placeholderText \<noteq> []"
  by (simp add: eval_defs cong: let_weak_cong)

text \<open>
  Claim C8, witness: the text box that \<open>createTextBox\<close> makes at (10, 10), which is an
  empty placeholder without listeners; and the rectangle being drawn from (10, 10) to
  (110, 90), id 0, whose text gets the id 1.
\<close>

theorem C8_placeholder_lifecycle_witness:
  "o_listeners (heap (createTextBox (10, 10) editor0) 0) = []
   \<and> (0::nat) \<noteq> nextId (dragging ''rect'' (10, 10) (110, 90) editor0)
   \<and> cv_activeObject (dragging ''rect'' (10, 10) (110, 90) editor0)
        \<noteq> Some (nextId (dragging ''rect'' (10, 10) (110, 90) editor0))
   \<and> o_isPlaceholder (heap (createTextBox (10, 10) editor0) 0)
   \<and> text_is_blank (heap (createTextBox (10, 10) editor0) 0)
   \<and> o_text (heap (enterEditing 0 (setupTextBoxEvents 0 (createTextBox (10, 10) editor0))) 0) = []
   \<and> \<not> o_isPlaceholder
         (heap (enterEditing 0 (setupTextBoxEvents 0 (createTextBox (10, 10) editor0))) 0)
   \<and> o_text (heap (exitEditing 0 (setupTextBoxEvents 0 (createTextBox (10, 10) editor0))) 0)
       = placeholderText
   \<and> o_isPlaceholder
         (heap (exitEditing 0 (setupTextBoxEvents 0 (createTextBox (10, 10) editor0))) 0)
   \<and> o_text (heap (exitEditing 0
         (setupShapeTextEvents 0 (setupRestoredTextBox 0 (createTextBox (10, 10) editor0)))) 0)
       = placeholderText
   \<and> nextId (dragging ''rect'' (10, 10) (110, 90) editor0) = 1
   \<and> o_text (heap (createBoundTextForShape 0 (dragging ''rect'' (10, 10) (110, 90) editor0))
         (nextId (dragging ''rect'' (10, 10) (110, 90) editor0))) = []
   \<and> heap (exitEditing (nextId (dragging ''rect'' (10, 10) (110, 90) editor0))
         (createBoundTextForShape 0 (dragging ''rect'' (10, 10) (110, 90) editor0)))
       = heap (createBoundTextForShape 0 (dragging ''rect'' (10, 10) (110, 90) editor0))"
proof -
  let ?st = "createTextBox (10, 10) editor0"
  let ?dr = "dragging ''rect'' (10, 10) (110, 90) editor0"
  have h1: "o_listeners (heap ?st 0) = []"
    and h2: "o_isPlaceholder (heap ?st 0)"
    and h3: "text_is_blank (heap ?st 0)"
    and h4: "(0::nat) \<noteq> nextId ?dr"
    and h5: "cv_activeObject ?dr \<noteq> Some (nextId ?dr)"
    and v: "nextId ?dr = 1"
    by (simp_all add: eval_defs cong: let_weak_cong)
  show ?thesis
    using C8_placeholder_lifecycle [OF h1 h4 h5] h1 h2 h3 h4 h5 v by blast
qed

definition bubble_and_text :: ToolsManager where
  "bubble_and_text =
     new_object (fabric_default\<lparr>o_type := ''textbox'', o_originCenter := True\<rparr>)
       (createBubble (10, 10) editor0)"

text \<open>
  Claim C6, witness: a bubble created at (10, 10) and a centred text box, in the sample
  geometry. The bubble's centre is (85, 57.5).
\<close>

theorem C6_sync_sets_centre_scale_rotation_witness:
  "(0::nat) \<noteq> 1
   \<and> getCenterPoint bubble_and_text = box_center
   \<and> o_originCenter (heap bubble_and_text 1)
   \<and> getCenterPoint bubble_and_text (heap bubble_and_text 0) = (85, 115 / 2)
   \<and> o_left (heap (updateTextPositionForBubble 0 1 bubble_and_text) 1)
       = fst (getCenterPoint bubble_and_text (heap bubble_and_text 0))
   \<and> o_top (heap (updateTextPositionForBubble 0 1 bubble_and_text) 1)
       = snd (getCenterPoint bubble_and_text (heap bubble_and_text 0))
         - (or_default (o_tailSize (heap bubble_and_text 0)) 15 / 2)
           * o_scaleY (heap bubble_and_text 0)
   \<and> updateTextPositionForBubble 0 1 (updateTextPositionForBubble 0 1 bubble_and_text)
       = updateTextPositionForBubble 0 1 bubble_and_text
   \<and> getCenterPoint bubble_and_text (heap (updateTextPositionForShape 0 1 bubble_and_text) 1)
       = getCenterPoint bubble_and_text (heap bubble_and_text 0)"
proof -
  have h1: "(0::nat) \<noteq> 1"
    by simp
  have h2: "\<forall>obj. o_originCenter obj \<longrightarrow>
         getCenterPoint bubble_and_text obj = (o_left obj, o_top obj)"
    and h3: "o_originCenter (heap bubble_and_text 1)"
    and v: "getCenterPoint bubble_and_text (heap bubble_and_text 0) = (85, 115 / 2)"
    and g: "getCenterPoint bubble_and_text = box_center"
    by (simp_all add: bubble_and_text_def eval_defs cong: let_weak_cong)
  show ?thesis
    using C6_sync_sets_centre_scale_rotation [OF h1, of bubble_and_text] h1 h2 h3 v g by blast
qed

lemma canvas_remove_absent:
  "x \<notin> set (cv_objects st) \<Longrightarrow> canvas_remove x st = st"
  by (simp add: canvas_remove.simps)


lemma canvas_remove_shape:
  assumes "shape_pair st c t" and "distinct (cv_objects st)" and "c \<in> set (cv_objects st)"
  shows "canvas_remove c st = st\<lparr>cv_objects := remove1 t (remove1 c (cv_objects st))\<rparr>"
proof -
  let ?st1 = "st\<lparr>cv_objects := remove1 c (cv_objects st)\<rparr>"
  have gone: "c \<notin> set (remove1 t (remove1 c (cv_objects st)))"
    using assms(2) by (simp add: set_remove1_eq distinct_remove1)
  have inner: "canvas_remove t ?st1 = ?st1\<lparr>cv_objects := remove1 t (cv_objects ?st1)\<rparr>"
  proof (cases "t \<in> set (cv_objects ?st1)")
    case True
    then show ?thesis
      using assms(1) gone by (simp add: canvas_remove.simps [of t] shape_pair_def)
  next
    case False
    then show ?thesis
      by (simp add: canvas_remove_absent remove1_idem)
  qed
  have "canvas_remove c st =
        (if t \<in> set (cv_objects ?st1) then canvas_remove t ?st1 else ?st1)"
    using assms(1,3) by (simp add: canvas_remove.simps [of c] shape_pair_def)
  also have "\<dots> = canvas_remove t ?st1"
    by (simp add: canvas_remove_absent)
  finally show ?thesis
    by (simp add: inner)
qed

lemma canvas_remove_shapeText:
  assumes "shape_pair st c t" and "distinct (cv_objects st)" and "t \<in> set (cv_objects st)"
  shows "canvas_remove t st = st\<lparr>cv_objects := remove1 c (remove1 t (cv_objects st))\<rparr>"
proof -
  let ?st1 = "st\<lparr>cv_objects := remove1 t (cv_objects st)\<rparr>"
  have gone: "t \<notin> set (remove1 c (remove1 t (cv_objects st)))"
    using assms(2) by (simp add: set_remove1_eq distinct_remove1)
  have inner: "canvas_remove c ?st1 = ?st1\<lparr>cv_objects := remove1 c (cv_objects ?st1)\<rparr>"
  proof (cases "c \<in> set (cv_objects ?st1)")
    case True
    then show ?thesis
      using assms(1) gone by (simp add: canvas_remove.simps [of c] shape_pair_def)
  next
    case False
    then show ?thesis
      by (simp add: canvas_remove_absent remove1_idem)
  qed
  have "canvas_remove t st =
        (if c \<in> set (cv_objects ?st1) then canvas_remove c ?st1 else ?st1)"
    using assms(1,3) by (simp add: canvas_remove.simps [of t] shape_pair_def)
  also have "\<dots> = canvas_remove c ?st1"
    by (simp add: canvas_remove_absent)
  finally show ?thesis
    by (simp add: inner)
qed

lemma canvas_remove_bubble:
  assumes "bubble_pair st c t" and "distinct (cv_objects st)" and "c \<in> set (cv_objects st)"
  shows "canvas_remove c st = st\<lparr>cv_objects := remove1 t (remove1 c (cv_objects st))\<rparr>"
proof -
  let ?st1 = "st\<lparr>cv_objects := remove1 c (cv_objects st)\<rparr>"
  have gone: "c \<notin> set (remove1 t (remove1 c (cv_objects st)))"
    using assms(2) by (simp add: set_remove1_eq distinct_remove1)
  have inner: "canvas_remove t ?st1 = ?st1\<lparr>cv_objects := remove1 t (cv_objects ?st1)\<rparr>"
  proof (cases "t \<in> set (cv_objects ?st1)")
    case True
    then show ?thesis
      using assms(1) gone by (simp add: canvas_remove.simps [of t] bubble_pair_def)
  next
    case False
    then show ?thesis
      by (simp add: canvas_remove_absent remove1_idem)
  qed
  have "canvas_remove c st =
        (if t \<in> set (cv_objects ?st1) then canvas_remove t ?st1 else ?st1)"
    using assms(1,3) by (simp add: canvas_remove.simps [of c] bubble_pair_def)
  also have "\<dots> = canvas_remove t ?st1"
    by (simp add: canvas_remove_absent)
  finally show ?thesis
    by (simp add: inner)
qed

lemma canvas_remove_bubbleText:
  assumes "bubble_pair st c t" and "distinct (cv_objects st)" and "t \<in> set (cv_objects st)"
  shows "canvas_remove t st = st\<lparr>cv_objects := remove1 c (remove1 t (cv_objects st))\<rparr>"
proof -
  let ?st1 = "st\<lparr>cv_objects := remove1 t (cv_objects st)\<rparr>"
  have gone: "t \<notin> set (remove1 c (remove1 t (cv_objects st)))"
    using assms(2) by (simp add: set_remove1_eq distinct_remove1)
  have inner: "canvas_remove c ?st1 = ?st1\<lparr>cv_objects := remove1 c (cv_objects ?st1)\<rparr>"
  proof (cases "c \<in> set (cv_objects ?st1)")
    case True
    then show ?thesis
      using assms(1) gone by (simp add: canvas_remove.simps [of c] bubble_pair_def)
  next
    case False
    then show ?thesis
      by (simp add: canvas_remove_absent remove1_idem)
  qed
  have "canvas_remove t st =
        (if c \<in> set (cv_objects ?st1) then canvas_remove c ?st1 else ?st1)"
    using assms(1,3) by (simp add: canvas_remove.simps [of t] bubble_pair_def)
  also have "\<dots> = canvas_remove c ?st1"
    by (simp add: canvas_remove_absent)
  finally show ?thesis
    by (simp add: inner)
qed

lemma canvas_remove_container:
  assumes "bound_pair st c t" and "distinct (cv_objects st)" and "c \<in> set (cv_objects st)"
  shows "canvas_remove c st = st\<lparr>cv_objects := remove1 t (remove1 c (cv_objects st))\<rparr>"
  using assms canvas_remove_shape canvas_remove_bubble by (auto simp add: bound_pair_def)

lemma canvas_remove_text:
  assumes "bound_pair st c t" and "distinct (cv_objects st)" and "t \<in> set (cv_objects st)"
  shows "canvas_remove t st = st\<lparr>cv_objects := remove1 c (remove1 t (cv_objects st))\<rparr>"
  using assms canvas_remove_shapeText canvas_remove_bubbleText by (auto simp add: bound_pair_def)

lemma bound_pair_cv_objects [simp]:
  "bound_pair (st\<lparr>cv_objects := ys\<rparr>) c t = bound_pair st c t"
  by (simp add: bound_pair_def shape_pair_def bubble_pair_def)

lemma bound_pair_text_unique:
  "bound_pair st c t \<Longrightarrow> bound_pair st c t' \<Longrightarrow> t = t'"
  by (auto simp add: bound_pair_def shape_pair_def bubble_pair_def)

lemma bound_pair_container_unique:
  "bound_pair st c t \<Longrightarrow> bound_pair st c' t \<Longrightarrow> c = c'"
  by (auto simp add: bound_pair_def shape_pair_def bubble_pair_def)

lemma bound_pair_roles:
  "bound_pair st c t \<Longrightarrow> bound_pair st c' c \<Longrightarrow> False"
  by (auto simp add: bound_pair_def shape_pair_def bubble_pair_def)

lemma bound_pair_listeners:
  "bound_pair st c t \<Longrightarrow> listeners_for ''removed'' (heap st c) \<noteq> []"
  "bound_pair st c t \<Longrightarrow> listeners_for ''removed'' (heap st t) \<noteq> []"
  by (auto simp add: bound_pair_def shape_pair_def bubble_pair_def)








text \<open>
  Claim C10. \<open>canvas_remove\<close> is a total function: its termination is proved where it is
  defined. For a bound pair with both members in the collection (each object there once),
  removing the container runs the container's handler, which removes the text; the text's
  handler then finds the container gone and removes nothing more. Removing the text
  first goes the same way round. Either way exactly the two members leave the collection.
\<close>

theorem C10_cascade_removes_exactly_the_pair:
  assumes "bound_pair st c t" and "distinct (cv_objects st)"
    and "c \<in> set (cv_objects st)" and "t \<in> set (cv_objects st)"
  shows "canvas_remove c st = canvas_remove t (st\<lparr>cv_objects := remove1 c (cv_objects st)\<rparr>)
       \<and> canvas_remove t (st\<lparr>cv_objects := remove1 c (cv_objects st)\<rparr>)
           = st\<lparr>cv_objects := remove1 t (remove1 c (cv_objects st))\<rparr>
       \<and> canvas_remove t st = canvas_remove c (st\<lparr>cv_objects := remove1 t (cv_objects st)\<rparr>)
       \<and> canvas_remove c (st\<lparr>cv_objects := remove1 t (cv_objects st)\<rparr>)
           = st\<lparr>cv_objects := remove1 c (remove1 t (cv_objects st))\<rparr>
       \<and> set (cv_objects (canvas_remove c st)) = set (cv_objects st) - {c, t}
       \<and> set (cv_objects (canvas_remove t st)) = set (cv_objects st) - {c, t}
       \<and> length (cv_objects (canvas_remove c st)) + 2 = length (cv_objects st)
       \<and> length (cv_objects (canvas_remove t st)) + 2 = length (cv_objects st)"
proof -
  have ne: "c \<noteq> t"
    using assms(1) by (auto simp add: bound_pair_def shape_pair_def bubble_pair_def)
  let ?c = "st\<lparr>cv_objects := remove1 c (cv_objects st)\<rparr>"
  let ?t = "st\<lparr>cv_objects := remove1 t (cv_objects st)\<rparr>"
  have pc: "bound_pair ?c c t" and pt: "bound_pair ?t c t"
    using assms(1) by simp_all
  have dc: "distinct (cv_objects ?c)" and dt: "distinct (cv_objects ?t)"
    using assms(2) by simp_all
  have tc: "t \<in> set (cv_objects ?c)" and ct: "c \<in> set (cv_objects ?t)"
    using assms(3,4) ne by simp_all
  have cc: "c \<notin> set (cv_objects ?c)" and tt: "t \<notin> set (cv_objects ?t)"
    using assms(2) by simp_all
  have r1: "canvas_remove c st = st\<lparr>cv_objects := remove1 t (remove1 c (cv_objects st))\<rparr>"
    using canvas_remove_container [OF assms(1,2,3)] .
  have r2: "canvas_remove t st = st\<lparr>cv_objects := remove1 c (remove1 t (cv_objects st))\<rparr>"
    using canvas_remove_text [OF assms(1,2,4)] .
  have r3: "canvas_remove t ?c = st\<lparr>cv_objects := remove1 t (remove1 c (cv_objects st))\<rparr>"
    using canvas_remove_text [OF pc dc tc] cc by (simp add: remove1_idem)
  have r4: "canvas_remove c ?t = st\<lparr>cv_objects := remove1 c (remove1 t (cv_objects st))\<rparr>"
    using canvas_remove_container [OF pt dt ct] tt by (simp add: remove1_idem)
  have s1: "set (remove1 t (remove1 c (cv_objects st))) = set (cv_objects st) - {c, t}"
    and s2: "set (remove1 c (remove1 t (cv_objects st))) = set (cv_objects st) - {c, t}"
    using assms(2) by (auto simp add: set_remove1_eq distinct_remove1)
  have l1: "length (remove1 t (remove1 c (cv_objects st))) + 2 = length (cv_objects st)"
    using assms(3) tc length_pos_if_in_set [of c "cv_objects st"]
      length_pos_if_in_set [of t "remove1 c (cv_objects st)"]
    by (simp add: length_remove1)
  have l2: "length (remove1 c (remove1 t (cv_objects st))) + 2 = length (cv_objects st)"
    using assms(4) ct length_pos_if_in_set [of t "cv_objects st"]
      length_pos_if_in_set [of c "remove1 t (cv_objects st)"]
    by (simp add: length_remove1)
  show ?thesis
    using l1 l2 by (simp add: r1 r2 r3 r4 s1 s2)
qed


lemma bound_pair_cong2:
  assumes "o_boundText (heap st' c) = o_boundText (heap st c)"
    and "o_boundShape (heap st' t) = o_boundShape (heap st t)"
    and "o_boundBubble (heap st' t) = o_boundBubble (heap st t)"
    and "o_listeners (heap st' c) = o_listeners (heap st c)"
    and "o_listeners (heap st' t) = o_listeners (heap st t)"
  shows "bound_pair st' c t = bound_pair st c t"
  using assms by (simp add: bound_pair_def shape_pair_def bubble_pair_def listeners_for_def)

lemma createBoundTextForShape_fields:
  assumes "shape \<noteq> nextId st"
  shows "o_boundText (heap (createBoundTextForShape shape st) shape) = Some (nextId st)"
    and "o_boundShape (heap (createBoundTextForShape shape st) (nextId st)) = Some shape"
    and "listeners_for ''removed'' (heap (createBoundTextForShape shape st) shape)
           = listeners_for ''removed'' (heap st shape) @ [Shape_removed (nextId st)]"
    and "listeners_for ''removed'' (heap (createBoundTextForShape shape st) (nextId st)) = [ShapeText_removed]"
    and "nextId (createBoundTextForShape shape st) = nextId st + 1"
proof -
  show "o_boundText (heap (createBoundTextForShape shape st) shape) = Some (nextId st)"
    using assms by (simp add: createBoundTextForShape_def Let_def setActiveObject_static
      setActiveObject_objects setupShapeTextEvents_def bindShapeTextEvents_def on_def
      obj_set_def canvas_add_def updateTextPositionForShape_def new_object_def cong: let_weak_cong)
  show "o_boundShape (heap (createBoundTextForShape shape st) (nextId st)) = Some shape"
    using assms by (simp add: createBoundTextForShape_def Let_def setActiveObject_static
      setActiveObject_objects setupShapeTextEvents_def bindShapeTextEvents_def on_def
      obj_set_def canvas_add_def updateTextPositionForShape_def new_object_def cong: let_weak_cong)
  show "listeners_for ''removed'' (heap (createBoundTextForShape shape st) shape)
           = listeners_for ''removed'' (heap st shape) @ [Shape_removed (nextId st)]"
    using assms by (simp add: createBoundTextForShape_def Let_def setActiveObject_static
      setActiveObject_objects setupShapeTextEvents_def bindShapeTextEvents_def on_def
      obj_set_def canvas_add_def updateTextPositionForShape_def new_object_def listeners_for_def cong: let_weak_cong)
  show "listeners_for ''removed'' (heap (createBoundTextForShape shape st) (nextId st)) = [ShapeText_removed]"
    using assms by (simp add: createBoundTextForShape_def Let_def setActiveObject_static
      setActiveObject_objects setupShapeTextEvents_def bindShapeTextEvents_def on_def
      obj_set_def canvas_add_def updateTextPositionForShape_def new_object_def listeners_for_def fabric_default_def cong: let_weak_cong)
  show "nextId (createBoundTextForShape shape st) = nextId st + 1"
    using assms by (simp add: createBoundTextForShape_def Let_def setActiveObject_static
      setActiveObject_objects setupShapeTextEvents_def bindShapeTextEvents_def on_def
      obj_set_def canvas_add_def updateTextPositionForShape_def new_object_def cong: let_weak_cong)
qed

lemma createBoundTextForShape_others:
  assumes "shape \<noteq> nextId st" and "x \<noteq> shape" and "x \<noteq> nextId st"
  shows "o_boundText (heap (createBoundTextForShape shape st) x) = o_boundText (heap st x)
       \<and> o_boundShape (heap (createBoundTextForShape shape st) x) = o_boundShape (heap st x)
       \<and> o_boundBubble (heap (createBoundTextForShape shape st) x) = o_boundBubble (heap st x)
       \<and> o_listeners (heap (createBoundTextForShape shape st) x) = o_listeners (heap st x)"
  using assms by (simp add: createBoundTextForShape_def Let_def setActiveObject_static
      setActiveObject_objects setupShapeTextEvents_def bindShapeTextEvents_def on_def
      obj_set_def canvas_add_def updateTextPositionForShape_def new_object_def cong: let_weak_cong)

lemma createBoundTextForBubble_fields:
  assumes "bubble \<noteq> nextId st"
  shows "o_boundText (heap (createBoundTextForBubble bubble st) bubble) = Some (nextId st)"
    and "o_boundBubble (heap (createBoundTextForBubble bubble st) (nextId st)) = Some bubble"
    and "listeners_for ''removed'' (heap (createBoundTextForBubble bubble st) bubble)
           = listeners_for ''removed'' (heap st bubble) @ [Bubble_removed (nextId st)]"
    and "listeners_for ''removed'' (heap (createBoundTextForBubble bubble st) (nextId st)) = [BubbleText_removed]"
    and "nextId (createBoundTextForBubble bubble st) = nextId st + 1"
proof -
  show "o_boundText (heap (createBoundTextForBubble bubble st) bubble) = Some (nextId st)"
    using assms by (simp add: createBoundTextForBubble_def Let_def setActiveObject_static
      setActiveObject_objects setupBubbleTextEvents_def bindBubbleTextEvents_def on_def
      obj_set_def canvas_add_def updateTextPositionForBubble_def new_object_def cong: let_weak_cong)
  show "o_boundBubble (heap (createBoundTextForBubble bubble st) (nextId st)) = Some bubble"
    using assms by (simp add: createBoundTextForBubble_def Let_def setActiveObject_static
      setActiveObject_objects setupBubbleTextEvents_def bindBubbleTextEvents_def on_def
      obj_set_def canvas_add_def updateTextPositionForBubble_def new_object_def cong: let_weak_cong)
  show "listeners_for ''removed'' (heap (createBoundTextForBubble bubble st) bubble)
           = listeners_for ''removed'' (heap st bubble) @ [Bubble_removed (nextId st)]"
    using assms by (simp add: createBoundTextForBubble_def Let_def setActiveObject_static
      setActiveObject_objects setupBubbleTextEvents_def bindBubbleTextEvents_def on_def
      obj_set_def canvas_add_def updateTextPositionForBubble_def new_object_def listeners_for_def cong: let_weak_cong)
  show "listeners_for ''removed'' (heap (createBoundTextForBubble bubble st) (nextId st)) = [BubbleText_removed]"
    using assms by (simp add: createBoundTextForBubble_def Let_def setActiveObject_static
      setActiveObject_objects setupBubbleTextEvents_def bindBubbleTextEvents_def on_def
      obj_set_def canvas_add_def updateTextPositionForBubble_def new_object_def listeners_for_def fabric_default_def cong: let_weak_cong)
  show "nextId (createBoundTextForBubble bubble st) = nextId st + 1"
    using assms by (simp add: createBoundTextForBubble_def Let_def setActiveObject_static
      setActiveObject_objects setupBubbleTextEvents_def bindBubbleTextEvents_def on_def
      obj_set_def canvas_add_def updateTextPositionForBubble_def new_object_def cong: let_weak_cong)
qed

lemma createBoundTextForBubble_others:
  assumes "bubble \<noteq> nextId st" and "x \<noteq> bubble" and "x \<noteq> nextId st"
  shows "o_boundText (heap (createBoundTextForBubble bubble st) x) = o_boundText (heap st x)
       \<and> o_boundShape (heap (createBoundTextForBubble bubble st) x) = o_boundShape (heap st x)
       \<and> o_boundBubble (heap (createBoundTextForBubble bubble st) x) = o_boundBubble (heap st x)
       \<and> o_listeners (heap (createBoundTextForBubble bubble st) x) = o_listeners (heap st x)"
  using assms by (simp add: createBoundTextForBubble_def Let_def setActiveObject_static
      setActiveObject_objects setupBubbleTextEvents_def bindBubbleTextEvents_def on_def
      obj_set_def canvas_add_def updateTextPositionForBubble_def new_object_def cong: let_weak_cong)

text \<open>
  Adding one bound pair to a consistent state: \<open>st'\<close> has the new text \<open>n = nextId st\<close> on
  top of the collection, \<open>c\<close> and \<open>n\<close> form a pair, and the other objects keep their
  references and listeners.
\<close>

lemma new_pair_keeps_invariants:
  assumes pc: "pairs_consistent st" and nh: "no_half_pair st"
    and c_in: "c \<in> set (cv_objects st)"
    and c_free: "listeners_for ''removed'' (heap st c) = []"
    and objs: "cv_objects st' = cv_objects st @ [nextId st]"
    and nid: "nextId st' = nextId st + 1"
    and pair: "bound_pair st' c (nextId st)"
    and others: "\<And>x. x \<noteq> c \<Longrightarrow> x \<noteq> nextId st \<Longrightarrow>
           o_boundText (heap st' x) = o_boundText (heap st x)
         \<and> o_boundShape (heap st' x) = o_boundShape (heap st x)
         \<and> o_boundBubble (heap st' x) = o_boundBubble (heap st x)
         \<and> o_listeners (heap st' x) = o_listeners (heap st x)"
  shows "pairs_consistent st' \<and> no_half_pair st'"
proof -
  let ?n = "nextId st"
  have d: "distinct (cv_objects st)" and lt: "\<forall>x \<in> set (cv_objects st). x < ?n"
    using pc by (simp_all add: pairs_consistent_def)
  have c_lt: "c < ?n" using lt c_in by simp
  have n_out: "?n \<notin> set (cv_objects st)" using lt by auto
  have c_unpaired: "\<And>y. \<not> bound_pair st c y \<and> \<not> bound_pair st y c"
    using c_free bound_pair_listeners by blast
  have keep: "bound_pair st' x y = bound_pair st x y"
    if "x \<noteq> c" "x \<noteq> ?n" "y \<noteq> c" "y \<noteq> ?n" for x y
    using others [OF that(1,2)] others [OF that(3,4)] by (intro bound_pair_cong2) simp_all
  have only: "x = c \<and> y = ?n"
    if b: "bound_pair st' x y" and alt: "x = c \<or> x = ?n \<or> y = c \<or> y = ?n" for x y
  proof -
    consider "x = c" | "x = ?n" | "y = c" | "y = ?n" using alt by blast
    then show ?thesis
    proof cases
      case 1
      then show ?thesis using bound_pair_text_unique [OF pair, of y] b by simp
    next
      case 2
      then show ?thesis using bound_pair_roles [of st' ?n y c] b pair by simp
    next
      case 3
      then show ?thesis using bound_pair_roles [of st' c ?n x] b pair by simp
    next
      case 4
      then show ?thesis using bound_pair_container_unique [OF pair, of x] b by simp
    qed
  qed
  have 1: "distinct (cv_objects st')"
    using d n_out by (simp add: objs)
  have 2: "\<forall>x \<in> set (cv_objects st'). x < nextId st'"
    using lt by (auto simp add: objs nid)
  have 3: "\<forall>x \<in> set [0..<nextId st'].
             listeners_for ''removed'' (heap st' x) = []
             \<or> (\<exists>y \<in> set [0..<nextId st']. bound_pair st' x y \<or> bound_pair st' y x)"
  proof
    fix x assume x: "x \<in> set [0..<nextId st']"
    show "listeners_for ''removed'' (heap st' x) = []
          \<or> (\<exists>y \<in> set [0..<nextId st']. bound_pair st' x y \<or> bound_pair st' y x)"
    proof (cases "x = c \<or> x = ?n")
      case True
      then show ?thesis
        using pair c_lt by (auto simp add: nid)
    next
      case False
      then have xl: "x < ?n" using x by (simp add: nid)
      have same: "listeners_for ''removed'' (heap st' x) = listeners_for ''removed'' (heap st x)"
        using others [of x] False by (simp add: listeners_for_def)
      show ?thesis
      proof (cases "listeners_for ''removed'' (heap st x) = []")
        case True
        then show ?thesis using same by simp
      next
        case nonempty: False
        have "x \<in> set [0..<?n]" using xl by simp
        with pc nonempty obtain y where y: "y < ?n" "bound_pair st x y \<or> bound_pair st y x"
          unfolding pairs_consistent_def by fastforce
        then have "y \<noteq> c" "y \<noteq> ?n"
          using c_unpaired by auto
        then have "bound_pair st' x y \<or> bound_pair st' y x"
          using keep [of x y] keep [of y x] False y(2) by auto
        then show ?thesis
          using y(1) by (auto simp add: nid)
      qed
    qed
  qed
  have 4: "no_half_pair st'"
    unfolding no_half_pair_def
  proof (intro ballI impI)
    fix x y
    assume x: "x \<in> set [0..<nextId st']" and y: "y \<in> set [0..<nextId st']"
      and b: "bound_pair st' x y"
    show "(x \<in> set (cv_objects st')) = (y \<in> set (cv_objects st'))"
    proof (cases "x = c \<or> x = ?n \<or> y = c \<or> y = ?n")
      case True
      have "x = c \<and> y = ?n" by (rule only [OF b True])
      then show ?thesis using c_in by (simp add: objs)
    next
      case False
      have ne: "x \<noteq> c" "x \<noteq> ?n" "y \<noteq> c" "y \<noteq> ?n"
        using False by blast+
      have old: "bound_pair st x y"
        using keep [OF ne] b by blast
      have "x \<in> set [0..<?n]" "y \<in> set [0..<?n]"
        using x y ne by (auto simp add: nid)
      then have "(x \<in> set (cv_objects st)) = (y \<in> set (cv_objects st))"
        using nh old unfolding no_half_pair_def by blast
      then show ?thesis using ne by (simp add: objs)
    qed
  qed
  show ?thesis
    using 1 2 3 4 by (simp add: pairs_consistent_def)
qed

lemma createBoundTextForShape_invariants:
  assumes "pairs_consistent st" and "no_half_pair st"
    and "shape \<in> set (cv_objects st)"
    and "listeners_for ''removed'' (heap st shape) = []"
  shows "bound_pair (createBoundTextForShape shape st) shape (nextId st)
       \<and> pairs_consistent (createBoundTextForShape shape st)
       \<and> no_half_pair (createBoundTextForShape shape st)"
proof -
  have ne: "shape \<noteq> nextId st"
    using assms(1,3) by (auto simp add: pairs_consistent_def)
  note F = createBoundTextForShape_fields [OF ne]
  have pair: "bound_pair (createBoundTextForShape shape st) shape (nextId st)"
    using F(1-4) ne assms(4) by (simp add: bound_pair_def shape_pair_def)
  show ?thesis
    using new_pair_keeps_invariants [OF assms createBoundText_objects(1) F(5) pair createBoundTextForShape_others [OF ne]] pair
    by simp
qed

lemma createBoundTextForBubble_invariants:
  assumes "pairs_consistent st" and "no_half_pair st"
    and "bubble \<in> set (cv_objects st)"
    and "listeners_for ''removed'' (heap st bubble) = []"
  shows "bound_pair (createBoundTextForBubble bubble st) bubble (nextId st)
       \<and> pairs_consistent (createBoundTextForBubble bubble st)
       \<and> no_half_pair (createBoundTextForBubble bubble st)"
proof -
  have ne: "bubble \<noteq> nextId st"
    using assms(1,3) by (auto simp add: pairs_consistent_def)
  note F = createBoundTextForBubble_fields [OF ne]
  have pair: "bound_pair (createBoundTextForBubble bubble st) bubble (nextId st)"
    using F(1-4) ne assms(4) by (simp add: bound_pair_def bubble_pair_def)
  show ?thesis
    using new_pair_keeps_invariants [OF assms createBoundText_objects(2) F(5) pair createBoundTextForBubble_others [OF ne]] pair
    by simp
qed

lemmas pair_defs = bound_pair_def shape_pair_def bubble_pair_def pairs_consistent_def
  no_half_pair_def scene_rect_def scene_rect_bubble_def

text \<open>
  Claim C10, witness: the rectangle (id 0) and its text (id 1) of \<open>scene_rect\<close>.
\<close>

theorem C10_cascade_removes_exactly_the_pair_witness:
  "bound_pair scene_rect 0 1
   \<and> distinct (cv_objects scene_rect)
   \<and> 0 \<in> set (cv_objects scene_rect)
   \<and> 1 \<in> set (cv_objects scene_rect)
   \<and> cv_objects scene_rect = [0, 1]
   \<and> set (cv_objects (canvas_remove 0 scene_rect)) = set (cv_objects scene_rect) - {0, 1}
   \<and> set (cv_objects (canvas_remove 1 scene_rect)) = set (cv_objects scene_rect) - {0, 1}
   \<and> length (cv_objects (canvas_remove 0 scene_rect)) + 2 = length (cv_objects scene_rect)"
proof -
  have h1: "bound_pair scene_rect 0 1"
    and h2: "distinct (cv_objects scene_rect)"
    and h3: "0 \<in> set (cv_objects scene_rect)"
    and h4: "1 \<in> set (cv_objects scene_rect)"
    and v: "cv_objects scene_rect = [0, 1]"
    by (simp_all add: pair_defs eval_defs cong: let_weak_cong)
  show ?thesis
    using C10_cascade_removes_exactly_the_pair [OF h1 h2 h3 h4] h1 h2 h3 h4 v by blast
qed


lemma nearest_in: "nearest d ts = Some t \<Longrightarrow> t \<in> set ts"
  by (induction ts arbitrary: t) (auto split: option.splits if_splits)

lemma nearest_None: "nearest d ts = None \<longleftrightarrow> ts = []"
  by (cases ts) (auto split: option.splits)

lemma nearest_least: "nearest d ts = Some t \<Longrightarrow> t' \<in> set ts \<Longrightarrow> d t \<le> d t'"
  by (induction ts arbitrary: t) (auto simp add: nearest_None split: option.splits if_splits)

lemma nearest_first:
  "nearest d ts = Some t \<Longrightarrow> ts = xs @ t # ys \<Longrightarrow> t \<notin> set xs \<Longrightarrow> \<forall>x \<in> set xs. d t < d x"
proof (induction ts arbitrary: t xs)
  case Nil
  then show ?case by simp
next
  case (Cons a ts)
  show ?case
  proof (cases xs)
    case Nil
    then show ?thesis by simp
  next
    case (Cons b xs')
    then have a: "a = b" and ts: "ts = xs' @ t # ys"
      using Cons.prems(2) by simp_all
    have "t \<noteq> a" using Cons.prems(3) Cons a by simp
    then have n: "nearest d ts = Some t" and lt: "d t < d a"
      using Cons.prems(1) nearest_in [of d ts]
      by (auto split: option.splits if_splits)
    from Cons.IH [OF n ts] Cons.prems(3) Cons have "\<forall>x \<in> set xs'. d t < d x"
      by simp
    then show ?thesis
      using lt a Cons by simp
  qed
qed

lemma find_closest_acc:
  "find_closest st ctr ts (Some b, Some db) =
     (case nearest (\<lambda>t. distance ctr (getCenterPoint st (heap st t))) (unclaimed st ts) of
        None \<Rightarrow> (Some b, Some db)
      | Some m \<Rightarrow>
          if distance ctr (getCenterPoint st (heap st m)) < db
          then (Some m, Some (distance ctr (getCenterPoint st (heap st m))))
          else (Some b, Some db))"
proof (induction ts arbitrary: b db)
  case Nil
  then show ?case by (simp add: unclaimed_def)
next
  case (Cons t ts)
  show ?case
    by (auto simp add: unclaimed_def Cons.IH Let_def split: option.splits)
qed

lemma find_closest_nearest:
  "fst (find_closest st ctr ts (None, None)) =
     nearest (\<lambda>t. distance ctr (getCenterPoint st (heap st t))) (unclaimed st ts)"
proof (induction ts)
  case Nil
  then show ?case by (simp add: unclaimed_def)
next
  case (Cons t ts)
  show ?case
    using Cons.IH
    by (auto simp add: unclaimed_def find_closest_acc Let_def split: option.splits)
qed

lemma nearest_cong:
  "(\<And>t. t \<in> set ts \<Longrightarrow> d t = d' t) \<Longrightarrow> nearest d ts = nearest d' ts"
  by (induction ts) (auto split: option.splits dest: nearest_in)

lemma relink_spec_subset:
  "(c, t) \<in> set (relink_spec d cs ts) \<Longrightarrow> c \<in> set cs \<and> t \<in> set ts"
proof (induction cs arbitrary: ts)
  case Nil
  then show ?case by simp
next
  case (Cons a cs)
  show ?case
  proof (cases "nearest (d a) ts")
    case None
    then show ?thesis
      using Cons by auto
  next
    case (Some x)
    have sub: "set (remove1 x ts) \<subseteq> set ts"
      by (rule set_remove1_subset)
    from Cons.prems Some have "(c, t) = (a, x) \<or> (c, t) \<in> set (relink_spec d cs (remove1 x ts))"
      by simp
    then show ?thesis
    proof
      assume "(c, t) = (a, x)"
      then show ?thesis
        using Some nearest_in by fastforce
    next
      assume "(c, t) \<in> set (relink_spec d cs (remove1 x ts))"
      from Cons.IH [OF this] sub show ?thesis
        by auto
    qed
  qed
qed

lemma relink_spec_distinct:
  "distinct cs \<Longrightarrow> distinct ts \<Longrightarrow>
     distinct (map fst (relink_spec d cs ts)) \<and> distinct (map snd (relink_spec d cs ts))"
proof (induction cs arbitrary: ts)
  case Nil
  then show ?case by simp
next
  case (Cons a cs)
  show ?case
  proof (cases "nearest (d a) ts")
    case None
    then show ?thesis using Cons by simp
  next
    case (Some t)
    have "a \<notin> fst ` set (relink_spec d cs (remove1 t ts))"
      using Cons.prems(1) relink_spec_subset by fastforce
    moreover have "t \<notin> snd ` set (relink_spec d cs (remove1 t ts))"
      using Cons.prems(2) relink_spec_subset [of _ t d cs "remove1 t ts"] by fastforce
    ultimately show ?thesis
      using Cons Some by simp
  qed
qed

text \<open>What binding one shape to its closest text changes.\<close>

lemma bind_closest_None:
  assumes "nearest (\<lambda>t. distance (getCenterPoint st (heap st c)) (getCenterPoint st (heap st t)))
             (unclaimed st ts) = None"
  shows "bind_closest ts c st = st"
  using assms by (simp add: bind_closest_def find_closest_nearest Let_def)

lemma bind_closest_Some:
  assumes "nearest (\<lambda>t. distance (getCenterPoint st (heap st c)) (getCenterPoint st (heap st t)))
             (unclaimed st ts) = Some t"
    and "c \<noteq> t"
  shows "cv_objects (bind_closest ts c st) = cv_objects st"
    and "getCenterPoint (bind_closest ts c st) = getCenterPoint st"
    and "nextId (bind_closest ts c st) = nextId st"
    and "\<And>x. x \<noteq> c \<Longrightarrow> x \<noteq> t \<Longrightarrow> heap (bind_closest ts c st) x = heap st x"
    and "o_boundText (heap (bind_closest ts c st) c) = Some t"
    and "o_boundShape (heap (bind_closest ts c st) c) = o_boundShape (heap st c)"
    and "o_boundBubble (heap (bind_closest ts c st) c) = o_boundBubble (heap st c)"
    and "o_shapeType (heap (bind_closest ts c st) c) = o_shapeType (heap st c)"
    and "o_shapeType (heap (bind_closest ts c st) t) = o_shapeType (heap st t)"
    and "o_boundText (heap (bind_closest ts c st) t) = o_boundText (heap st t)"
    and "o_boundBubble (heap (bind_closest ts c st) t) =
           (if o_shapeType (heap st c) = Some ''bubble'' then Some c
            else o_boundBubble (heap st t))"
    and "o_boundShape (heap (bind_closest ts c st) t) =
           (if o_shapeType (heap st c) = Some ''bubble'' then o_boundShape (heap st t)
            else Some c)"
    and "listeners_for ''removed'' (heap (bind_closest ts c st) c) =
           listeners_for ''removed'' (heap st c)
           @ [if o_shapeType (heap st c) = Some ''bubble'' then Bubble_removed t
              else Shape_removed t]"
    and "listeners_for ''removed'' (heap (bind_closest ts c st) t) =
           listeners_for ''removed'' (heap st t)
           @ [if o_shapeType (heap st c) = Some ''bubble'' then BubbleText_removed
              else ShapeText_removed]"
  using assms
  by (simp_all add: bind_closest_def find_closest_nearest Let_def obj_set_def on_def
      bindBubbleTextEvents_def setupBubbleTextEvents_def bindShapeTextEvents_def
      setupShapeTextEvents_def listeners_for_def cong: let_weak_cong)

lemma unclaimed_subset: "set (unclaimed st ts) \<subseteq> set ts"
  by (auto simp add: unclaimed_def)

lemma distinct_unclaimed: "distinct ts \<Longrightarrow> distinct (unclaimed st ts)"
  by (simp add: unclaimed_def)

lemma unclaimed_after_bind:
  assumes "distinct ts" and "c \<notin> set ts" and "t \<in> set (unclaimed st ts)"
    and "\<And>x. x \<noteq> c \<Longrightarrow> x \<noteq> t \<Longrightarrow> heap st1 x = heap st x"
    and "o_boundBubble (heap st1 t) \<noteq> None \<or> o_boundShape (heap st1 t) \<noteq> None"
  shows "unclaimed st1 ts = remove1 t (unclaimed st ts)"
proof -
  have c: "unclaimed st1 ts =
      filter (\<lambda>x. (o_boundBubble (heap st x) = None \<and> o_boundShape (heap st x) = None) \<and> t \<noteq> x) ts"
    unfolding unclaimed_def
  proof (rule filter_cong [OF refl])
    fix x assume "x \<in> set ts"
    then have "x \<noteq> c" using assms(2) by auto
    then show "(o_boundBubble (heap st1 x) = None \<and> o_boundShape (heap st1 x) = None)
             = ((o_boundBubble (heap st x) = None \<and> o_boundShape (heap st x) = None) \<and> t \<noteq> x)"
      using assms(4) [of x] assms(5) by (cases "x = t") auto
  qed
  have "remove1 t (unclaimed st ts) = filter (\<lambda>y. t \<noteq> y) (unclaimed st ts)"
    using distinct_unclaimed [OF assms(1), of st]
    by (simp add: distinct_remove1_removeAll removeAll_filter_not_eq)
  also have "\<dots> =
      filter (\<lambda>x. (o_boundBubble (heap st x) = None \<and> o_boundShape (heap st x) = None) \<and> t \<noteq> x) ts"
    by (simp add: unclaimed_def)
  finally show ?thesis
    using c by simp
qed

lemma relink_fold:
  assumes "distinct cs" and "distinct ts" and "set cs \<inter> set ts = {}"
    and fresh: "\<forall>x \<in> set cs \<union> set ts.
                  o_boundText (heap st0 x) = None \<and> o_boundShape (heap st0 x) = None
                  \<and> o_boundBubble (heap st0 x) = None
                  \<and> listeners_for ''removed'' (heap st0 x) = []"
    and same_c: "\<forall>c \<in> set cs. heap st c = heap st0 c"
    and same_t: "\<forall>t \<in> set (unclaimed st ts). heap st t = heap st0 t"
    and g: "getCenterPoint st = getCenterPoint st0"
  shows "(\<forall>x. x \<notin> set cs \<longrightarrow> x \<notin> set (unclaimed st ts) \<longrightarrow>
            heap (fold (bind_closest ts) cs st) x = heap st x)
       \<and> (\<forall>(c, t) \<in> set (relink_spec (center_distance st0) cs (unclaimed st ts)).
            relinked st0 (fold (bind_closest ts) cs st) c t)
       \<and> (\<forall>c \<in> set cs.
            c \<notin> fst ` set (relink_spec (center_distance st0) cs (unclaimed st ts)) \<longrightarrow>
            heap (fold (bind_closest ts) cs st) c = heap st0 c)
       \<and> (\<forall>t \<in> set (unclaimed st ts).
            t \<notin> snd ` set (relink_spec (center_distance st0) cs (unclaimed st ts)) \<longrightarrow>
            heap (fold (bind_closest ts) cs st) t = heap st0 t)
       \<and> cv_objects (fold (bind_closest ts) cs st) = cv_objects st
       \<and> getCenterPoint (fold (bind_closest ts) cs st) = getCenterPoint st
       \<and> nextId (fold (bind_closest ts) cs st) = nextId st"
  using assms
proof (induction cs arbitrary: st)
  case Nil
  then show ?case by simp
next
  case (Cons c cs)
  let ?U = "unclaimed st ts"
  let ?d0 = "center_distance st0"
  have dcs: "distinct cs" and c_cs: "c \<notin> set cs" and c_ts: "c \<notin> set ts"
    and disj: "set cs \<inter> set ts = {}"
    using Cons.prems(1,3) by auto
  have c_U: "c \<notin> set ?U"
    using c_ts unclaimed_subset by blast
  have hc: "heap st c = heap st0 c"
    using Cons.prems(5) by simp
  have fresh': "\<forall>x \<in> set cs \<union> set ts.
                  o_boundText (heap st0 x) = None \<and> o_boundShape (heap st0 x) = None
                  \<and> o_boundBubble (heap st0 x) = None
                  \<and> listeners_for ''removed'' (heap st0 x) = []"
    using Cons.prems(4) by simp
  have near: "nearest (\<lambda>t. distance (getCenterPoint st (heap st c))
                                   (getCenterPoint st (heap st t))) ?U
              = nearest (?d0 c) ?U"
    by (rule nearest_cong) (simp add: center_distance_def hc Cons.prems(6,7))
  show ?case
  proof (cases "nearest (?d0 c) ?U")
    case None
    have st1: "bind_closest ts c st = st"
      using near None by (simp add: bind_closest_None)
    have sc: "\<forall>c \<in> set cs. heap st c = heap st0 c"
      using Cons.prems(5) by simp
    note IH = Cons.IH [OF dcs Cons.prems(2) disj fresh' sc Cons.prems(6,7)]
    have keep: "heap (fold (bind_closest ts) cs st) c = heap st0 c"
      using IH c_cs c_U hc by simp
    show ?thesis
      using IH None keep by (simp add: st1)
  next
    case (Some t)
    let ?st1 = "bind_closest ts c st"
    have nst: "nearest (\<lambda>t. distance (getCenterPoint st (heap st c))
                                    (getCenterPoint st (heap st t))) ?U = Some t"
      using near Some by simp
    have t_U: "t \<in> set ?U"
      using Some nearest_in by fastforce
    then have t_ts: "t \<in> set ts"
      using unclaimed_subset by blast
    have ne: "c \<noteq> t"
      using c_ts t_ts by auto
    have t_cs: "t \<notin> set cs"
      using disj t_ts by auto
    have ht: "heap st t = heap st0 t"
      using Cons.prems(6) t_U by simp
    note B = bind_closest_Some [OF nst ne]
    have bound: "o_boundBubble (heap ?st1 t) \<noteq> None \<or> o_boundShape (heap ?st1 t) \<noteq> None"
      using B(11,12) by (cases "o_shapeType (heap st c) = Some ''bubble''") simp_all
    have U1: "unclaimed ?st1 ts = remove1 t ?U"
      using unclaimed_after_bind [OF Cons.prems(2) c_ts t_U B(4) bound] .
    have dU: "distinct ?U"
      using distinct_unclaimed [OF Cons.prems(2)] .
    have t_U1: "t \<notin> set (remove1 t ?U)"
      using dU by simp
    have c_U1: "c \<notin> set (remove1 t ?U)"
      using c_U by (auto dest: notin_set_remove1)
    have sc: "\<forall>c' \<in> set cs. heap ?st1 c' = heap st0 c'"
    proof
      fix c' assume a: "c' \<in> set cs"
      then have "c' \<noteq> c" "c' \<noteq> t"
        using c_cs t_cs by auto
      then have "heap ?st1 c' = heap st c'"
        by (rule B(4))
      then show "heap ?st1 c' = heap st0 c'"
        using Cons.prems(5) a by simp
    qed
    have st': "\<forall>t' \<in> set (unclaimed ?st1 ts). heap ?st1 t' = heap st0 t'"
    proof
      fix t' assume a: "t' \<in> set (unclaimed ?st1 ts)"
      then have "t' \<in> set ?U" and "t' \<noteq> t"
        using U1 dU by (auto dest: notin_set_remove1)
      moreover from this have "t' \<noteq> c"
        using c_U by auto
      ultimately show "heap ?st1 t' = heap st0 t'"
        using B(4) [of t'] Cons.prems(6) by simp
    qed
    have g1: "getCenterPoint ?st1 = getCenterPoint st0"
      using B(2) Cons.prems(7) by simp
    note IH = Cons.IH [OF dcs Cons.prems(2) disj fresh' sc st' g1, unfolded U1]
    let ?st' = "fold (bind_closest ts) cs ?st1"
    have hc': "heap ?st' c = heap ?st1 c" and ht': "heap ?st' t = heap ?st1 t"
      using IH c_cs c_U1 t_cs t_U1 by simp_all
    have fc: "o_boundText (heap st0 c) = None \<and> o_boundShape (heap st0 c) = None
              \<and> o_boundBubble (heap st0 c) = None
              \<and> listeners_for ''removed'' (heap st0 c) = []"
      and ft: "o_boundText (heap st0 t) = None \<and> o_boundShape (heap st0 t) = None
              \<and> o_boundBubble (heap st0 t) = None
              \<and> listeners_for ''removed'' (heap st0 t) = []"
      using Cons.prems(4) t_ts by simp_all
    have pair: "relinked st0 ?st' c t"
      using B(5,11,12,13,14) ne fc ft
      by (simp add: relinked_def bubble_pair_def shape_pair_def hc' ht' hc ht)
    have F: "\<forall>x. x \<notin> set (c # cs) \<longrightarrow> x \<notin> set ?U \<longrightarrow> heap ?st' x = heap st x"
    proof (intro allI impI)
      fix x assume a: "x \<notin> set (c # cs)" "x \<notin> set ?U"
      then have "x \<notin> set cs" "x \<notin> set (remove1 t ?U)" "x \<noteq> c" "x \<noteq> t"
        using t_U by (auto dest: notin_set_remove1)
      then show "heap ?st' x = heap st x"
        using IH B(4) [of x] by simp
    qed
    have P: "\<forall>(c', t') \<in> set (relink_spec ?d0 (c # cs) ?U). relinked st0 ?st' c' t'"
      using IH pair Some by simp
    have U1c: "\<forall>c' \<in> set (c # cs).
                 c' \<notin> fst ` set (relink_spec ?d0 (c # cs) ?U) \<longrightarrow> heap ?st' c' = heap st0 c'"
      using IH Some by auto
    have U2t: "\<forall>t' \<in> set ?U.
                 t' \<notin> snd ` set (relink_spec ?d0 (c # cs) ?U) \<longrightarrow> heap ?st' t' = heap st0 t'"
    proof (intro ballI impI)
      fix t' assume a: "t' \<in> set ?U" "t' \<notin> snd ` set (relink_spec ?d0 (c # cs) ?U)"
      then have "t' \<noteq> t" and "t' \<notin> snd ` set (relink_spec ?d0 cs (remove1 t ?U))"
        using Some by auto
      moreover from this a(1) have "t' \<in> set (remove1 t ?U)"
        by simp
      ultimately show "heap ?st' t' = heap st0 t'"
        using IH by simp
    qed
    have O: "cv_objects ?st' = cv_objects st \<and> getCenterPoint ?st' = getCenterPoint st
             \<and> nextId ?st' = nextId st"
      using IH B(1,2,3) by simp
    show ?thesis
      using F P U1c U2t O by simp
  qed
qed

lemma relink_spec_nth:
  assumes "distinct ts" and "k < length (relink_spec d cs ts)"
  shows "snd (relink_spec d cs ts ! k)
           \<in> set (filter (\<lambda>x. x \<notin> snd ` set (take k (relink_spec d cs ts))) ts)
       \<and> (\<forall>t' \<in> set (filter (\<lambda>x. x \<notin> snd ` set (take k (relink_spec d cs ts))) ts).
            d (fst (relink_spec d cs ts ! k)) (snd (relink_spec d cs ts ! k))
              \<le> d (fst (relink_spec d cs ts ! k)) t')"
  using assms
proof (induction cs arbitrary: ts k)
  case Nil
  then show ?case by simp
next
  case (Cons c cs)
  show ?case
  proof (cases "nearest (d c) ts")
    case None
    then show ?thesis
      using Cons by simp
  next
    case (Some t0)
    have P: "relink_spec d (c # cs) ts = (c, t0) # relink_spec d cs (remove1 t0 ts)"
      using Some by simp
    show ?thesis
    proof (cases k)
      case 0
      then show ?thesis
        using Some nearest_in [OF Some] nearest_least [OF Some] by (simp add: P)
    next
      case (Suc k')
      have d1: "distinct (remove1 t0 ts)"
        using Cons.prems(1) by simp
      have k': "k' < length (relink_spec d cs (remove1 t0 ts))"
        using Cons.prems(2) Suc Some by simp
      define P1 where "P1 = relink_spec d cs (remove1 t0 ts)"
      have tk: "take k (relink_spec d (c # cs) ts) = (c, t0) # take k' P1"
        using Some Suc by (simp add: P1_def)
      have r: "remove1 t0 ts = filter (\<lambda>y. t0 \<noteq> y) ts"
        using Cons.prems(1) by (simp add: distinct_remove1_removeAll removeAll_filter_not_eq)
      have "filter (\<lambda>x. x \<notin> snd ` set (take k' P1)) (remove1 t0 ts)
            = filter (\<lambda>x. t0 \<noteq> x \<and> x \<notin> snd ` set (take k' P1)) ts"
        by (subst r) simp
      also have "\<dots> = filter (\<lambda>x. x \<notin> snd ` set ((c, t0) # take k' P1)) ts"
        by (rule filter_cong [OF refl]) auto
      finally have flt: "filter (\<lambda>x. x \<notin> snd ` set (take k (relink_spec d (c # cs) ts))) ts
               = filter (\<lambda>x. x \<notin> snd ` set (take k' (relink_spec d cs (remove1 t0 ts))))
                   (remove1 t0 ts)"
        by (simp only: tk P1_def)
      have nth: "relink_spec d (c # cs) ts ! k = relink_spec d cs (remove1 t0 ts) ! k'"
        using Some Suc by simp
      from Cons.IH [OF d1 k'] show ?thesis
        unfolding flt nth .
    qed
  qed
qed

lemma bindable_text_disjoint: "set (bindableShapes st) \<inter> set (shapeTexts st) = {}"
  by (auto simp add: bindableShapes_def shapeTexts_def is_shapeText_def)

lemma unclaimed_fresh:
  "freshly_loaded st \<Longrightarrow> unclaimed st (shapeTexts st) = shapeTexts st"
  unfolding unclaimed_def shapeTexts_def filter_filter
  by (rule filter_cong [OF refl]) (simp add: freshly_loaded_def)

text \<open>
  Claim C1. On a freshly loaded collection, \<open>restoreBubbleTextBindings\<close> makes exactly the
  pairs of \<open>relink_spec\<close> over the containers (\<open>_shapeType\<close> bubble, rect, circle, triangle)
  and the texts (\<open>_shapeType\<close> bubbleText, shapeText) in their order in the collection:
  every listed pair is bound (references both ways and the cascade handlers), a container
  or text in no pair is left exactly as loaded, no container and no text is in two pairs,
  and the text of the k-th pair is, among the texts not taken by the pairs before it, one
  whose centre is nearest to the container's centre.
\<close>

theorem C1_relink_binds_nearest_unclaimed:
  assumes "freshly_loaded st"
  shows "(\<forall>(c, t) \<in> set (relink_spec (center_distance st) (bindableShapes st) (shapeTexts st)).
            relinked st (restoreBubbleTextBindings st) c t)
       \<and> (\<forall>c \<in> set (bindableShapes st).
            c \<notin> fst ` set (relink_spec (center_distance st) (bindableShapes st) (shapeTexts st))
            \<longrightarrow> heap (restoreBubbleTextBindings st) c = heap st c)
       \<and> (\<forall>t \<in> set (shapeTexts st).
            t \<notin> snd ` set (relink_spec (center_distance st) (bindableShapes st) (shapeTexts st))
            \<longrightarrow> heap (restoreBubbleTextBindings st) t = heap st t)
       \<and> distinct (map fst (relink_spec (center_distance st) (bindableShapes st) (shapeTexts st)))
       \<and> distinct (map snd (relink_spec (center_distance st) (bindableShapes st) (shapeTexts st)))
       \<and> (\<forall>k < length (relink_spec (center_distance st) (bindableShapes st) (shapeTexts st)).
            fst (relink_spec (center_distance st) (bindableShapes st) (shapeTexts st) ! k)
              \<in> set (bindableShapes st)
          \<and> snd (relink_spec (center_distance st) (bindableShapes st) (shapeTexts st) ! k)
              \<in> set (filter (\<lambda>x. x \<notin> snd ` set (take k
                    (relink_spec (center_distance st) (bindableShapes st) (shapeTexts st))))
                    (shapeTexts st))
          \<and> (\<forall>t' \<in> set (filter (\<lambda>x. x \<notin> snd ` set (take k
                    (relink_spec (center_distance st) (bindableShapes st) (shapeTexts st))))
                    (shapeTexts st)).
               center_distance st
                 (fst (relink_spec (center_distance st) (bindableShapes st) (shapeTexts st) ! k))
                 (snd (relink_spec (center_distance st) (bindableShapes st) (shapeTexts st) ! k))
               \<le> center_distance st
                 (fst (relink_spec (center_distance st) (bindableShapes st) (shapeTexts st) ! k))
                 t'))
       \<and> cv_objects (restoreBubbleTextBindings st) = cv_objects st"
proof -
  let ?cs = "bindableShapes st" and ?ts = "shapeTexts st"
  let ?P = "relink_spec (center_distance st) ?cs ?ts"
  have dc: "distinct ?cs" and dt: "distinct ?ts"
    using assms by (simp_all add: freshly_loaded_def bindableShapes_def shapeTexts_def)
  have fresh: "\<forall>x \<in> set ?cs \<union> set ?ts.
                  o_boundText (heap st x) = None \<and> o_boundShape (heap st x) = None
                  \<and> o_boundBubble (heap st x) = None
                  \<and> listeners_for ''removed'' (heap st x) = []"
    using assms by (auto simp add: freshly_loaded_def bindableShapes_def shapeTexts_def)
  have U: "unclaimed st ?ts = ?ts"
    using assms by (rule unclaimed_fresh)
  have F: "(\<forall>x. x \<notin> set ?cs \<longrightarrow> x \<notin> set ?ts \<longrightarrow>
              heap (fold (bind_closest ?ts) ?cs st) x = heap st x)
       \<and> (\<forall>(c, t) \<in> set ?P. relinked st (fold (bind_closest ?ts) ?cs st) c t)
       \<and> (\<forall>c \<in> set ?cs. c \<notin> fst ` set ?P \<longrightarrow> heap (fold (bind_closest ?ts) ?cs st) c = heap st c)
       \<and> (\<forall>t \<in> set ?ts. t \<notin> snd ` set ?P \<longrightarrow> heap (fold (bind_closest ?ts) ?cs st) t = heap st t)
       \<and> cv_objects (fold (bind_closest ?ts) ?cs st) = cv_objects st
       \<and> getCenterPoint (fold (bind_closest ?ts) ?cs st) = getCenterPoint st
       \<and> nextId (fold (bind_closest ?ts) ?cs st) = nextId st"
    using relink_fold [OF dc dt bindable_text_disjoint fresh, of st] by (simp add: U)
  have D: "distinct (map fst ?P) \<and> distinct (map snd ?P)"
    using relink_spec_distinct [OF dc dt] .
  have N: "\<forall>k < length ?P.
            fst (?P ! k) \<in> set ?cs
          \<and> snd (?P ! k) \<in> set (filter (\<lambda>x. x \<notin> snd ` set (take k ?P)) ?ts)
          \<and> (\<forall>t' \<in> set (filter (\<lambda>x. x \<notin> snd ` set (take k ?P)) ?ts).
               center_distance st (fst (?P ! k)) (snd (?P ! k))
               \<le> center_distance st (fst (?P ! k)) t')"
  proof (intro allI impI)
    fix k assume k: "k < length ?P"
    then have "?P ! k \<in> set ?P" by simp
    then have "fst (?P ! k) \<in> set ?cs"
      using relink_spec_subset [of "fst (?P ! k)" "snd (?P ! k)"] by simp
    then show "fst (?P ! k) \<in> set ?cs
          \<and> snd (?P ! k) \<in> set (filter (\<lambda>x. x \<notin> snd ` set (take k ?P)) ?ts)
          \<and> (\<forall>t' \<in> set (filter (\<lambda>x. x \<notin> snd ` set (take k ?P)) ?ts).
               center_distance st (fst (?P ! k)) (snd (?P ! k))
               \<le> center_distance st (fst (?P ! k)) t')"
      using relink_spec_nth [OF dt k] by blast
  qed
  show ?thesis
    unfolding restoreBubbleTextBindings_def
    using F D N by blast
qed

lemmas relink_defs = loadFromJSON_def snapshot_records_def loaded_scene_def bindableShapes_def
  shapeTexts_def is_bindableShape_def is_shapeText_def center_distance_def distance_def
  freshly_loaded_def restoreBubbleTextBindings_def bind_closest_def relinked_def
  shape_pair_def bubble_pair_def restore_object_def restoreState_then_def
  setupRestoredTextBox_def

text \<open>
  Claim C1, witness: \<open>loaded_scene\<close>. The rectangle (id 0, centre (50, 40)) is met first and
  takes the text 2 at distance 0, not the text 1 that comes first in the collection at
  distance 225; the bubble (id 3) then takes the text 1.
\<close>

theorem C1_relink_binds_nearest_unclaimed_witness:
  "freshly_loaded loaded_scene
   \<and> bindableShapes loaded_scene = [0, 3]
   \<and> shapeTexts loaded_scene = [1, 2]
   \<and> center_distance loaded_scene 0 1 = 225
   \<and> center_distance loaded_scene 0 2 = 0
   \<and> relink_spec (center_distance loaded_scene) (bindableShapes loaded_scene)
         (shapeTexts loaded_scene) = [(0, 2), (3, 1)]
   \<and> relinked loaded_scene (restoreBubbleTextBindings loaded_scene) 0 2
   \<and> relinked loaded_scene (restoreBubbleTextBindings loaded_scene) 3 1
   \<and> o_boundText (heap (restoreBubbleTextBindings loaded_scene) 0) = Some 2
   \<and> o_boundShape (heap (restoreBubbleTextBindings loaded_scene) 2) = Some 0
   \<and> o_boundText (heap (restoreBubbleTextBindings loaded_scene) 3) = Some 1
   \<and> o_boundBubble (heap (restoreBubbleTextBindings loaded_scene) 1) = Some 3"
proof -
  have h: "freshly_loaded loaded_scene"
    by (simp add: relink_defs eval_defs cong: let_weak_cong)
  have v: "bindableShapes loaded_scene = [0, 3]" "shapeTexts loaded_scene = [1, 2]"
    by (simp_all add: relink_defs eval_defs cong: let_weak_cong)
  have d: "center_distance loaded_scene 0 1 = 225" "center_distance loaded_scene 0 2 = 0"
    by (simp_all add: relink_defs eval_defs cong: let_weak_cong)
  have P: "relink_spec (center_distance loaded_scene) (bindableShapes loaded_scene)
         (shapeTexts loaded_scene) = [(0, 2), (3, 1)]"
    unfolding v by (simp add: relink_defs eval_defs cong: let_weak_cong)
  have e: "o_boundText (heap (restoreBubbleTextBindings loaded_scene) 0) = Some 2"
    "o_boundShape (heap (restoreBubbleTextBindings loaded_scene) 2) = Some 0"
    "o_boundText (heap (restoreBubbleTextBindings loaded_scene) 3) = Some 1"
    "o_boundBubble (heap (restoreBubbleTextBindings loaded_scene) 1) = Some 3"
    by (simp_all add: relink_defs eval_defs cong: let_weak_cong)
  have "\<forall>(c, t) \<in> set [(0, 2), (3, 1)].
          relinked loaded_scene (restoreBubbleTextBindings loaded_scene) c t"
    using C1_relink_binds_nearest_unclaimed [OF h] unfolding P by blast
  then have r: "relinked loaded_scene (restoreBubbleTextBindings loaded_scene) 0 2"
    "relinked loaded_scene (restoreBubbleTextBindings loaded_scene) 3 1"
    by simp_all
  show ?thesis
    using h v d P e r by blast
qed

lemma restore_object_static:
  "o_boundText (heap (restore_object i st) x) = o_boundText (heap st x)"
  "o_boundShape (heap (restore_object i st) x) = o_boundShape (heap st x)"
  "o_boundBubble (heap (restore_object i st) x) = o_boundBubble (heap st x)"
  "o_shapeType (heap (restore_object i st) x) = o_shapeType (heap st x)"
  "listeners_for ''removed'' (heap (restore_object i st) x) = listeners_for ''removed'' (heap st x)"
  "cv_objects (restore_object i st) = cv_objects st"
  by (simp_all add: restore_object_def setupRestoredTextBox_def Let_def on_def obj_set_def
      listeners_for_def)

lemma fold_restore_object_static:
  "o_boundText (heap (fold restore_object xs st) x) = o_boundText (heap st x)"
  "o_boundShape (heap (fold restore_object xs st) x) = o_boundShape (heap st x)"
  "o_boundBubble (heap (fold restore_object xs st) x) = o_boundBubble (heap st x)"
  "o_shapeType (heap (fold restore_object xs st) x) = o_shapeType (heap st x)"
  "listeners_for ''removed'' (heap (fold restore_object xs st) x)
     = listeners_for ''removed'' (heap st x)"
  "cv_objects (fold restore_object xs st) = cv_objects st"
  by (induction xs arbitrary: st; simp add: restore_object_static)+

lemma freshly_loaded_restore_objects:
  "freshly_loaded st \<Longrightarrow> freshly_loaded (fold restore_object xs st)"
  by (simp add: freshly_loaded_def fold_restore_object_static)

lemmas restore_defs = restoreState_canvas_def scene_undo_during_drag_def


text \<open>
  Shape-bound text after a restore: the text 2 of the sample snapshot, bound to the
  rectangle 0 by the relink, carries the listeners of \<open>setupRestoredTextBox\<close> and then those
  of \<open>setupShapeTextEvents\<close>; it is empty, and leaving edit mode gives it the placeholder.
\<close>

lemma restored_shape_text_example:
  "o_boundShape (heap (restoreState_canvas snapshot_records editor0) 2) = Some 0
   \<and> o_listeners (heap (restoreState_canvas snapshot_records editor0) 2)
       = [(''editing:entered'', Restored_entered), (''editing:exited'', Restored_exited),
          (''selected'', Restored_selected), (''deselected'', Restored_deselected),
          (''editing:exited'', ShapeText_exited), (''removed'', ShapeText_removed)]
   \<and> o_text (heap (restoreState_canvas snapshot_records editor0) 2) = []
   \<and> o_text (heap (exitEditing 2 (restoreState_canvas snapshot_records editor0)) 2)
       = placeholderText
   \<and> o_isPlaceholder (heap (exitEditing 2 (restoreState_canvas snapshot_records editor0)) 2)"
  by (simp add: restore_defs relink_defs pair_defs eval_defs cong: let_weak_cong)

end
